theory Spec2Isabelle
  imports Main "HOL-Library.Word" "HOL-Library.AList"
begin

unbundle bit_operations_syntax

section \<open>DNSViz status evaluators (dnsviz/analysis/status.py)\<close>

text \<open>
  A shallow embedding of the status classes of \<^verbatim>\<open>dnsviz/analysis/status.py\<close>.
  Every class constructor (\<^verbatim>\<open>__init__\<close>) becomes a function that returns either the
  Python exception that escapes the constructor (\<open>Inl\<close>) or the constructed status
  object (\<open>Inr\<close>), a record of the attributes the constructor sets.

  Python sets and dictionaries are lists in their iteration order: \<^verbatim>\<open>list(s)[0]\<close> and
  \<^verbatim>\<open>d.items()[0]\<close> are the head of the list, truthiness is \<open>\<noteq> []\<close>.
\<close>

subsection \<open>Exceptions, names, constants\<close>

datatype exn = KeyError | IndexError | AttributeError | NameError | NoParent | NameTooLong

text \<open>
  A DNS name is the tuple of its labels, as \<^verbatim>\<open>dns.name.Name.labels\<close>, leftmost label
  first; an absolute name ends with the empty root label. Labels are taken in
  canonical form, so that name equality is equality of the label lists.
\<close>

type_synonym name = "string list"
type_synonym bytes = "8 word list"
type_synonym servers_clients = "((string \<times> string) \<times> nat list) list"

definition root :: name where
  "root = [[]]"

text \<open>\<^verbatim>\<open>Name.parent()\<close>: raises \<^verbatim>\<open>NoParent\<close> on the root and on the empty name.\<close>

definition parent :: "name \<Rightarrow> exn + name" where
  "parent n = (if n = root \<or> n = [] then Inl NoParent else Inr (tl n))"

text \<open>\<^verbatim>\<open>Name.is_absolute()\<close>: the last label is the root label.\<close>

definition is_absolute :: "name \<Rightarrow> bool" where
  "is_absolute n = (n \<noteq> [] \<and> last n = [])"

text \<open>
  \<^verbatim>\<open>self.is_subdomain(other)\<close>: \<open>other\<close> is \<open>self\<close> or an ancestor of it. An absolute
  and a relative name are unrelated.
\<close>

definition is_subdomain :: "name \<Rightarrow> name \<Rightarrow> bool" where
  "is_subdomain self other =
     (is_absolute self = is_absolute other \<and> length other \<le> length self
      \<and> drop (length self - length other) self = other)"

text \<open>
  The length of a name on the wire: for every label one length octet and the octets of
  the label. The constructor of \<^verbatim>\<open>dns.name.Name\<close> accepts a tuple of labels of at most
  255 octets in all, with labels of at most 63 octets and no empty label but the last.
\<close>

definition name_octets :: "name \<Rightarrow> nat" where
  "name_octets n = sum_list (map (\<lambda>label. length label + 1) n)"

definition is_name :: "name \<Rightarrow> bool" where
  "is_name n =
     (name_octets n \<le> 255 \<and> list_all (\<lambda>label. length label \<le> 63) n \<and> [] \<notin> set (butlast n))"

text \<open>
  \<^verbatim>\<open>dns.name.from_text('*', origin)\<close>: the wildcard label in front of the labels of
  \<open>origin\<close>, passed to the constructor of \<^verbatim>\<open>dns.name.Name\<close>, which raises
  \<^verbatim>\<open>NameTooLong\<close> when the new name has more than 255 octets. The labels of \<open>origin\<close>
  are the labels of a name, so the other checks of the constructor pass.
\<close>

definition from_text_star :: "name \<Rightarrow> exn + name" where
  "from_text_star origin =
     (if name_octets (''*'' # origin) > 255 then Inl NameTooLong else Inr (''*'' # origin))"

text \<open>
  \<^verbatim>\<open>dns.name.Name(labels[-k:])\<close>: the last \<open>k\<close> labels; the whole tuple when it has
  fewer than \<open>k\<close> labels and also when \<open>k = 0\<close> (Python reads \<^verbatim>\<open>labels[-0:]\<close> as
  \<^verbatim>\<open>labels[0:]\<close>).
\<close>

definition last_labels :: "nat \<Rightarrow> name \<Rightarrow> name" where
  "last_labels k n = (if k = 0 then n else drop (length n - k) n)"

definition STATUS_VALID :: nat where "STATUS_VALID = 0"
definition STATUS_INDETERMINATE :: nat where "STATUS_INDETERMINATE = 1"
definition STATUS_INVALID :: nat where "STATUS_INVALID = 2"

definition RRSIG_STATUS_VALID :: nat where "RRSIG_STATUS_VALID = STATUS_VALID"
definition RRSIG_STATUS_INDETERMINATE_NO_DNSKEY :: nat where
  "RRSIG_STATUS_INDETERMINATE_NO_DNSKEY = 1"
definition RRSIG_STATUS_INDETERMINATE_MATCH_PRE_REVOKE :: nat where
  "RRSIG_STATUS_INDETERMINATE_MATCH_PRE_REVOKE = 2"
definition RRSIG_STATUS_INDETERMINATE_UNKNOWN_ALGORITHM :: nat where
  "RRSIG_STATUS_INDETERMINATE_UNKNOWN_ALGORITHM = 3"
definition RRSIG_STATUS_EXPIRED :: nat where "RRSIG_STATUS_EXPIRED = 4"
definition RRSIG_STATUS_PREMATURE :: nat where "RRSIG_STATUS_PREMATURE = 5"
definition RRSIG_STATUS_INVALID_SIG :: nat where "RRSIG_STATUS_INVALID_SIG = 6"
definition RRSIG_STATUS_INVALID :: nat where "RRSIG_STATUS_INVALID = 7"

definition DS_STATUS_VALID :: nat where "DS_STATUS_VALID = STATUS_VALID"
definition DS_STATUS_INDETERMINATE_NO_DNSKEY :: nat where
  "DS_STATUS_INDETERMINATE_NO_DNSKEY = 1"
definition DS_STATUS_INDETERMINATE_MATCH_PRE_REVOKE :: nat where
  "DS_STATUS_INDETERMINATE_MATCH_PRE_REVOKE = 2"
definition DS_STATUS_INDETERMINATE_UNKNOWN_ALGORITHM :: nat where
  "DS_STATUS_INDETERMINATE_UNKNOWN_ALGORITHM = 3"
definition DS_STATUS_INVALID_DIGEST :: nat where "DS_STATUS_INVALID_DIGEST = 4"
definition DS_STATUS_INVALID :: nat where "DS_STATUS_INVALID = 7"

definition NSEC_STATUS_VALID :: nat where "NSEC_STATUS_VALID = STATUS_VALID"
definition NSEC_STATUS_INDETERMINATE :: nat where
  "NSEC_STATUS_INDETERMINATE = STATUS_INDETERMINATE"
definition NSEC_STATUS_INVALID :: nat where "NSEC_STATUS_INVALID = 2"

definition DNAME_STATUS_VALID :: nat where "DNAME_STATUS_VALID = STATUS_VALID"
definition DNAME_STATUS_INDETERMINATE :: nat where
  "DNAME_STATUS_INDETERMINATE = STATUS_INDETERMINATE"
definition DNAME_STATUS_INVALID_TARGET :: nat where "DNAME_STATUS_INVALID_TARGET = 2"
definition DNAME_STATUS_INVALID :: nat where "DNAME_STATUS_INVALID = 3"

text \<open>The record types of \<^verbatim>\<open>dns.rdatatype\<close> the module names.\<close>

definition rdatatype_NS :: nat where "rdatatype_NS = 2"
definition rdatatype_CNAME :: nat where "rdatatype_CNAME = 5"
definition rdatatype_SOA :: nat where "rdatatype_SOA = 6"
definition rdatatype_DS :: nat where "rdatatype_DS = 43"
definition rdatatype_DNSKEY :: nat where "rdatatype_DNSKEY = 48"

text \<open>
  Modelled from the spec: \<^verbatim>\<open>fmt.DNSKEY_FLAGS['revoke']\<close> is a table of
  \<^verbatim>\<open>dnsviz/format.py\<close>; the revoke bit of the DNSKEY flags is \<open>0x0080\<close>.
\<close>

definition DNSKEY_FLAGS_revoke :: "16 word" where
  "DNSKEY_FLAGS_revoke = 0x0080"

text \<open>The levels of Python's \<^verbatim>\<open>logging\<close> module.\<close>

definition logging_DEBUG :: int where "logging_DEBUG = 10"
definition logging_INFO :: int where "logging_INFO = 20"
definition logging_WARNING :: int where "logging_WARNING = 30"
definition logging_ERROR :: int where "logging_ERROR = 40"

subsection \<open>The error catalogue (module \<^verbatim>\<open>errors\<close>)\<close>

text \<open>
  One constructor per error class the module instantiates, with the keyword arguments
  it passes. Names are kept as names and timestamps as integers where the source
  renders them as text (\<^verbatim>\<open>canonicalize().to_text()\<close>, \<^verbatim>\<open>timestamp_to_datetime\<close>).
\<close>

datatype err =
    AlgorithmNotSupported nat
  | RRsetTTLMismatch int int
  | OriginalTTLExceeded int int
  | SignerNotZone name name
  | DNSKEYRevokedRRSIG
  | InceptionInFuture int int
  | ExpirationInPast int int
  | TTLBeyondExpiration int int int
  | SignatureInvalid
  | DigestAlgorithmNotSupported nat
  | DNSKEYRevokedDS
  | DigestInvalid
  | SnameNotCoveredNameError name
  | WildcardNotCoveredNSEC name
  | LastNSECNextNotZone name name name
  | WildcardExpansionInvalid name name name
  | SnameNotCoveredWildcardAnswer name
  | ReferralWithoutNSBitNSEC name
  | ReferralWithDSBitNSEC name
  | ReferralWithSOABitNSEC name
  | StypeInBitmapNoDataNSEC name nat
  | SnameNotCoveredWildcardNoData name
  | NoNSECMatchingSnameNoData name
  | UnsupportedNSEC3Algorithm nat
  | NoClosestEncloserNameError name
  | NextClosestEncloserNotCoveredNameError name
  | WildcardNotCoveredNSEC3 "name option"
  | NextClosestEncloserNotCoveredWildcardAnswer name
  | WildcardCoveredAnswerNSEC3 name
  | ReferralWithoutNSBitNSEC3 name
  | ReferralWithDSBitNSEC3 name
  | ReferralWithSOABitNSEC3 name
  | StypeInBitmapNoDataNSEC3 name nat
  | NextClosestEncloserNotCoveredWildcardNoData name
  | StypeInBitmapWildcardNoDataNSEC3 name nat
  | NoNSEC3MatchingSnameDSNoData name
  | NoNSEC3MatchingSnameNoData name
  | DNAMENoCNAME
  | DNAMETargetMismatch
  | DNAMETTLZero
  | DNAMETTLMismatch

subsection \<open>RRSIGStatus\<close>

record rrsig_rdata =
  rrsig_type_covered :: nat
  rrsig_algorithm :: nat
  rrsig_labels :: nat
  rrsig_original_ttl :: int
  rrsig_inception :: int
  rrsig_expiration :: int
  rrsig_key_tag :: nat
  rrsig_signer :: name
  rrsig_signature :: bytes

text \<open>The DNSKEY wrapper: \<^verbatim>\<open>dnskey.rdata.{flags, algorithm, key}\<close> and its own fields.\<close>

record dnskey_meta =
  dnskey_flags :: "16 word"
  dnskey_algorithm :: nat
  dnskey_key :: bytes
  dnskey_key_tag :: nat
  dnskey_key_tag_no_revoke :: nat
  dnskey_message_for_ds :: bytes

record rrsig_meta =
  rrsig_info_ttl :: int
  rrsig_info_servers_clients :: servers_clients

text \<open>
  The RRset carrier: \<^verbatim>\<open>rrset.rrset.{name, rdtype, ttl}\<close>, the dictionary
  \<^verbatim>\<open>rrset.rrsig_info\<close> keyed by RRSIG, and the method \<^verbatim>\<open>message_for_rrsig\<close>.
\<close>

record rrset_info =
  rrset_name :: name
  rrset_rdtype :: nat
  rrset_ttl :: int
  rrsig_info :: "rrsig_rdata \<rightharpoonup> rrsig_meta"
  message_for_rrsig :: "rrsig_rdata \<Rightarrow> bytes"

record rrsig_status =
  rs_rrset :: rrset_info
  rs_rrsig :: rrsig_rdata
  rs_dnskey :: "dnskey_meta option"
  rs_zone_name :: "name option"
  rs_reference_ts :: int
  rs_algorithm_unknown :: bool
  rs_warnings :: "err list"
  rs_errors :: "err list"
  rs_signature_valid :: "bool option"
  rs_validation_status :: nat

text \<open>
  The idiom the constructors repeat:
  \<^verbatim>\<open>if self.validation_status == RRSIG_STATUS_VALID: self.validation_status = s\<close>.
\<close>

definition rrsig_set_if_valid :: "nat \<Rightarrow> rrsig_status \<Rightarrow> rrsig_status" where
  "rrsig_set_if_valid s st =
     (if rs_validation_status st = RRSIG_STATUS_VALID
      then st\<lparr>rs_validation_status := s\<rparr> else st)"

text \<open>Lines 159-166: no verdict from the crypto library, or an unknown algorithm.\<close>

definition rrsig_check_keying :: "rrsig_status \<Rightarrow> rrsig_status" where
  "rrsig_check_keying st =
     (if rs_signature_valid st = None \<or> rs_algorithm_unknown st then
        (case rs_dnskey st of
           None \<Rightarrow> rrsig_set_if_valid RRSIG_STATUS_INDETERMINATE_NO_DNSKEY st
         | Some k \<Rightarrow>
             (rrsig_set_if_valid RRSIG_STATUS_INDETERMINATE_UNKNOWN_ALGORITHM st)
               \<lparr>rs_warnings := rs_warnings st @
                  [AlgorithmNotSupported (rrsig_algorithm (rs_rrsig st))]\<rparr>)
      else st)"

text \<open>
  Lines 168-173: the TTL checks. \<^verbatim>\<open>self.rrset.rrsig_info[self.rrsig]\<close> raises
  \<^verbatim>\<open>KeyError\<close> when the RRSIG is not a key of the dictionary. The result carries
  \<open>min_ttl\<close>.
\<close>

definition rrsig_check_ttl :: "rrsig_status \<Rightarrow> exn + (rrsig_status \<times> int)" where
  "rrsig_check_ttl st =
     (case rrsig_info (rs_rrset st) (rs_rrsig st) of
        None \<Rightarrow> Inl KeyError
      | Some info \<Rightarrow>
          (let ttl = rrset_ttl (rs_rrset st);
               sig_ttl = rrsig_info_ttl info;
               orig = rrsig_original_ttl (rs_rrsig st);
               st1 = (if ttl \<noteq> sig_ttl
                      then st\<lparr>rs_warnings := rs_warnings st @ [RRsetTTLMismatch ttl sig_ttl]\<rparr>
                      else st);
               st2 = (if sig_ttl > orig
                      then st1\<lparr>rs_errors := rs_errors st1 @ [OriginalTTLExceeded ttl orig]\<rparr>
                      else st1)
           in Inr (st2, min ttl (min sig_ttl orig))))"

text \<open>Lines 175-183: the signer is not the zone.\<close>

definition rrsig_signer_mismatch :: "rrsig_status \<Rightarrow> bool" where
  "rrsig_signer_mismatch st =
     (case rs_zone_name st of
        Some z \<Rightarrow> rrsig_signer (rs_rrsig st) \<noteq> z
      | None \<Rightarrow> \<not> is_subdomain (rrset_name (rs_rrset st)) (rrsig_signer (rs_rrsig st)))"

definition rrsig_check_signer :: "rrsig_status \<Rightarrow> rrsig_status" where
  "rrsig_check_signer st =
     (if rrsig_signer_mismatch st
      then
        (let st1 = rrsig_set_if_valid RRSIG_STATUS_INVALID st;
             signer = rrsig_signer (rs_rrsig st);
             zn = (case rs_zone_name st of None \<Rightarrow> signer | Some z \<Rightarrow> z)
         in st1\<lparr>rs_errors := rs_errors st1 @ [SignerNotZone zn signer]\<rparr>)
      else st)"

text \<open>Lines 185-193: a revoked key signing anything but the DNSKEY RRset.\<close>

definition rrsig_revoked :: "rrsig_status \<Rightarrow> dnskey_meta \<Rightarrow> bool" where
  "rrsig_revoked st k =
     (dnskey_flags k AND DNSKEY_FLAGS_revoke \<noteq> 0
      \<and> rrsig_type_covered (rs_rrsig st) \<noteq> rdatatype_DNSKEY)"

definition rrsig_check_revoke :: "rrsig_status \<Rightarrow> rrsig_status" where
  "rrsig_check_revoke st =
     (case rs_dnskey st of
        None \<Rightarrow> st
      | Some k \<Rightarrow>
          if rrsig_revoked st k
          then
            (if rrsig_key_tag (rs_rrsig st) \<noteq> dnskey_key_tag k
             then rrsig_set_if_valid RRSIG_STATUS_INDETERMINATE_MATCH_PRE_REVOKE st
             else rrsig_set_if_valid RRSIG_STATUS_INVALID
                    (st\<lparr>rs_errors := rs_errors st @ [DNSKEYRevokedRRSIG]\<rparr>))
          else st)"

text \<open>Lines 195-204: the validity window.\<close>

definition rrsig_check_window :: "int \<Rightarrow> rrsig_status \<Rightarrow> rrsig_status" where
  "rrsig_check_window min_ttl st =
     (let ts = rs_reference_ts st;
          inc = rrsig_inception (rs_rrsig st);
          exp = rrsig_expiration (rs_rrsig st);
          st1 = (if ts < inc
                 then (let s = rrsig_set_if_valid RRSIG_STATUS_PREMATURE st
                       in s\<lparr>rs_errors := rs_errors s @ [InceptionInFuture inc ts]\<rparr>)
                 else st)
      in if ts \<ge> exp
         then (let s = rrsig_set_if_valid RRSIG_STATUS_EXPIRED st1
               in s\<lparr>rs_errors := rs_errors s @ [ExpirationInPast exp ts]\<rparr>)
         else if ts + min_ttl \<ge> exp
         then st1\<lparr>rs_errors := rs_errors st1 @ [TTLBeyondExpiration exp min_ttl ts]\<rparr>
         else st1)"

text \<open>
  Lines 206-211: the verdict of the crypto library. \<^verbatim>\<open>self.dnskey.key_tag\<close> raises
  \<^verbatim>\<open>AttributeError\<close> when \<^verbatim>\<open>self.dnskey\<close> is \<^verbatim>\<open>None\<close>.
\<close>

definition rrsig_check_verdict :: "rrsig_status \<Rightarrow> exn + rrsig_status" where
  "rrsig_check_verdict st =
     (if \<not> rs_algorithm_unknown st \<and> rs_signature_valid st = Some False then
        (case rs_dnskey st of
           None \<Rightarrow> Inl AttributeError
         | Some k \<Rightarrow>
             if dnskey_key_tag k = rrsig_key_tag (rs_rrsig st)
             then (let s = rrsig_set_if_valid RRSIG_STATUS_INVALID_SIG st
                   in Inr (s\<lparr>rs_errors := rs_errors s @ [SignatureInvalid]\<rparr>))
             else Inr st)
      else Inr st)"

text \<open>
  Lines 153-156. The first argument is \<^verbatim>\<open>crypto.validate_rrsig\<close> (algorithm,
  signature, signed message, key), which answers \<^verbatim>\<open>True\<close>, \<^verbatim>\<open>False\<close> or \<^verbatim>\<open>None\<close>.
\<close>

definition rrsig_signature_valid ::
  "(nat \<Rightarrow> bytes \<Rightarrow> bytes \<Rightarrow> bytes \<Rightarrow> bool option) \<Rightarrow> rrset_info \<Rightarrow> rrsig_rdata \<Rightarrow>
   dnskey_meta option \<Rightarrow> bool option" where
  "rrsig_signature_valid validate_rrsig rrset rrsig dnskey =
     (case dnskey of
        None \<Rightarrow> None
      | Some k \<Rightarrow> validate_rrsig (dnskey_algorithm k) (rrsig_signature rrsig)
                   (message_for_rrsig rrset rrsig) (dnskey_key k))"

text \<open>\<^verbatim>\<open>RRSIGStatus.__init__\<close>.\<close>

definition RRSIGStatus_init ::
  "(nat \<Rightarrow> bytes \<Rightarrow> bytes \<Rightarrow> bytes \<Rightarrow> bool option) \<Rightarrow> rrset_info \<Rightarrow> rrsig_rdata \<Rightarrow>
   dnskey_meta option \<Rightarrow> name option \<Rightarrow> int \<Rightarrow> bool \<Rightarrow> exn + rrsig_status" where
  "RRSIGStatus_init validate_rrsig rrset rrsig dnskey zone_name reference_ts algorithm_unknown =
     (let st0 = \<lparr>rs_rrset = rrset, rs_rrsig = rrsig, rs_dnskey = dnskey,
                 rs_zone_name = zone_name, rs_reference_ts = reference_ts,
                 rs_algorithm_unknown = algorithm_unknown,
                 rs_warnings = [], rs_errors = [],
                 rs_signature_valid = rrsig_signature_valid validate_rrsig rrset rrsig dnskey,
                 rs_validation_status = RRSIG_STATUS_VALID\<rparr>
      in case rrsig_check_ttl (rrsig_check_keying st0) of
           Inl e \<Rightarrow> Inl e
         | Inr (st2, min_ttl) \<Rightarrow>
             rrsig_check_verdict
               (rrsig_check_window min_ttl (rrsig_check_revoke (rrsig_check_signer st2))))"

text \<open>
  The errors the TTL checks and the window checks append, for the statements below.
\<close>

definition rrsig_ttl_errors :: "rrsig_status \<Rightarrow> rrsig_meta \<Rightarrow> err list" where
  "rrsig_ttl_errors st info =
     (if rrsig_info_ttl info > rrsig_original_ttl (rs_rrsig st)
      then [OriginalTTLExceeded (rrset_ttl (rs_rrset st)) (rrsig_original_ttl (rs_rrsig st))]
      else [])"

definition rrsig_window_errors :: "int \<Rightarrow> rrsig_status \<Rightarrow> err list" where
  "rrsig_window_errors min_ttl st =
     (if rs_reference_ts st < rrsig_inception (rs_rrsig st)
      then [InceptionInFuture (rrsig_inception (rs_rrsig st)) (rs_reference_ts st)] else [])
     @ (if rs_reference_ts st \<ge> rrsig_expiration (rs_rrsig st)
        then [ExpirationInPast (rrsig_expiration (rs_rrsig st)) (rs_reference_ts st)]
        else if rs_reference_ts st + min_ttl \<ge> rrsig_expiration (rs_rrsig st)
        then [TTLBeyondExpiration (rrsig_expiration (rs_rrsig st)) min_ttl (rs_reference_ts st)]
        else [])"

subsection \<open>DSStatus\<close>

record ds_rdata =
  ds_key_tag :: nat
  ds_algorithm :: nat
  ds_digest_type :: nat
  ds_digest :: bytes

record ds_meta_info =
  ds_meta_name :: name
  ds_meta_rdtype :: nat
  ds_meta_ttl :: int
  ds_meta_servers_clients :: servers_clients

record ds_status =
  ds_ds :: ds_rdata
  ds_ds_meta :: ds_meta_info
  ds_dnskey :: "dnskey_meta option"
  ds_digest_algorithm_unknown :: bool
  ds_warnings :: "err list"
  ds_errors :: "err list"
  ds_digest_valid :: "bool option"
  ds_validation_status :: nat

definition ds_set_if_valid :: "nat \<Rightarrow> ds_status \<Rightarrow> ds_status" where
  "ds_set_if_valid s st =
     (if ds_validation_status st = DS_STATUS_VALID
      then st\<lparr>ds_validation_status := s\<rparr> else st)"

text \<open>Lines 281-288.\<close>

definition ds_check_keying :: "ds_status \<Rightarrow> ds_status" where
  "ds_check_keying st =
     (if ds_digest_valid st = None \<or> ds_digest_algorithm_unknown st then
        (case ds_dnskey st of
           None \<Rightarrow> ds_set_if_valid DS_STATUS_INDETERMINATE_NO_DNSKEY st
         | Some k \<Rightarrow>
             (ds_set_if_valid DS_STATUS_INDETERMINATE_UNKNOWN_ALGORITHM st)
               \<lparr>ds_warnings := ds_warnings st @
                  [DigestAlgorithmNotSupported (ds_digest_type (ds_ds st))]\<rparr>)
      else st)"

text \<open>Lines 290-298.\<close>

definition ds_check_revoke :: "ds_status \<Rightarrow> ds_status" where
  "ds_check_revoke st =
     (case ds_dnskey st of
        None \<Rightarrow> st
      | Some k \<Rightarrow>
          if dnskey_flags k AND DNSKEY_FLAGS_revoke \<noteq> 0
          then
            (if dnskey_key_tag k \<noteq> ds_key_tag (ds_ds st)
             then ds_set_if_valid DS_STATUS_INDETERMINATE_MATCH_PRE_REVOKE st
             else ds_set_if_valid DS_STATUS_INVALID
                    (st\<lparr>ds_errors := ds_errors st @ [DNSKEYRevokedDS]\<rparr>))
          else st)"

text \<open>Lines 300-305.\<close>

definition ds_check_verdict :: "ds_status \<Rightarrow> exn + ds_status" where
  "ds_check_verdict st =
     (if \<not> ds_digest_algorithm_unknown st \<and> ds_digest_valid st = Some False then
        (case ds_dnskey st of
           None \<Rightarrow> Inl AttributeError
         | Some k \<Rightarrow>
             if dnskey_key_tag k = ds_key_tag (ds_ds st)
             then (let s = ds_set_if_valid DS_STATUS_INVALID_DIGEST st
                   in Inr (s\<lparr>ds_errors := ds_errors s @ [DigestInvalid]\<rparr>))
             else Inr st)
      else Inr st)"

text \<open>
  Lines 275-278. The first argument is \<^verbatim>\<open>crypto.validate_ds_digest\<close> (digest type,
  digest, DNSKEY message).
\<close>

definition ds_digest_verdict ::
  "(nat \<Rightarrow> bytes \<Rightarrow> bytes \<Rightarrow> bool option) \<Rightarrow> ds_rdata \<Rightarrow> dnskey_meta option \<Rightarrow> bool option" where
  "ds_digest_verdict validate_ds_digest ds dnskey =
     (case dnskey of
        None \<Rightarrow> None
      | Some k \<Rightarrow> validate_ds_digest (ds_digest_type ds) (ds_digest ds) (dnskey_message_for_ds k))"

text \<open>\<^verbatim>\<open>DSStatus.__init__\<close>.\<close>

definition DSStatus_init ::
  "(nat \<Rightarrow> bytes \<Rightarrow> bytes \<Rightarrow> bool option) \<Rightarrow> ds_rdata \<Rightarrow> ds_meta_info \<Rightarrow>
   dnskey_meta option \<Rightarrow> bool \<Rightarrow> exn + ds_status" where
  "DSStatus_init validate_ds_digest ds ds_meta dnskey digest_algorithm_unknown =
     (let st0 = \<lparr>ds_ds = ds, ds_ds_meta = ds_meta, ds_dnskey = dnskey,
                 ds_digest_algorithm_unknown = digest_algorithm_unknown,
                 ds_warnings = [], ds_errors = [],
                 ds_digest_valid = ds_digest_verdict validate_ds_digest ds dnskey,
                 ds_validation_status = DS_STATUS_VALID\<rparr>
      in ds_check_verdict (ds_check_revoke (ds_check_keying st0)))"

subsection \<open>The NSEC set view (class \<^verbatim>\<open>NSECSet\<close> of \<^verbatim>\<open>dnsviz/response.py\<close>)\<close>

text \<open>
  The view is an argument of the constructors. Its attributes and methods are the
  fields of a record; a method is a function of its arguments. A dictionary the module
  indexes itself (\<^verbatim>\<open>nsec_set_info.rrsets[...]\<close>) is an association list, and a missing
  key is the \<^verbatim>\<open>KeyError\<close> of the model.
\<close>

record nsec_rdata =
  nsec_next :: name
  nsec_flags :: "8 word"

text \<open>An entry of \<^verbatim>\<open>rrsets\<close>: \<^verbatim>\<open>.rrset.name\<close> and the records \<^verbatim>\<open>.rrset[i]\<close>.\<close>

record nsec_rrset_info =
  nsec_rrset_name :: name
  nsec_rrset :: "nsec_rdata list"

type_synonym nsec3param = "bytes \<times> nat \<times> nat"
type_synonym names_dict = "(name \<times> name list) list"

record nsec_set_info =
  rrsets :: "(name \<times> nsec_rrset_info) list"
  referral :: bool
  nsec_servers_clients :: servers_clients
  nsec3_params :: "(nsec3param \<times> name list) list"
  nsec_covering_name :: "name \<Rightarrow> name list"
  rdtype_exists_in_bitmap :: "name \<Rightarrow> nat \<Rightarrow> bool"
  get_digest_name_for_nsec3 :: "name \<Rightarrow> name \<Rightarrow> bytes \<Rightarrow> nat \<Rightarrow> nat \<Rightarrow> name option"
  nsec3_covering_name :: "name \<Rightarrow> bytes \<Rightarrow> nat \<Rightarrow> nat \<Rightarrow> name list"
  get_closest_encloser :: "name \<Rightarrow> name \<Rightarrow> names_dict"
  get_algorithm_support :: "nat list \<times> nat list"

definition owners :: "nsec_set_info \<Rightarrow> name set" where
  "owners v = fst ` set (rrsets v)"

text \<open>
  Modelled from the spec: \<^verbatim>\<open>NSECSet.project\<close> is a method of \<^verbatim>\<open>dnsviz/response.py\<close>.
  The spec: "\<^verbatim>\<open>project(owners...) -> view\<close> (structural copy restricted to those
  owners)". The arguments may hold \<^verbatim>\<open>None\<close>, which is no owner.
\<close>

definition project :: "nsec_set_info \<Rightarrow> name option list \<Rightarrow> nsec_set_info" where
  "project v names = v\<lparr>rrsets := filter (\<lambda>(n, r). Some n \<in> set names) (rrsets v)\<rparr>"

text \<open>The union of the values of a dictionary of name sets.\<close>

definition dict_values_union :: "('k \<times> 'a list) list \<Rightarrow> 'a list" where
  "dict_values_union d = concat (map snd d)"

text \<open>
  The construction of \<^verbatim>\<open>LastNSECNextNotZone\<close> (lines 408-410, 520-522, 638-640): the
  first NSEC name covering the origin is looked up in \<^verbatim>\<open>rrsets\<close>, and its first record
  is read.
\<close>

definition last_nsec_next_not_zone :: "nsec_set_info \<Rightarrow> names_dict \<Rightarrow> name \<Rightarrow> exn + err" where
  "last_nsec_next_not_zone v covering_origin origin =
     (case covering_origin of
        [] \<Rightarrow> Inl IndexError
      | (qname, nsec_names) # _ \<Rightarrow>
          (case nsec_names of
             [] \<Rightarrow> Inl IndexError
           | n # _ \<Rightarrow>
               (case map_of (rrsets v) n of
                  None \<Rightarrow> Inl KeyError
                | Some r \<Rightarrow>
                    (case nsec_rrset r of
                       [] \<Rightarrow> Inl IndexError
                     | rd # _ \<Rightarrow> Inr (LastNSECNextNotZone (nsec_rrset_name r) (nsec_next rd) origin)))))"

subsection \<open>NSECStatusNXDOMAIN\<close>

text \<open>The attributes set before \<^verbatim>\<open>_set_validation_status\<close> runs.\<close>

record nsec_nx_fields =
  nx_qname :: name
  nx_origin :: name
  nx_warnings :: "err list"
  nx_errors :: "err list"
  nx_wildcard_name :: name
  nx_nsec_names_covering_qname :: names_dict
  nx_nsec_names_covering_wildcard :: names_dict
  nx_nsec_names_covering_origin :: names_dict

record nsec_nx_status = nsec_nx_fields +
  nx_validation_status :: nat
  nx_nsec_set_info :: nsec_set_info

text \<open>
  Lines 371-381: the loop over the ancestors of \<open>qname\<close>. It answers the first covered
  wildcard and its covering names, \<open>None\<close> when the loop reaches the origin,
  \<^verbatim>\<open>NoParent\<close> when it climbs past the root, and \<^verbatim>\<open>NameTooLong\<close> when a wildcard name
  cannot be built.
\<close>

function nx_wildcard_scan ::
  "nsec_set_info \<Rightarrow> name \<Rightarrow> name \<Rightarrow> exn + (name \<times> name list) option" where
  "nx_wildcard_scan v origin wildcard_cover =
     (if wildcard_cover = origin then Inr None
      else (case parent wildcard_cover of
              Inl e \<Rightarrow> Inl e
            | Inr p \<Rightarrow>
                (case from_text_star p of
                   Inl e \<Rightarrow> Inl e
                 | Inr wildcard_name \<Rightarrow>
                     (let covering_names = nsec_covering_name v wildcard_name
                      in if covering_names \<noteq> [] then Inr (Some (wildcard_name, covering_names))
                         else nx_wildcard_scan v origin p))))"
  by pat_completeness auto
termination
  by (relation "measure (\<lambda>(v, origin, wildcard_cover). length wildcard_cover)")
     (auto simp: parent_def split: if_splits)

text \<open>
  Lines 358-387 of \<^verbatim>\<open>NSECStatusNXDOMAIN.__init__\<close>. Line 363 builds the wildcard of the
  origin before anything else is looked up.
\<close>

definition NSECStatusNXDOMAIN_collect ::
  "name \<Rightarrow> name \<Rightarrow> nsec_set_info \<Rightarrow> exn + nsec_nx_fields" where
  "NSECStatusNXDOMAIN_collect qname origin v =
     (case from_text_star origin of
        Inl e \<Rightarrow> Inl e
      | Inr origin_wildcard \<Rightarrow>
          (let covering_qname = nsec_covering_name v qname;
               covering_origin = nsec_covering_name v origin
           in case nx_wildcard_scan v origin qname of
                Inl e \<Rightarrow> Inl e
              | Inr found \<Rightarrow>
                  Inr \<lparr>nx_qname = qname, nx_origin = origin, nx_warnings = [], nx_errors = [],
                       nx_wildcard_name =
                         (case found of None \<Rightarrow> origin_wildcard | Some (w, ns) \<Rightarrow> w),
                       nx_nsec_names_covering_qname =
                         (if covering_qname \<noteq> [] then [(qname, covering_qname)] else []),
                       nx_nsec_names_covering_wildcard =
                         (case found of None \<Rightarrow> [] | Some (w, ns) \<Rightarrow> [(w, ns)]),
                       nx_nsec_names_covering_origin =
                         (if covering_origin \<noteq> [] then [(origin, covering_origin)] else [])\<rparr>))"

text \<open>Lines 412-420, 524-532: the view the status keeps.\<close>

definition nsec_retain :: "nsec_set_info \<Rightarrow> nat \<Rightarrow> name option list \<Rightarrow> nsec_set_info" where
  "nsec_retain v status covering_names =
     (if status = NSEC_STATUS_VALID then project v covering_names
      else project v (map Some (map fst (rrsets v))))"

text \<open>Lines 415-417: the names a valid NXDOMAIN proof keeps.\<close>

definition NSECStatusNXDOMAIN_covering_names :: "'a nsec_nx_fields_scheme \<Rightarrow> name option list" where
  "NSECStatusNXDOMAIN_covering_names f =
     map Some (dict_values_union (nx_nsec_names_covering_qname f)
               @ dict_values_union (nx_nsec_names_covering_wildcard f))"

text \<open>\<^verbatim>\<open>NSECStatusNXDOMAIN._set_validation_status\<close>.\<close>

definition NSECStatusNXDOMAIN_set_validation_status ::
  "nsec_nx_fields \<Rightarrow> nsec_set_info \<Rightarrow> exn + nsec_nx_status" where
  "NSECStatusNXDOMAIN_set_validation_status f v =
     (let (s1, e1) =
            (if nx_nsec_names_covering_qname f = []
             then (NSEC_STATUS_INVALID, nx_errors f @ [SnameNotCoveredNameError (nx_qname f)])
             else (NSEC_STATUS_VALID, nx_errors f));
          (s2, e2) =
            (if nx_nsec_names_covering_wildcard f = []
             then (NSEC_STATUS_INVALID, e1 @ [WildcardNotCoveredNSEC (nx_wildcard_name f)])
             else (s1, e1))
      in case (if nx_nsec_names_covering_origin f \<noteq> []
               then (case last_nsec_next_not_zone v (nx_nsec_names_covering_origin f) (nx_origin f) of
                       Inl e \<Rightarrow> Inl e
                     | Inr er \<Rightarrow> Inr (NSEC_STATUS_INVALID, e2 @ [er]))
               else Inr (s2, e2)) of
           Inl e \<Rightarrow> Inl e
         | Inr (s3, e3) \<Rightarrow>
             Inr (nsec_nx_fields.extend (f\<lparr>nx_errors := e3\<rparr>)
                   (nsec_nx_status.fields s3
                      (nsec_retain v s3 (NSECStatusNXDOMAIN_covering_names f)))))"

text \<open>\<^verbatim>\<open>NSECStatusNXDOMAIN.__init__\<close>; the argument \<open>rdtype\<close> is not used.\<close>

definition NSECStatusNXDOMAIN_init ::
  "name \<Rightarrow> nat \<Rightarrow> name \<Rightarrow> nsec_set_info \<Rightarrow> exn + nsec_nx_status" where
  "NSECStatusNXDOMAIN_init qname rdtype origin v =
     (case NSECStatusNXDOMAIN_collect qname origin v of
        Inl e \<Rightarrow> Inl e
      | Inr f \<Rightarrow> NSECStatusNXDOMAIN_set_validation_status f v)"

subsection \<open>NSECStatusWildcard\<close>

text \<open>\<^verbatim>\<open>_next_closest_encloser\<close>: \<^verbatim>\<open>Name(self.qname.labels[-len(self.wildcard_name):])\<close>.\<close>

definition nsec_next_closest_encloser :: "nsec_nx_fields \<Rightarrow> name" where
  "nsec_next_closest_encloser f = last_labels (length (nx_wildcard_name f)) (nx_qname f)"

text \<open>Lines 527-529: the names a valid wildcard proof keeps.\<close>

definition NSECStatusWildcard_covering_names :: "'a nsec_nx_fields_scheme \<Rightarrow> name option list" where
  "NSECStatusWildcard_covering_names f =
     map Some (dict_values_union (nx_nsec_names_covering_qname f))"

text \<open>\<^verbatim>\<open>NSECStatusWildcard._set_validation_status2\<close>.\<close>

definition NSECStatusWildcard_set_validation_status2 ::
  "nsec_nx_fields \<Rightarrow> nsec_set_info \<Rightarrow> exn + nsec_nx_status" where
  "NSECStatusWildcard_set_validation_status2 f v =
     (let (s1, e1) =
            (if nx_nsec_names_covering_qname f \<noteq> [] then
               (let next_closest_encloser = nsec_next_closest_encloser f
                in if nsec_covering_name v next_closest_encloser = []
                   then (NSEC_STATUS_INVALID,
                         nx_errors f @ [WildcardExpansionInvalid (nx_qname f) (nx_wildcard_name f)
                                          next_closest_encloser])
                   else (NSEC_STATUS_VALID, nx_errors f))
             else (NSEC_STATUS_INVALID, nx_errors f @ [SnameNotCoveredWildcardAnswer (nx_qname f)]))
      in case (if nx_nsec_names_covering_origin f \<noteq> []
               then (case last_nsec_next_not_zone v (nx_nsec_names_covering_origin f) (nx_origin f) of
                       Inl e \<Rightarrow> Inl e
                     | Inr er \<Rightarrow> Inr (NSEC_STATUS_INVALID, e1 @ [er]))
               else Inr (s1, e1)) of
           Inl e \<Rightarrow> Inl e
         | Inr (s2, e2) \<Rightarrow>
             Inr (nsec_nx_fields.extend (f\<lparr>nx_errors := e2\<rparr>)
                   (nsec_nx_status.fields s2
                      (nsec_retain v s2 (NSECStatusWildcard_covering_names f)))))"

text \<open>
  \<^verbatim>\<open>NSECStatusWildcard.__init__\<close>: the constructor of the base class runs with
  \<^verbatim>\<open>_set_validation_status\<close> overridden to do nothing, then the wildcard attributes
  are replaced and \<^verbatim>\<open>_set_validation_status2\<close> runs.
\<close>

definition NSECStatusWildcard_init ::
  "name \<Rightarrow> name \<Rightarrow> nat \<Rightarrow> name \<Rightarrow> nsec_set_info \<Rightarrow> exn + nsec_nx_status" where
  "NSECStatusWildcard_init qname wildcard_name rdtype origin v =
     (case NSECStatusNXDOMAIN_collect qname origin v of
        Inl e \<Rightarrow> Inl e
      | Inr f \<Rightarrow>
          NSECStatusWildcard_set_validation_status2
            (f\<lparr>nx_wildcard_name := wildcard_name, nx_nsec_names_covering_wildcard := []\<rparr>) v)"

subsection \<open>NSECStatusNoAnswer\<close>

record nsec_na_fields =
  na_qname :: name
  na_rdtype :: nat
  na_origin :: name
  na_referral :: bool
  na_warnings :: "err list"
  na_errors :: "err list"
  na_wildcard_name :: name
  na_nsec_for_qname :: "nsec_rrset_info option"
  na_has_rdtype :: bool
  na_has_ns :: bool
  na_has_ds :: bool
  na_has_soa :: bool
  na_nsec_names_covering_qname :: names_dict
  na_nsec_for_wildcard_name :: "nsec_rrset_info option"
  na_wildcard_has_rdtype :: "bool option"
  na_nsec_names_covering_origin :: names_dict

record nsec_na_status = nsec_na_fields +
  na_validation_status :: nat
  na_nsec_set_info :: nsec_set_info

text \<open>
  Lines 567-571: the search for an NSEC whose next name lies strictly below \<open>qname\<close>
  (an empty non-terminal). \<^verbatim>\<open>rrset[0]\<close> raises \<^verbatim>\<open>IndexError\<close> on an empty RRset.
\<close>

fun na_ancestor_scan :: "name \<Rightarrow> (name \<times> nsec_rrset_info) list \<Rightarrow> exn + nsec_rrset_info option" where
  "na_ancestor_scan qname [] = Inr None"
| "na_ancestor_scan qname ((nsec_name, r) # rest) =
     (case nsec_rrset r of
        [] \<Rightarrow> Inl IndexError
      | rd # _ \<Rightarrow>
          if is_subdomain (nsec_next rd) qname \<and> nsec_next rd \<noteq> qname then Inr (Some r)
          else na_ancestor_scan qname rest)"

text \<open>
  Lines 580-591: the loop over the ancestors of \<open>qname\<close>; it has no \<^verbatim>\<open>break\<close>, so the
  last wildcard that owns an NSEC wins. The accumulator is
  (\<open>nsec_for_wildcard_name\<close>, \<open>wildcard_has_rdtype\<close>, \<open>wildcard_name\<close>). Line 584 raises
  \<^verbatim>\<open>NoParent\<close> or \<^verbatim>\<open>NameTooLong\<close> as line 375 does.
\<close>

function na_wildcard_scan ::
  "nsec_set_info \<Rightarrow> nat \<Rightarrow> name \<Rightarrow> name \<Rightarrow> nsec_rrset_info option \<times> bool option \<times> name \<Rightarrow>
   exn + (nsec_rrset_info option \<times> bool option \<times> name)" where
  "na_wildcard_scan v rdtype origin wildcard_cover acc =
     (if wildcard_cover = origin then Inr acc
      else (case parent wildcard_cover of
              Inl e \<Rightarrow> Inl e
            | Inr p \<Rightarrow>
                (case from_text_star p of
                   Inl e \<Rightarrow> Inl e
                 | Inr wildcard_name \<Rightarrow>
                     na_wildcard_scan v rdtype origin p
                       (case map_of (rrsets v) wildcard_name of
                          None \<Rightarrow> acc
                        | Some r \<Rightarrow>
                            (Some r, Some (rdtype_exists_in_bitmap v wildcard_name rdtype),
                             wildcard_name)))))"
  by pat_completeness auto
termination
  by (relation "measure (\<lambda>(v, rdtype, origin, wildcard_cover, acc). length wildcard_cover)")
     (auto simp: parent_def split: if_splits)

text \<open>
  Lines 544-597 of \<^verbatim>\<open>NSECStatusNoAnswer.__init__\<close>. Line 550 builds the wildcard of the
  origin before anything else is looked up.
\<close>

definition NSECStatusNoAnswer_collect ::
  "name \<Rightarrow> nat \<Rightarrow> name \<Rightarrow> nsec_set_info \<Rightarrow> exn + nsec_na_fields" where
  "NSECStatusNoAnswer_collect qname rdtype origin v =
     (case from_text_star origin of
        Inl e \<Rightarrow> Inl e
      | Inr origin_wildcard \<Rightarrow>
          (case (case map_of (rrsets v) qname of
                   Some r \<Rightarrow>
                     Inr (Some r, rdtype_exists_in_bitmap v qname rdtype,
                          rdtype_exists_in_bitmap v qname rdatatype_NS,
                          rdtype_exists_in_bitmap v qname rdatatype_DS,
                          rdtype_exists_in_bitmap v qname rdatatype_SOA)
                 | None \<Rightarrow>
                     (case na_ancestor_scan qname (rrsets v) of
                        Inl e \<Rightarrow> Inl e
                      | Inr found \<Rightarrow> Inr (found, False, False, False, False))) of
             Inl e \<Rightarrow> Inl e
           | Inr (for_qname, has_rdtype, has_ns, has_ds, has_soa) \<Rightarrow>
               (let covering_qname = nsec_covering_name v qname;
                    covering_origin = nsec_covering_name v origin
                in case na_wildcard_scan v rdtype origin qname (None, None, origin_wildcard) of
                     Inl e \<Rightarrow> Inl e
                   | Inr (for_wildcard, wildcard_has_rdtype, wildcard_name) \<Rightarrow>
                       Inr \<lparr>na_qname = qname, na_rdtype = rdtype, na_origin = origin,
                            na_referral = referral v, na_warnings = [], na_errors = [],
                            na_wildcard_name = wildcard_name,
                            na_nsec_for_qname = for_qname,
                            na_has_rdtype = has_rdtype, na_has_ns = has_ns, na_has_ds = has_ds,
                            na_has_soa = has_soa,
                            na_nsec_names_covering_qname =
                              (if covering_qname \<noteq> [] then [(qname, covering_qname)] else []),
                            na_nsec_for_wildcard_name = for_wildcard,
                            na_wildcard_has_rdtype = wildcard_has_rdtype,
                            na_nsec_names_covering_origin =
                              (if covering_origin \<noteq> [] then [(origin, covering_origin)]
                               else [])\<rparr>)))"

text \<open>
  An error appended together with \<^verbatim>\<open>self.validation_status = NSEC_STATUS_INVALID\<close>,
  when the condition holds; the pair is (status, errors).
\<close>

definition invalid_when :: "bool \<Rightarrow> err \<Rightarrow> nat \<times> err list \<Rightarrow> nat \<times> err list" where
  "invalid_when c e se = (if c then (NSEC_STATUS_INVALID, snd se @ [e]) else se)"

text \<open>Lines 612-643 of \<^verbatim>\<open>NSECStatusNoAnswer._set_validation_status\<close>.\<close>

definition NSECStatusNoAnswer_verdict ::
  "nsec_na_fields \<Rightarrow> nsec_set_info \<Rightarrow> exn + (nat \<times> err list)" where
  "NSECStatusNoAnswer_verdict f v =
     (let se0 = (NSEC_STATUS_VALID, na_errors f) in
      if na_nsec_for_qname f \<noteq> None then
        (if na_rdtype f = rdatatype_DS \<or> na_referral f then
           Inr (invalid_when (na_has_soa f) (ReferralWithSOABitNSEC (na_qname f))
                 (invalid_when (na_has_ds f) (ReferralWithDSBitNSEC (na_qname f))
                   (invalid_when (\<not> na_has_ns f) (ReferralWithoutNSBitNSEC (na_qname f)) se0)))
         else
           Inr (invalid_when (na_has_rdtype f)
                  (StypeInBitmapNoDataNSEC (na_qname f) (na_rdtype f)) se0))
      else if na_nsec_for_wildcard_name f \<noteq> None then
        (let se2 = invalid_when (na_wildcard_has_rdtype f = Some True)
                     (StypeInBitmapNoDataNSEC (na_wildcard_name f) (na_rdtype f))
                     (invalid_when (na_nsec_names_covering_qname f = [])
                        (SnameNotCoveredWildcardNoData (na_qname f)) se0)
         in if na_nsec_names_covering_origin f \<noteq> []
            then (case last_nsec_next_not_zone v (na_nsec_names_covering_origin f) (na_origin f) of
                    Inl e \<Rightarrow> Inl e
                  | Inr er \<Rightarrow> Inr (NSEC_STATUS_INVALID, snd se2 @ [er]))
            else Inr se2)
      else Inr (NSEC_STATUS_INVALID, na_errors f @ [NoNSECMatchingSnameNoData (na_qname f)]))"

text \<open>Lines 647-656: the names a valid NODATA proof keeps.\<close>

definition NSECStatusNoAnswer_covering_names :: "'a nsec_na_fields_scheme \<Rightarrow> name option list" where
  "NSECStatusNoAnswer_covering_names f =
     map Some
       ((case na_nsec_for_qname f of
           Some r \<Rightarrow> [nsec_rrset_name r]
         | None \<Rightarrow> dict_values_union (na_nsec_names_covering_qname f))
        @ (case na_nsec_for_wildcard_name f of
             Some r \<Rightarrow> [na_wildcard_name f]
           | None \<Rightarrow> []))"

text \<open>\<^verbatim>\<open>NSECStatusNoAnswer._set_validation_status\<close>.\<close>

definition NSECStatusNoAnswer_set_validation_status ::
  "nsec_na_fields \<Rightarrow> nsec_set_info \<Rightarrow> exn + nsec_na_status" where
  "NSECStatusNoAnswer_set_validation_status f v =
     (case NSECStatusNoAnswer_verdict f v of
        Inl e \<Rightarrow> Inl e
      | Inr (s, es) \<Rightarrow>
          Inr (nsec_na_fields.extend (f\<lparr>na_errors := es\<rparr>)
                (nsec_na_status.fields s
                   (nsec_retain v s (NSECStatusNoAnswer_covering_names f)))))"

definition NSECStatusNoAnswer_init ::
  "name \<Rightarrow> nat \<Rightarrow> name \<Rightarrow> nsec_set_info \<Rightarrow> exn + nsec_na_status" where
  "NSECStatusNoAnswer_init qname rdtype origin v =
     (case NSECStatusNoAnswer_collect qname rdtype origin v of
        Inl e \<Rightarrow> Inl e
      | Inr f \<Rightarrow> NSECStatusNoAnswer_set_validation_status f v)"

subsection \<open>NSEC3StatusNXDOMAIN\<close>

text \<open>
  \<^verbatim>\<open>name_digest_map\<close>: a dictionary of dictionaries, from a name and NSEC3 parameters
  (salt, algorithm, iterations) to the hashed name, \<^verbatim>\<open>None\<close> when the hash could not be
  computed. \<^verbatim>\<open>NSEC3StatusWildcard\<close> also stores an entry under the key \<^verbatim>\<open>None\<close>.
\<close>

type_synonym digest_map = "(name \<times> (nsec3param option \<times> name option) list) list"

text \<open>
  \<^verbatim>\<open>if n not in self.name_digest_map: self.name_digest_map[n] = {}\<close> followed by
  \<^verbatim>\<open>self.name_digest_map[n][k] = d\<close>.
\<close>

definition digest_map_set ::
  "digest_map \<Rightarrow> name \<Rightarrow> nsec3param option \<Rightarrow> name option \<Rightarrow> digest_map" where
  "digest_map_set m n k d =
     AList.update n (AList.update k d (case map_of m n of None \<Rightarrow> [] | Some inner \<Rightarrow> inner)) m"

definition digest_for :: "nsec_set_info \<Rightarrow> name \<Rightarrow> name \<Rightarrow> nsec3param \<Rightarrow> name option" where
  "digest_for v n origin p =
     (case p of (salt, alg, iterations) \<Rightarrow> get_digest_name_for_nsec3 v n origin salt alg iterations)"

definition covering_for :: "nsec_set_info \<Rightarrow> name \<Rightarrow> nsec3param \<Rightarrow> name list" where
  "covering_for v d p =
     (case p of (salt, alg, iterations) \<Rightarrow> nsec3_covering_name v d salt alg iterations)"

text \<open>
  \<^verbatim>\<open>wildcard_name\<close> is an attribute of \<^verbatim>\<open>NSEC3StatusWildcard\<close> only; the values of
  \<^verbatim>\<open>closest_encloser\<close> are sets of NSEC3 names, or \<^verbatim>\<open>set([None])\<close> when the encloser
  is inferred from the wildcard.
\<close>

record nsec3_nx_fields =
  n3_qname :: name
  n3_origin :: name
  n3_wildcard_name :: "name option"
  n3_warnings :: "err list"
  n3_errors :: "err list"
  n3_name_digest_map :: digest_map
  n3_closest_encloser :: "(name \<times> name option list) list"
  n3_nsec_names_covering_qname :: names_dict
  n3_nsec_names_covering_wildcard :: names_dict

record nsec3_nx_status = nsec3_nx_fields +
  n3_validation_status :: nat
  n3_nsec_set_info :: nsec_set_info

text \<open>Lines 737-741 (and 1032-1035): the digests of \<open>qname\<close>.\<close>

definition nsec3_qname_digests ::
  "nsec_set_info \<Rightarrow> name \<Rightarrow> name \<Rightarrow> digest_map \<Rightarrow> digest_map" where
  "nsec3_qname_digests v qname origin m =
     fold (\<lambda>(p, nsec3_names) m. digest_map_set m qname (Some p) (digest_for v qname origin p))
       (nsec3_params v) m"

text \<open>
  \<^verbatim>\<open>covering_names = nsec3_covering_name(digest_name, ...)\<close> and, when there are any,
  \<^verbatim>\<open>d[digest_name] = covering_names\<close>, under \<^verbatim>\<open>if digest_name is not None\<close>.
\<close>

definition record_covering ::
  "nsec_set_info \<Rightarrow> name option \<Rightarrow> nsec3param \<Rightarrow> names_dict \<Rightarrow> names_dict" where
  "record_covering v digest_name p d =
     (case digest_name of
        None \<Rightarrow> d
      | Some dn \<Rightarrow>
          (let covering_names = covering_for v dn p
           in if covering_names \<noteq> [] then AList.update dn covering_names d else d))"

text \<open>\<^verbatim>\<open>_get_next_closest_encloser\<close>.\<close>

definition nsec3_next_closest_encloser :: "name \<Rightarrow> name \<Rightarrow> name" where
  "nsec3_next_closest_encloser qname encloser = last_labels (length encloser + 1) qname"

text \<open>
  \<^verbatim>\<open>_get_wildcard\<close> (lines 794 and 1094): \<^verbatim>\<open>dns.name.from_text('*', encloser)\<close>. An
  encloser is a proper ancestor of a name: the view answers "the longest ancestor of
  \<^verbatim>\<open>qname\<close> (up to but not equal to \<^verbatim>\<open>qname\<close>) whose hashed label equals some NSEC3
  owner", and line 946 takes the parent of the wildcard name. So the wildcard label
  stands where that name has a label of at least one octet, the wildcard has no more
  octets than that name, and the length check of the constructor passes.
\<close>

definition nsec3_get_wildcard :: "name \<Rightarrow> name" where
  "nsec3_get_wildcard encloser = ''*'' # encloser"

text \<open>
  Lines 746-770: the body of the inner loop, for one encloser and one parameter group.
  The state is (\<open>name_digest_map\<close>, \<open>nsec_names_covering_qname\<close>,
  \<open>nsec_names_covering_wildcard\<close>).
\<close>

definition nsec3_nx_step ::
  "nsec_set_info \<Rightarrow> name \<Rightarrow> name \<Rightarrow> name \<Rightarrow> nsec3param \<Rightarrow>
   digest_map \<times> names_dict \<times> names_dict \<Rightarrow> digest_map \<times> names_dict \<times> names_dict" where
  "nsec3_nx_step v qname origin encloser p st =
     (case st of (m, cq, cw) \<Rightarrow>
        (let next_closest_encloser = nsec3_next_closest_encloser qname encloser;
             digest_name =
               (case map_of m next_closest_encloser of
                  None \<Rightarrow> digest_for v next_closest_encloser origin p
                | Some inner \<Rightarrow>
                    (case map_of inner (Some p) of
                       None \<Rightarrow> digest_for v next_closest_encloser origin p
                     | Some d \<Rightarrow> d));
             cq' = record_covering v digest_name p cq;
             m1 = digest_map_set m next_closest_encloser (Some p) digest_name;
             wildcard_name = nsec3_get_wildcard encloser;
             wildcard_digest = digest_for v wildcard_name origin p;
             cw' = record_covering v wildcard_digest p cw;
             m2 = digest_map_set m1 wildcard_name (Some p) wildcard_digest
         in (m2, cq', cw')))"

text \<open>Lines 743-770: the loops over the enclosers and the parameter groups.\<close>

definition nsec3_nx_loops ::
  "nsec_set_info \<Rightarrow> name \<Rightarrow> name \<Rightarrow> (name \<times> name option list) list \<Rightarrow>
   digest_map \<times> names_dict \<times> names_dict \<Rightarrow> digest_map \<times> names_dict \<times> names_dict" where
  "nsec3_nx_loops v qname origin closest_encloser st =
     fold (\<lambda>(encloser, names) st.
             fold (\<lambda>(p, nsec3_names) st. nsec3_nx_step v qname origin encloser p st)
               (nsec3_params v) st)
       closest_encloser st"

text \<open>
  Lines 725-770 of \<^verbatim>\<open>NSEC3StatusNXDOMAIN.__init__\<close>, after \<^verbatim>\<open>_set_closest_encloser\<close> has
  produced the closest enclosers and the first entries of \<^verbatim>\<open>name_digest_map\<close>.
\<close>

definition NSEC3StatusNXDOMAIN_collect ::
  "name \<Rightarrow> name option \<Rightarrow> name \<Rightarrow> nsec_set_info \<Rightarrow> (name \<times> name option list) list \<Rightarrow>
   digest_map \<Rightarrow> nsec3_nx_fields" where
  "NSEC3StatusNXDOMAIN_collect qname wildcard_name origin v closest_encloser m0 =
     (case nsec3_nx_loops v qname origin closest_encloser
             (nsec3_qname_digests v qname origin m0, [], []) of
        (m, cq, cw) \<Rightarrow>
          \<lparr>n3_qname = qname, n3_origin = origin, n3_wildcard_name = wildcard_name,
           n3_warnings = [], n3_errors = [], n3_name_digest_map = m,
           n3_closest_encloser = closest_encloser,
           n3_nsec_names_covering_qname = cq, n3_nsec_names_covering_wildcard = cw\<rparr>)"

text \<open>\<^verbatim>\<open>get_next_closest_encloser\<close> and \<^verbatim>\<open>get_wildcard\<close>: \<^verbatim>\<open>None\<close> without an encloser.\<close>

definition get_next_closest_encloser :: "name \<Rightarrow> (name \<times> 'b) list \<Rightarrow> name option" where
  "get_next_closest_encloser qname closest_encloser =
     (case closest_encloser of
        [] \<Rightarrow> None
      | (encloser_name, nsec_names) # _ \<Rightarrow>
          Some (nsec3_next_closest_encloser qname encloser_name))"

definition get_wildcard :: "(name \<times> 'b) list \<Rightarrow> name option" where
  "get_wildcard closest_encloser =
     (case closest_encloser of
        [] \<Rightarrow> None
      | (encloser_name, nsec_names) # _ \<Rightarrow> Some (nsec3_get_wildcard encloser_name))"

text \<open>
  \<^verbatim>\<open>if invalid_algs: self.errors.append(invalid_alg_err)\<close>, where \<^verbatim>\<open>invalid_alg_err\<close> is
  \<^verbatim>\<open>UnsupportedNSEC3Algorithm(algorithm=list(invalid_algs)[0])\<close>; and the variant under
  \<^verbatim>\<open>invalid_alg_err not in self.errors\<close>.
\<close>

definition append_invalid_alg :: "nat list \<Rightarrow> err list \<Rightarrow> err list" where
  "append_invalid_alg invalid_algs es =
     (case invalid_algs of [] \<Rightarrow> es | a # _ \<Rightarrow> es @ [UnsupportedNSEC3Algorithm a])"

definition append_invalid_alg_once :: "nat list \<Rightarrow> err list \<Rightarrow> err list" where
  "append_invalid_alg_once invalid_algs es =
     (case invalid_algs of
        [] \<Rightarrow> es
      | a # _ \<Rightarrow> if UnsupportedNSEC3Algorithm a \<in> set es then es
                 else es @ [UnsupportedNSEC3Algorithm a])"

text \<open>
  Lines 806-832 of \<^verbatim>\<open>NSEC3StatusNXDOMAIN._set_validation_status\<close>.
  \<^verbatim>\<open>next_closest_encloser.canonicalize()\<close> raises \<^verbatim>\<open>AttributeError\<close> on \<^verbatim>\<open>None\<close>.
\<close>

definition NSEC3StatusNXDOMAIN_verdict ::
  "nsec3_nx_fields \<Rightarrow> nsec_set_info \<Rightarrow> exn + (nat \<times> err list)" where
  "NSEC3StatusNXDOMAIN_verdict f v =
     (case get_algorithm_support v of (valid_algs, invalid_algs) \<Rightarrow>
        if n3_closest_encloser f = [] then
          Inr (NSEC_STATUS_INVALID,
               append_invalid_alg invalid_algs
                 (if valid_algs \<noteq> [] then n3_errors f @ [NoClosestEncloserNameError (n3_qname f)]
                  else n3_errors f))
        else
          (case (if n3_nsec_names_covering_qname f = [] then
                   (case (if valid_algs \<noteq> [] then
                            (case get_next_closest_encloser (n3_qname f) (n3_closest_encloser f) of
                               None \<Rightarrow> Inl AttributeError
                             | Some nce \<Rightarrow>
                                 Inr (n3_errors f @ [NextClosestEncloserNotCoveredNameError nce]))
                          else Inr (n3_errors f)) of
                      Inl e \<Rightarrow> Inl e
                    | Inr es \<Rightarrow> Inr (NSEC_STATUS_INVALID, append_invalid_alg invalid_algs es))
                 else Inr (NSEC_STATUS_VALID, n3_errors f)) of
             Inl e \<Rightarrow> Inl e
           | Inr (s1, e1) \<Rightarrow>
               if n3_nsec_names_covering_wildcard f = [] then
                 Inr (NSEC_STATUS_INVALID,
                      append_invalid_alg_once invalid_algs
                        (if valid_algs \<noteq> []
                         then e1 @ [WildcardNotCoveredNSEC3 (get_wildcard (n3_closest_encloser f))]
                         else e1))
               else Inr (s1, e1)))"

text \<open>Lines 837-839: the names a valid NXDOMAIN proof keeps.\<close>

definition NSEC3StatusNXDOMAIN_covering_names :: "'a nsec3_nx_fields_scheme \<Rightarrow> name option list" where
  "NSEC3StatusNXDOMAIN_covering_names f =
     dict_values_union (n3_closest_encloser f)
     @ map Some (dict_values_union (n3_nsec_names_covering_qname f)
                 @ dict_values_union (n3_nsec_names_covering_wildcard f))"

text \<open>\<^verbatim>\<open>NSEC3StatusNXDOMAIN._set_validation_status\<close>, with lines 836-842.\<close>

definition NSEC3StatusNXDOMAIN_set_validation_status ::
  "nsec3_nx_fields \<Rightarrow> nsec_set_info \<Rightarrow> exn + nsec3_nx_status" where
  "NSEC3StatusNXDOMAIN_set_validation_status f v =
     (case NSEC3StatusNXDOMAIN_verdict f v of
        Inl e \<Rightarrow> Inl e
      | Inr (s, es) \<Rightarrow>
          Inr (nsec3_nx_fields.extend (f\<lparr>n3_errors := es\<rparr>)
                (nsec3_nx_status.fields s
                   (nsec_retain v s (NSEC3StatusNXDOMAIN_covering_names f)))))"

text \<open>\<^verbatim>\<open>NSEC3StatusNXDOMAIN._set_closest_encloser\<close>.\<close>

definition NSEC3StatusNXDOMAIN_set_closest_encloser ::
  "nsec_set_info \<Rightarrow> name \<Rightarrow> name \<Rightarrow> (name \<times> name option list) list" where
  "NSEC3StatusNXDOMAIN_set_closest_encloser v qname origin =
     map (\<lambda>(encloser, nsec_names). (encloser, map Some nsec_names))
       (get_closest_encloser v qname origin)"

text \<open>\<^verbatim>\<open>NSEC3StatusNXDOMAIN.__init__\<close>; the argument \<open>rdtype\<close> is not used.\<close>

definition NSEC3StatusNXDOMAIN_init ::
  "name \<Rightarrow> nat \<Rightarrow> name \<Rightarrow> nsec_set_info \<Rightarrow> exn + nsec3_nx_status" where
  "NSEC3StatusNXDOMAIN_init qname rdtype origin v =
     NSEC3StatusNXDOMAIN_set_validation_status
       (NSEC3StatusNXDOMAIN_collect qname None origin v
          (NSEC3StatusNXDOMAIN_set_closest_encloser v qname origin) [])
       v"

subsection \<open>NSEC3StatusWildcard\<close>

text \<open>
  \<^verbatim>\<open>NSEC3StatusWildcard._set_closest_encloser\<close>: without a closest encloser, the parent
  of the wildcard stands in, with a dummy entry in \<^verbatim>\<open>name_digest_map\<close>.
\<close>

definition NSEC3StatusWildcard_set_closest_encloser ::
  "nsec_set_info \<Rightarrow> name \<Rightarrow> name \<Rightarrow> name \<Rightarrow>
   exn + ((name \<times> name option list) list \<times> digest_map)" where
  "NSEC3StatusWildcard_set_closest_encloser v qname wildcard_name origin =
     (let ce = NSEC3StatusNXDOMAIN_set_closest_encloser v qname origin
      in if ce = [] then
           (case parent wildcard_name of
              Inl e \<Rightarrow> Inl e
            | Inr p \<Rightarrow> Inr ([(p, [None])], [(wildcard_name, [(None, Some wildcard_name)])]))
         else Inr (ce, []))"

text \<open>Lines 958-975 of \<^verbatim>\<open>NSEC3StatusWildcard._set_validation_status\<close>.\<close>

definition NSEC3StatusWildcard_verdict ::
  "nsec3_nx_fields \<Rightarrow> nsec_set_info \<Rightarrow> exn + (nat \<times> err list)" where
  "NSEC3StatusWildcard_verdict f v =
     (case (if n3_nsec_names_covering_qname f = [] then
              (case get_algorithm_support v of (valid_algs, invalid_algs) \<Rightarrow>
                 (case (if valid_algs \<noteq> [] then
                          (case get_next_closest_encloser (n3_qname f) (n3_closest_encloser f) of
                             None \<Rightarrow> Inl AttributeError
                           | Some nce \<Rightarrow>
                               Inr (n3_errors f @ [NextClosestEncloserNotCoveredWildcardAnswer nce]))
                        else Inr (n3_errors f)) of
                    Inl e \<Rightarrow> Inl e
                  | Inr es \<Rightarrow> Inr (NSEC_STATUS_INVALID, append_invalid_alg invalid_algs es)))
            else Inr (NSEC_STATUS_VALID, n3_errors f)) of
        Inl e \<Rightarrow> Inl e
      | Inr (s1, e1) \<Rightarrow>
          if n3_nsec_names_covering_wildcard f \<noteq> [] then
            (case get_next_closest_encloser (n3_qname f) (n3_closest_encloser f) of
               None \<Rightarrow> Inl AttributeError
             | Some nce \<Rightarrow> Inr (NSEC_STATUS_INVALID, e1 @ [WildcardCoveredAnswerNSEC3 nce]))
          else Inr (s1, e1))"

text \<open>
  Lines 980-983: the names a valid wildcard proof keeps; \<^verbatim>\<open>None\<close> is filtered out of the
  names to project.
\<close>

definition NSEC3StatusWildcard_covering_names :: "'a nsec3_nx_fields_scheme \<Rightarrow> name option list" where
  "NSEC3StatusWildcard_covering_names f =
     filter (\<lambda>x. x \<noteq> None)
       (dict_values_union (n3_closest_encloser f)
        @ map Some (dict_values_union (n3_nsec_names_covering_qname f)))"

text \<open>\<^verbatim>\<open>NSEC3StatusWildcard._set_validation_status\<close>, with lines 979-985.\<close>

definition NSEC3StatusWildcard_set_validation_status ::
  "nsec3_nx_fields \<Rightarrow> nsec_set_info \<Rightarrow> exn + nsec3_nx_status" where
  "NSEC3StatusWildcard_set_validation_status f v =
     (case NSEC3StatusWildcard_verdict f v of
        Inl e \<Rightarrow> Inl e
      | Inr (s, es) \<Rightarrow>
          Inr (nsec3_nx_fields.extend (f\<lparr>n3_errors := es\<rparr>)
                (nsec3_nx_status.fields s
                   (nsec_retain v s (NSEC3StatusWildcard_covering_names f)))))"

definition NSEC3StatusWildcard_init ::
  "name \<Rightarrow> name \<Rightarrow> nat \<Rightarrow> name \<Rightarrow> nsec_set_info \<Rightarrow> exn + nsec3_nx_status" where
  "NSEC3StatusWildcard_init qname wildcard_name rdtype origin v =
     (case NSEC3StatusWildcard_set_closest_encloser v qname wildcard_name origin of
        Inl e \<Rightarrow> Inl e
      | Inr (ce, m0) \<Rightarrow>
          NSEC3StatusWildcard_set_validation_status
            (NSEC3StatusNXDOMAIN_collect qname (Some wildcard_name) origin v ce m0) v)"

subsection \<open>NSEC3StatusNoAnswer\<close>

text \<open>
  The attributes of the object. \<^verbatim>\<open>wildcard_name\<close> is set to \<^verbatim>\<open>None\<close> in line 1010 and
  never assigned again; \<^verbatim>\<open>nsec_for_qname\<close> and \<^verbatim>\<open>nsec_for_wildcard_name\<close> are sets of
  hashed names.
\<close>

record nsec3_na_fields =
  n3a_qname :: name
  n3a_rdtype :: nat
  n3a_origin :: name
  n3a_referral :: bool
  n3a_wildcard_name :: "name option"
  n3a_warnings :: "err list"
  n3a_errors :: "err list"
  n3a_name_digest_map :: digest_map
  n3a_closest_encloser :: names_dict
  n3a_nsec_names_covering_qname :: names_dict
  n3a_nsec_names_covering_wildcard :: names_dict
  n3a_nsec_for_qname :: "name list"
  n3a_nsec_for_wildcard_name :: "name list"
  n3a_has_rdtype :: bool
  n3a_has_cname :: bool
  n3a_has_ns :: bool
  n3a_has_ds :: bool
  n3a_has_soa :: bool
  n3a_opt_out :: bool
  n3a_wildcard_has_rdtype :: bool
  n3a_wildcard_has_cname :: bool

record nsec3_na_status = nsec3_na_fields +
  n3a_validation_status :: nat
  n3a_nsec_set_info :: nsec_set_info

text \<open>\<^verbatim>\<open>s.add(x)\<close> on a set kept as a list.\<close>

definition set_add :: "'a \<Rightarrow> 'a list \<Rightarrow> 'a list" where
  "set_add x xs = (if x \<in> set xs then xs else xs @ [x])"

text \<open>Lines 1038-1047: one encloser of the first loop, for the parameter group \<open>p\<close>.\<close>

definition n3a_wildcard_step ::
  "nsec_set_info \<Rightarrow> nsec3param \<Rightarrow> name list \<Rightarrow> name \<Rightarrow> nsec3_na_fields \<Rightarrow> nsec3_na_fields" where
  "n3a_wildcard_step v p nsec3_names encloser f =
     (let wildcard_name = nsec3_get_wildcard encloser;
          digest_name = digest_for v wildcard_name (n3a_origin f) p;
          f1 = (case digest_name of
                  None \<Rightarrow> f
                | Some dn \<Rightarrow>
                    if dn \<in> set nsec3_names then
                      f\<lparr>n3a_nsec_for_wildcard_name := set_add dn (n3a_nsec_for_wildcard_name f),
                        n3a_wildcard_has_rdtype :=
                          (if rdtype_exists_in_bitmap v dn (n3a_rdtype f) then True
                           else n3a_wildcard_has_rdtype f),
                        n3a_wildcard_has_cname :=
                          (if rdtype_exists_in_bitmap v dn rdatatype_CNAME then True
                           else n3a_wildcard_has_cname f)\<rparr>
                    else f)
      in f1\<lparr>n3a_name_digest_map :=
              digest_map_set (n3a_name_digest_map f1) wildcard_name (Some p) digest_name\<rparr>)"

text \<open>Lines 1031-1047: the first loop over the parameter groups.\<close>

definition n3a_loop1 :: "nsec_set_info \<Rightarrow> nsec3_na_fields \<Rightarrow> nsec3_na_fields" where
  "n3a_loop1 v f0 =
     fold (\<lambda>(p, nsec3_names) f.
             fold (\<lambda>(encloser, names) f. n3a_wildcard_step v p nsec3_names encloser f)
               (n3a_closest_encloser f)
               (f\<lparr>n3a_name_digest_map :=
                    digest_map_set (n3a_name_digest_map f) (n3a_qname f) (Some p)
                      (digest_for v (n3a_qname f) (n3a_origin f) p)\<rparr>))
       (nsec3_params v) f0"

text \<open>Lines 1052-1057: an NSEC3 record matches the hash of \<open>qname\<close>.\<close>

definition n3a_match_qname :: "nsec_set_info \<Rightarrow> name \<Rightarrow> nsec3_na_fields \<Rightarrow> nsec3_na_fields" where
  "n3a_match_qname v dn f =
     f\<lparr>n3a_nsec_for_qname := set_add dn (n3a_nsec_for_qname f),
       n3a_has_rdtype :=
         (if rdtype_exists_in_bitmap v dn (n3a_rdtype f) then True else n3a_has_rdtype f),
       n3a_has_cname :=
         (if rdtype_exists_in_bitmap v dn rdatatype_CNAME then True else n3a_has_cname f),
       n3a_has_ns :=
         (if rdtype_exists_in_bitmap v dn rdatatype_NS then True else n3a_has_ns f),
       n3a_has_ds :=
         (if rdtype_exists_in_bitmap v dn rdatatype_DS then True else n3a_has_ds f),
       n3a_has_soa :=
         (if rdtype_exists_in_bitmap v dn rdatatype_SOA then True else n3a_has_soa f)\<rparr>"

text \<open>Lines 1061-1070: one encloser of the second loop, for the parameter group \<open>p\<close>.\<close>

definition n3a_cover_step ::
  "nsec_set_info \<Rightarrow> nsec3param \<Rightarrow> name \<Rightarrow> nsec3_na_fields \<Rightarrow> nsec3_na_fields" where
  "n3a_cover_step v p encloser f =
     (let next_closest_encloser = nsec3_next_closest_encloser (n3a_qname f) encloser;
          digest_name = digest_for v next_closest_encloser (n3a_origin f) p
      in f\<lparr>n3a_name_digest_map :=
             digest_map_set (n3a_name_digest_map f) next_closest_encloser (Some p) digest_name,
           n3a_nsec_names_covering_qname :=
             record_covering v digest_name p (n3a_nsec_names_covering_qname f)\<rparr>)"

text \<open>
  Lines 1049-1070: the second loop over the parameter groups.
  \<^verbatim>\<open>self.name_digest_map[self.qname][(salt, alg, iterations)]\<close> raises \<^verbatim>\<open>KeyError\<close> on a
  missing key.
\<close>

fun n3a_loop2 ::
  "nsec_set_info \<Rightarrow> (nsec3param \<times> name list) list \<Rightarrow> nsec3_na_fields \<Rightarrow> exn + nsec3_na_fields" where
  "n3a_loop2 v [] f = Inr f"
| "n3a_loop2 v ((p, nsec3_names) # rest) f =
     (case map_of (n3a_name_digest_map f) (n3a_qname f) of
        None \<Rightarrow> Inl KeyError
      | Some inner \<Rightarrow>
          (case map_of inner (Some p) of
             None \<Rightarrow> Inl KeyError
           | Some digest_name \<Rightarrow>
               n3a_loop2 v rest
                 (if (case digest_name of None \<Rightarrow> False | Some dn \<Rightarrow> dn \<in> set nsec3_names)
                  then (case digest_name of None \<Rightarrow> f | Some dn \<Rightarrow> n3a_match_qname v dn f)
                  else fold (\<lambda>(encloser, names) f. n3a_cover_step v p encloser f)
                         (n3a_closest_encloser f) f)))"

text \<open>Lines 1006-1070 of \<^verbatim>\<open>NSEC3StatusNoAnswer.__init__\<close>.\<close>

definition NSEC3StatusNoAnswer_collect ::
  "name \<Rightarrow> nat \<Rightarrow> name \<Rightarrow> nsec_set_info \<Rightarrow> exn + nsec3_na_fields" where
  "NSEC3StatusNoAnswer_collect qname rdtype origin v =
     n3a_loop2 v (nsec3_params v)
       (n3a_loop1 v
          \<lparr>n3a_qname = qname, n3a_rdtype = rdtype, n3a_origin = origin,
           n3a_referral = referral v, n3a_wildcard_name = None,
           n3a_warnings = [], n3a_errors = [], n3a_name_digest_map = [],
           n3a_closest_encloser = get_closest_encloser v qname origin,
           n3a_nsec_names_covering_qname = [], n3a_nsec_names_covering_wildcard = [],
           n3a_nsec_for_qname = [], n3a_nsec_for_wildcard_name = [],
           n3a_has_rdtype = False, n3a_has_cname = False, n3a_has_ns = False,
           n3a_has_ds = False, n3a_has_soa = False, n3a_opt_out = False,
           n3a_wildcard_has_rdtype = False, n3a_wildcard_has_cname = False\<rparr>)"

text \<open>
  Lines 1134-1137: the opt-out flag of the covering NSEC3 records. Every covering name
  is looked up in \<^verbatim>\<open>rrsets\<close> and its first record is read; the loop has no \<^verbatim>\<open>break\<close>.
\<close>

fun opt_out_scan :: "nsec_set_info \<Rightarrow> name list \<Rightarrow> bool \<Rightarrow> exn + bool" where
  "opt_out_scan v [] acc = Inr acc"
| "opt_out_scan v (nsec_name # rest) acc =
     (case map_of (rrsets v) nsec_name of
        None \<Rightarrow> Inl KeyError
      | Some r \<Rightarrow>
          (case nsec_rrset r of
             [] \<Rightarrow> Inl IndexError
           | rd # _ \<Rightarrow> opt_out_scan v rest (if nsec_flags rd AND 0x01 \<noteq> 0 then True else acc)))"

text \<open>
  Lines 1097-1153 of \<^verbatim>\<open>NSEC3StatusNoAnswer._set_validation_status\<close>; the result is
  (status, errors, \<open>opt_out\<close>). In the wildcard branch the name \<^verbatim>\<open>next_closest_encloser\<close>
  is bound nowhere in the method or the module, so evaluating it raises \<^verbatim>\<open>NameError\<close>;
  \<^verbatim>\<open>self.wildcard_name.canonicalize()\<close> raises \<^verbatim>\<open>AttributeError\<close> on \<^verbatim>\<open>None\<close>.
\<close>

definition NSEC3StatusNoAnswer_verdict ::
  "nsec3_na_fields \<Rightarrow> nsec_set_info \<Rightarrow> exn + (nat \<times> err list \<times> bool)" where
  "NSEC3StatusNoAnswer_verdict f v =
     (case get_algorithm_support v of (valid_algs, invalid_algs) \<Rightarrow>
      let se0 = (NSEC_STATUS_VALID, n3a_errors f) in
      if n3a_nsec_for_qname f \<noteq> [] then
        (if n3a_rdtype f = rdatatype_DS \<or> n3a_referral f then
           (case invalid_when (n3a_has_soa f) (ReferralWithSOABitNSEC3 (n3a_qname f))
                   (invalid_when (n3a_has_ds f) (ReferralWithDSBitNSEC3 (n3a_qname f))
                     (invalid_when (\<not> n3a_has_ns f) (ReferralWithoutNSBitNSEC3 (n3a_qname f)) se0)) of
              (s, es) \<Rightarrow> Inr (s, es, n3a_opt_out f))
         else
           (case invalid_when (n3a_has_cname f)
                   (StypeInBitmapNoDataNSEC3 (n3a_qname f) rdatatype_CNAME)
                   (invalid_when (n3a_has_rdtype f)
                      (StypeInBitmapNoDataNSEC3 (n3a_qname f) (n3a_rdtype f)) se0) of
              (s, es) \<Rightarrow> Inr (s, es, n3a_opt_out f)))
      else if n3a_nsec_for_wildcard_name f \<noteq> [] then
        (case (if n3a_nsec_names_covering_qname f = [] then
                 (if valid_algs \<noteq> [] then Inl NameError
                  else Inr (NSEC_STATUS_INVALID, append_invalid_alg invalid_algs (n3a_errors f)))
               else Inr se0) of
           Inl e \<Rightarrow> Inl e
         | Inr (s1, e1) \<Rightarrow>
             if n3a_wildcard_has_rdtype f then
               (case n3a_wildcard_name f of
                  None \<Rightarrow> Inl AttributeError
                | Some w \<Rightarrow>
                    Inr (NSEC_STATUS_INVALID,
                         e1 @ [StypeInBitmapWildcardNoDataNSEC3 w (n3a_rdtype f)], n3a_opt_out f))
             else Inr (s1, e1, n3a_opt_out f))
      else if n3a_rdtype f = rdatatype_DS \<and> n3a_nsec_names_covering_qname f \<noteq> [] then
        (case opt_out_scan v (dict_values_union (n3a_nsec_names_covering_qname f)) (n3a_opt_out f) of
           Inl e \<Rightarrow> Inl e
         | Inr opt_out \<Rightarrow>
             if \<not> opt_out then
               Inr (NSEC_STATUS_INVALID,
                    append_invalid_alg invalid_algs
                      (if valid_algs \<noteq> []
                       then n3a_errors f @ [NoNSEC3MatchingSnameDSNoData (n3a_qname f)]
                       else n3a_errors f),
                    opt_out)
             else Inr (NSEC_STATUS_VALID, n3a_errors f, opt_out))
      else
        Inr (NSEC_STATUS_INVALID,
             append_invalid_alg invalid_algs
               (if valid_algs \<noteq> [] then
                  n3a_errors f @
                    [if n3a_rdtype f = rdatatype_DS
                     then NoNSEC3MatchingSnameDSNoData (n3a_qname f)
                     else NoNSEC3MatchingSnameNoData (n3a_qname f)]
                else n3a_errors f),
             n3a_opt_out f))"

text \<open>
  Lines 1158-1167: the names a valid proof keeps. \<^verbatim>\<open>self.nsec_for_wildcard_name\<close> is a
  set, never \<^verbatim>\<open>None\<close>, so its names are always added.
\<close>

definition NSEC3StatusNoAnswer_covering_names :: "'a nsec3_na_fields_scheme \<Rightarrow> name option list" where
  "NSEC3StatusNoAnswer_covering_names f =
     map Some
       (dict_values_union (n3a_closest_encloser f)
        @ (if n3a_nsec_for_qname f \<noteq> [] then n3a_nsec_for_qname f
           else dict_values_union (n3a_nsec_names_covering_qname f))
        @ n3a_nsec_for_wildcard_name f)"

text \<open>\<^verbatim>\<open>NSEC3StatusNoAnswer._set_validation_status\<close>.\<close>

definition NSEC3StatusNoAnswer_set_validation_status ::
  "nsec3_na_fields \<Rightarrow> nsec_set_info \<Rightarrow> exn + nsec3_na_status" where
  "NSEC3StatusNoAnswer_set_validation_status f v =
     (case NSEC3StatusNoAnswer_verdict f v of
        Inl e \<Rightarrow> Inl e
      | Inr (s, es, opt_out) \<Rightarrow>
          Inr (nsec3_na_fields.extend (f\<lparr>n3a_errors := es, n3a_opt_out := opt_out\<rparr>)
                (nsec3_na_status.fields s
                   (nsec_retain v s (NSEC3StatusNoAnswer_covering_names f)))))"

definition NSEC3StatusNoAnswer_init ::
  "name \<Rightarrow> nat \<Rightarrow> name \<Rightarrow> nsec_set_info \<Rightarrow> exn + nsec3_na_status" where
  "NSEC3StatusNoAnswer_init qname rdtype origin v =
     (case NSEC3StatusNoAnswer_collect qname rdtype origin v of
        Inl e \<Rightarrow> Inl e
      | Inr f \<Rightarrow> NSEC3StatusNoAnswer_set_validation_status f v)"

subsection \<open>CNAMEFromDNAMEStatus\<close>

text \<open>
  \<^verbatim>\<open>included_cname\<close> has \<^verbatim>\<open>.rrset.name\<close>, \<^verbatim>\<open>.rrset.ttl\<close> and the targets
  \<^verbatim>\<open>.rrset[i].target\<close>; \<^verbatim>\<open>synthesized_cname\<close> has in addition \<^verbatim>\<open>.dname_info\<close>.
\<close>

record dname_rrset_info =
  dname_name :: name
  dname_rdtype :: nat
  dname_servers_clients :: servers_clients

record cname_info =
  cname_name :: name
  cname_ttl :: int
  cname_targets :: "name list"

record synthesized_cname_info = cname_info +
  dname_info :: dname_rrset_info

record cname_from_dname_status =
  cd_synthesized_cname :: synthesized_cname_info
  cd_included_cname :: "cname_info option"
  cd_warnings :: "err list"
  cd_errors :: "err list"
  cd_validation_status :: nat

text \<open>\<^verbatim>\<open>CNAMEFromDNAMEStatus.__init__\<close>; \<^verbatim>\<open>rrset[0]\<close> raises on an RRset with no record.\<close>

definition CNAMEFromDNAMEStatus_init ::
  "synthesized_cname_info \<Rightarrow> cname_info option \<Rightarrow> exn + cname_from_dname_status" where
  "CNAMEFromDNAMEStatus_init synthesized_cname included_cname =
     (case included_cname of
        None \<Rightarrow>
          Inr \<lparr>cd_synthesized_cname = synthesized_cname, cd_included_cname = included_cname,
               cd_warnings = [], cd_errors = [DNAMENoCNAME],
               cd_validation_status = DNAME_STATUS_INVALID\<rparr>
      | Some inc \<Rightarrow>
          (case cname_targets inc of
             [] \<Rightarrow> Inl IndexError
           | target # _ \<Rightarrow>
               (case cname_targets synthesized_cname of
                  [] \<Rightarrow> Inl IndexError
                | synthesized_target # _ \<Rightarrow>
                    Inr \<lparr>cd_synthesized_cname = synthesized_cname,
                         cd_included_cname = included_cname,
                         cd_warnings =
                           (if cname_ttl inc \<noteq> cname_ttl synthesized_cname
                            then (if cname_ttl inc = 0 then [DNAMETTLZero] else [DNAMETTLMismatch])
                            else []),
                         cd_errors =
                           (if target \<noteq> synthesized_target then [DNAMETargetMismatch] else []),
                         cd_validation_status =
                           (if target \<noteq> synthesized_target then DNAME_STATUS_INVALID_TARGET
                            else DNAME_STATUS_VALID)\<rparr>)))"

subsection \<open>Serialization\<close>

text \<open>
  The values of the ordered dictionary that \<^verbatim>\<open>serialize\<close> builds. What the module
  obtains from other modules is kept as a constructor around the arguments:
  \<open>JName\<close> for \<^verbatim>\<open>name.canonicalize().to_text()\<close>, \<open>JRdtype\<close> for
  \<^verbatim>\<open>dns.rdatatype.to_text\<close>, \<open>JBytes\<close> for \<^verbatim>\<open>base64.b64encode\<close>, \<open>JTime\<close> for
  \<^verbatim>\<open>fmt.timestamp_to_str\<close>, \<open>JFormat\<close> for a format string applied to its arguments,
  \<open>JServers\<close> for \<^verbatim>\<open>tuple_to_dict(servers_clients)\<close> (sorted into a list when the flag
  is set), \<open>JErr\<close> for the \<^verbatim>\<open>serialize\<close> method of an error or warning, \<open>JDname\<close> for
  the \<^verbatim>\<open>serialize\<close> method of an RRset carrier.
\<close>

datatype jval =
    JNone
  | JBool bool
  | JInt int
  | JText string
  | JName name
  | JRdtype nat
  | JBytes bytes
  | JTime int
  | JFormat string "jval list"
  | JServers servers_clients bool
  | JErr err bool
  | JDname dname_rrset_info bool
  | JList "jval list"
  | JDict "(string \<times> jval) list"

type_synonym ordered_dict = "(string \<times> jval) list"

text \<open>Python truthiness of a serialized value.\<close>

fun truthy :: "jval \<Rightarrow> bool" where
  "truthy JNone = False"
| "truthy (JBool b) = b"
| "truthy (JInt i) = (i \<noteq> 0)"
| "truthy (JText t) = (t \<noteq> [])"
| "truthy (JList l) = (l \<noteq> [])"
| "truthy (JDict d) = (d \<noteq> [])"
| "truthy _ = True"

text \<open>\<^verbatim>\<open>d[k] = x\<close> under a condition, and a step that may raise.\<close>

definition set_key_if :: "bool \<Rightarrow> string \<Rightarrow> jval \<Rightarrow> ordered_dict \<Rightarrow> ordered_dict" where
  "set_key_if c k x d = (if c then AList.update k x d else d)"

definition exn_bind :: "exn + 'a \<Rightarrow> ('a \<Rightarrow> exn + 'b) \<Rightarrow> exn + 'b" where
  "exn_bind m f = (case m of Inl e \<Rightarrow> Inl e | Inr x \<Rightarrow> f x)"

definition rrsig_status_mapping :: "(nat \<times> string) list" where
  "rrsig_status_mapping =
     [(RRSIG_STATUS_VALID, ''VALID''),
      (RRSIG_STATUS_INDETERMINATE_NO_DNSKEY, ''INDETERMINATE_NO_DNSKEY''),
      (RRSIG_STATUS_INDETERMINATE_MATCH_PRE_REVOKE, ''INDETERMINATE_MATCH_PRE_REVOKE''),
      (RRSIG_STATUS_INDETERMINATE_UNKNOWN_ALGORITHM, ''INDETERMINATE_UNKNOWN_ALGORITHM''),
      (RRSIG_STATUS_EXPIRED, ''EXPIRED''),
      (RRSIG_STATUS_PREMATURE, ''PREMATURE''),
      (RRSIG_STATUS_INVALID_SIG, ''INVALID_SIG''),
      (RRSIG_STATUS_INVALID, ''INVALID'')]"

definition dname_status_mapping :: "(nat \<times> string) list" where
  "dname_status_mapping =
     [(DNAME_STATUS_VALID, ''VALID''),
      (DNAME_STATUS_INDETERMINATE, ''INDETERMINATE''),
      (DNAME_STATUS_INVALID_TARGET, ''INVALID_TARGET''),
      (DNAME_STATUS_INVALID, ''INVALID'')]"

text \<open>\<^verbatim>\<open>d['status'] = mapping[self.validation_status]\<close>, under a condition.\<close>

definition set_status_if ::
  "bool \<Rightarrow> (nat \<times> string) list \<Rightarrow> nat \<Rightarrow> ordered_dict \<Rightarrow> exn + ordered_dict" where
  "set_status_if c mapping status d =
     (if c then
        (case map_of mapping status of
           None \<Rightarrow> Inl KeyError
         | Some t \<Rightarrow> Inr (AList.update ''status'' (JText t) d))
      else Inr d)"

text \<open>Lines 258-262 (and the same lines of every other \<^verbatim>\<open>serialize\<close>).\<close>

definition set_warnings_errors ::
  "err list \<Rightarrow> err list \<Rightarrow> bool \<Rightarrow> int \<Rightarrow> ordered_dict \<Rightarrow> ordered_dict" where
  "set_warnings_errors warnings errors consolidate_clients loglevel d =
     set_key_if (errors \<noteq> [] \<and> loglevel \<le> logging_ERROR) ''errors''
       (JList (map (\<lambda>e. JErr e consolidate_clients) errors))
       (set_key_if (warnings \<noteq> [] \<and> loglevel \<le> logging_WARNING) ''warnings''
          (JList (map (\<lambda>w. JErr w consolidate_clients) warnings)) d)"

text \<open>\<^verbatim>\<open>RRSIGStatus.__unicode__\<close>.\<close>

definition RRSIGStatus_unicode :: "rrsig_status \<Rightarrow> jval" where
  "RRSIGStatus_unicode st =
     JFormat ''RRSIG covering %s/%s''
       [JName (rrset_name (rs_rrset st)), JRdtype (rrset_rdtype (rs_rrset st))]"

text \<open>Line 219.\<close>

definition RRSIGStatus_show_basic :: "rrsig_status \<Rightarrow> int \<Rightarrow> bool" where
  "RRSIGStatus_show_basic st loglevel =
     ((rs_warnings st \<noteq> [] \<and> loglevel \<le> logging_WARNING)
      \<or> (rs_errors st \<noteq> [] \<and> loglevel \<le> logging_ERROR)
      \<or> rs_validation_status st \<notin>
          set [RRSIG_STATUS_VALID, RRSIG_STATUS_INDETERMINATE_NO_DNSKEY,
               RRSIG_STATUS_INDETERMINATE_UNKNOWN_ALGORITHM])"

text \<open>
  Lines 224-246: the keys \<^verbatim>\<open>rdata\<close> and \<^verbatim>\<open>meta\<close>, with the entries of \<^verbatim>\<open>meta\<close> that
  lines 243-246 add under the same level when a key was supplied.
\<close>

definition RRSIGStatus_debug_keys :: "rrsig_status \<Rightarrow> int \<Rightarrow> ordered_dict \<Rightarrow> exn + ordered_dict" where
  "RRSIGStatus_debug_keys st loglevel d =
     (if loglevel \<le> logging_DEBUG then
        (case rrsig_info (rs_rrset st) (rs_rrsig st) of
           None \<Rightarrow> Inl KeyError
         | Some info \<Rightarrow>
             (let r = rs_rrsig st;
                  rdata =
                    [(''signer'', JName (rrsig_signer r)),
                     (''algorithm'', JInt (int (rrsig_algorithm r))),
                     (''key_tag'', JInt (int (rrsig_key_tag r))),
                     (''original_ttl'', JInt (rrsig_original_ttl r)),
                     (''labels'', JInt (int (rrsig_labels r))),
                     (''inception'', JTime (rrsig_inception r)),
                     (''expiration'', JTime (rrsig_expiration r)),
                     (''signature'', JBytes (rrsig_signature r))];
                  meta =
                    [(''ttl'', JInt (rrsig_info_ttl info)),
                     (''age'', JInt (rs_reference_ts st - rrsig_inception r)),
                     (''remaining_lifetime'', JInt (rrsig_expiration r - rs_reference_ts st))];
                  meta' =
                    (case rs_dnskey st of
                       None \<Rightarrow> meta
                     | Some k \<Rightarrow>
                         set_key_if (rrsig_key_tag r \<noteq> dnskey_key_tag k)
                           ''dnskey_key_tag_pre_revoke'' (JInt (int (dnskey_key_tag_no_revoke k)))
                           (AList.update ''dnskey''
                              (JFormat ''dnskey.rdata.to_text''
                                 [JInt (uint (dnskey_flags k)), JInt (int (dnskey_algorithm k)),
                                  JBytes (dnskey_key k)])
                              meta))
              in Inr (AList.update ''meta'' (JDict meta') (AList.update ''rdata'' (JDict rdata) d))))
      else Inr d)"

text \<open>Lines 251-256.\<close>

definition RRSIGStatus_servers ::
  "rrsig_status \<Rightarrow> bool \<Rightarrow> bool \<Rightarrow> ordered_dict \<Rightarrow> exn + ordered_dict" where
  "RRSIGStatus_servers st consolidate_clients c d =
     (if c then
        (case rrsig_info (rs_rrset st) (rs_rrsig st) of
           None \<Rightarrow> Inl KeyError
         | Some info \<Rightarrow>
             Inr (AList.update ''servers''
                    (JServers (rrsig_info_servers_clients info) consolidate_clients) d))
      else Inr d)"

text \<open>\<^verbatim>\<open>RRSIGStatus.serialize\<close>.\<close>

definition RRSIGStatus_serialize :: "rrsig_status \<Rightarrow> bool \<Rightarrow> int \<Rightarrow> exn + ordered_dict" where
  "RRSIGStatus_serialize st consolidate_clients loglevel =
     (let show_basic = RRSIGStatus_show_basic st loglevel in
      exn_bind
        (RRSIGStatus_debug_keys st loglevel
           (set_key_if (loglevel \<le> logging_INFO \<or> show_basic) ''description''
              (RRSIGStatus_unicode st) []))
        (\<lambda>d. exn_bind
           (set_status_if (loglevel \<le> logging_INFO \<or> show_basic) rrsig_status_mapping
              (rs_validation_status st) d)
           (\<lambda>d. exn_bind
              (RRSIGStatus_servers st consolidate_clients
                 (loglevel \<le> logging_DEBUG \<or> show_basic) d)
              (\<lambda>d. Inr (set_warnings_errors (rs_warnings st) (rs_errors st)
                           consolidate_clients loglevel d)))))"

text \<open>\<^verbatim>\<open>CNAMEFromDNAMEStatus.__unicode__\<close>.\<close>

definition CNAMEFromDNAMEStatus_unicode :: "cname_from_dname_status \<Rightarrow> jval" where
  "CNAMEFromDNAMEStatus_unicode st =
     JFormat ''CNAME synthesis for %s from %s/%s''
       [JName (cname_name (cd_synthesized_cname st)),
        JName (dname_name (dname_info (cd_synthesized_cname st))),
        JRdtype (dname_rdtype (dname_info (cd_synthesized_cname st)))]"

text \<open>Line 1300.\<close>

definition CNAMEFromDNAMEStatus_show_basic :: "cname_from_dname_status \<Rightarrow> int \<Rightarrow> bool" where
  "CNAMEFromDNAMEStatus_show_basic st loglevel =
     ((cd_warnings st \<noteq> [] \<and> loglevel \<le> logging_WARNING)
      \<or> (cd_errors st \<noteq> [] \<and> loglevel \<le> logging_ERROR)
      \<or> cd_validation_status st \<noteq> STATUS_VALID)"

text \<open>
  Lines 1305-1310: the key \<^verbatim>\<open>dname\<close>. The optional callback \<^verbatim>\<open>rrset_info_serializer\<close>
  takes the carrier, \<^verbatim>\<open>consolidate_clients\<close> and the level (\<^verbatim>\<open>show_servers\<close> is always
  \<^verbatim>\<open>False\<close>).
\<close>

definition CNAMEFromDNAMEStatus_dname_key ::
  "cname_from_dname_status \<Rightarrow> (dname_rrset_info \<Rightarrow> bool \<Rightarrow> int \<Rightarrow> jval) option \<Rightarrow> bool \<Rightarrow> int \<Rightarrow>
   ordered_dict \<Rightarrow> ordered_dict" where
  "CNAMEFromDNAMEStatus_dname_key st rrset_info_serializer consolidate_clients loglevel d =
     (case rrset_info_serializer of
        Some serializer \<Rightarrow>
          (let dname_serialized =
                 serializer (dname_info (cd_synthesized_cname st)) consolidate_clients loglevel
           in set_key_if (truthy dname_serialized) ''dname'' dname_serialized d)
      | None \<Rightarrow>
          set_key_if (loglevel \<le> logging_DEBUG) ''dname''
            (JDname (dname_info (cd_synthesized_cname st)) consolidate_clients) d)"

text \<open>Lines 1312-1316: the key \<^verbatim>\<open>meta\<close>.\<close>

definition CNAMEFromDNAMEStatus_meta_key ::
  "cname_from_dname_status \<Rightarrow> int \<Rightarrow> ordered_dict \<Rightarrow> exn + ordered_dict" where
  "CNAMEFromDNAMEStatus_meta_key st loglevel d =
     (if loglevel \<le> logging_DEBUG then
        (case cd_included_cname st of
           None \<Rightarrow> Inr (AList.update ''meta'' (JDict []) d)
         | Some inc \<Rightarrow>
             (case cname_targets inc of
                [] \<Rightarrow> Inl IndexError
              | target # _ \<Rightarrow>
                  Inr (AList.update ''meta''
                         (JDict [(''cname_owner'', JName (cname_name inc)),
                                 (''cname_target'', JName target)]) d)))
      else Inr d)"

text \<open>
  \<^verbatim>\<open>CNAMEFromDNAMEStatus.serialize\<close>. Line 1318 puts the key \<^verbatim>\<open>status\<close> under
  \<^verbatim>\<open>loglevel <= logging.INFO or self.validation_status != STATUS_VALID\<close>.
\<close>

definition CNAMEFromDNAMEStatus_serialize ::
  "cname_from_dname_status \<Rightarrow> (dname_rrset_info \<Rightarrow> bool \<Rightarrow> int \<Rightarrow> jval) option \<Rightarrow> bool \<Rightarrow> int \<Rightarrow>
   exn + ordered_dict" where
  "CNAMEFromDNAMEStatus_serialize st rrset_info_serializer consolidate_clients loglevel =
     (let show_basic = CNAMEFromDNAMEStatus_show_basic st loglevel in
      exn_bind
        (CNAMEFromDNAMEStatus_meta_key st loglevel
           (CNAMEFromDNAMEStatus_dname_key st rrset_info_serializer consolidate_clients loglevel
              (set_key_if (loglevel \<le> logging_INFO \<or> show_basic) ''description''
                 (CNAMEFromDNAMEStatus_unicode st) [])))
        (\<lambda>d. exn_bind
           (set_status_if (loglevel \<le> logging_INFO \<or> cd_validation_status st \<noteq> STATUS_VALID)
              dname_status_mapping (cd_validation_status st) d)
           (\<lambda>d. Inr (set_warnings_errors (cd_warnings st) (cd_errors st) consolidate_clients
                        loglevel
                        (set_key_if (loglevel \<le> logging_DEBUG \<or> show_basic) ''servers''
                           (JServers (dname_servers_clients (dname_info (cd_synthesized_cname st)))
                              consolidate_clients) d)))))"

subsection \<open>The status objects as one type\<close>

text \<open>
  A status object is an instance of one of the nine classes; a call names the class
  and the arguments of its constructor.
\<close>

datatype status_obj =
    RRSIGStatus rrsig_status
  | DSStatus ds_status
  | NSECStatusNXDOMAIN nsec_nx_status
  | NSECStatusWildcard nsec_nx_status
  | NSECStatusNoAnswer nsec_na_status
  | NSEC3StatusNXDOMAIN nsec3_nx_status
  | NSEC3StatusWildcard nsec3_nx_status
  | NSEC3StatusNoAnswer nsec3_na_status
  | CNAMEFromDNAMEStatus cname_from_dname_status

datatype constructor_call =
    New_RRSIGStatus "nat \<Rightarrow> bytes \<Rightarrow> bytes \<Rightarrow> bytes \<Rightarrow> bool option" rrset_info rrsig_rdata
      "dnskey_meta option" "name option" int bool
  | New_DSStatus "nat \<Rightarrow> bytes \<Rightarrow> bytes \<Rightarrow> bool option" ds_rdata ds_meta_info
      "dnskey_meta option" bool
  | New_NSECStatusNXDOMAIN name nat name nsec_set_info
  | New_NSECStatusWildcard name name nat name nsec_set_info
  | New_NSECStatusNoAnswer name nat name nsec_set_info
  | New_NSEC3StatusNXDOMAIN name nat name nsec_set_info
  | New_NSEC3StatusWildcard name name nat name nsec_set_info
  | New_NSEC3StatusNoAnswer name nat name nsec_set_info
  | New_CNAMEFromDNAMEStatus synthesized_cname_info "cname_info option"

fun construct :: "constructor_call \<Rightarrow> exn + status_obj" where
  "construct (New_RRSIGStatus validate_rrsig rrset rrsig dnskey zone_name reference_ts au) =
     map_sum id RRSIGStatus
       (RRSIGStatus_init validate_rrsig rrset rrsig dnskey zone_name reference_ts au)"
| "construct (New_DSStatus validate_ds_digest ds ds_meta dnskey dau) =
     map_sum id DSStatus (DSStatus_init validate_ds_digest ds ds_meta dnskey dau)"
| "construct (New_NSECStatusNXDOMAIN qname rdtype origin v) =
     map_sum id NSECStatusNXDOMAIN (NSECStatusNXDOMAIN_init qname rdtype origin v)"
| "construct (New_NSECStatusWildcard qname wildcard_name rdtype origin v) =
     map_sum id NSECStatusWildcard (NSECStatusWildcard_init qname wildcard_name rdtype origin v)"
| "construct (New_NSECStatusNoAnswer qname rdtype origin v) =
     map_sum id NSECStatusNoAnswer (NSECStatusNoAnswer_init qname rdtype origin v)"
| "construct (New_NSEC3StatusNXDOMAIN qname rdtype origin v) =
     map_sum id NSEC3StatusNXDOMAIN (NSEC3StatusNXDOMAIN_init qname rdtype origin v)"
| "construct (New_NSEC3StatusWildcard qname wildcard_name rdtype origin v) =
     map_sum id NSEC3StatusWildcard (NSEC3StatusWildcard_init qname wildcard_name rdtype origin v)"
| "construct (New_NSEC3StatusNoAnswer qname rdtype origin v) =
     map_sum id NSEC3StatusNoAnswer (NSEC3StatusNoAnswer_init qname rdtype origin v)"
| "construct (New_CNAMEFromDNAMEStatus synthesized_cname included_cname) =
     map_sum id CNAMEFromDNAMEStatus (CNAMEFromDNAMEStatus_init synthesized_cname included_cname)"

text \<open>The attributes every class has: \<^verbatim>\<open>validation_status\<close>, \<^verbatim>\<open>errors\<close>, \<^verbatim>\<open>warnings\<close>.\<close>

fun validation_status :: "status_obj \<Rightarrow> nat" where
  "validation_status (RRSIGStatus st) = rs_validation_status st"
| "validation_status (DSStatus st) = ds_validation_status st"
| "validation_status (NSECStatusNXDOMAIN st) = nx_validation_status st"
| "validation_status (NSECStatusWildcard st) = nx_validation_status st"
| "validation_status (NSECStatusNoAnswer st) = na_validation_status st"
| "validation_status (NSEC3StatusNXDOMAIN st) = n3_validation_status st"
| "validation_status (NSEC3StatusWildcard st) = n3_validation_status st"
| "validation_status (NSEC3StatusNoAnswer st) = n3a_validation_status st"
| "validation_status (CNAMEFromDNAMEStatus st) = cd_validation_status st"

fun errors :: "status_obj \<Rightarrow> err list" where
  "errors (RRSIGStatus st) = rs_errors st"
| "errors (DSStatus st) = ds_errors st"
| "errors (NSECStatusNXDOMAIN st) = nx_errors st"
| "errors (NSECStatusWildcard st) = nx_errors st"
| "errors (NSECStatusNoAnswer st) = na_errors st"
| "errors (NSEC3StatusNXDOMAIN st) = n3_errors st"
| "errors (NSEC3StatusWildcard st) = n3_errors st"
| "errors (NSEC3StatusNoAnswer st) = n3a_errors st"
| "errors (CNAMEFromDNAMEStatus st) = cd_errors st"

fun warnings :: "status_obj \<Rightarrow> err list" where
  "warnings (RRSIGStatus st) = rs_warnings st"
| "warnings (DSStatus st) = ds_warnings st"
| "warnings (NSECStatusNXDOMAIN st) = nx_warnings st"
| "warnings (NSECStatusWildcard st) = nx_warnings st"
| "warnings (NSECStatusNoAnswer st) = na_warnings st"
| "warnings (NSEC3StatusNXDOMAIN st) = n3_warnings st"
| "warnings (NSEC3StatusWildcard st) = n3_warnings st"
| "warnings (NSEC3StatusNoAnswer st) = n3a_warnings st"
| "warnings (CNAMEFromDNAMEStatus st) = cd_warnings st"

datatype evaluator = RRSIG_evaluator | DS_evaluator | NSEC_evaluator | NSEC3_evaluator
  | DNAME_evaluator

fun evaluator_of :: "status_obj \<Rightarrow> evaluator" where
  "evaluator_of (RRSIGStatus st) = RRSIG_evaluator"
| "evaluator_of (DSStatus st) = DS_evaluator"
| "evaluator_of (NSECStatusNXDOMAIN st) = NSEC_evaluator"
| "evaluator_of (NSECStatusWildcard st) = NSEC_evaluator"
| "evaluator_of (NSECStatusNoAnswer st) = NSEC_evaluator"
| "evaluator_of (NSEC3StatusNXDOMAIN st) = NSEC3_evaluator"
| "evaluator_of (NSEC3StatusWildcard st) = NSEC3_evaluator"
| "evaluator_of (NSEC3StatusNoAnswer st) = NSEC3_evaluator"
| "evaluator_of (CNAMEFromDNAMEStatus st) = DNAME_evaluator"

text \<open>The view a denial evaluator is given, and the view its status object keeps.\<close>

fun input_view :: "constructor_call \<Rightarrow> nsec_set_info option" where
  "input_view (New_NSECStatusNXDOMAIN qname rdtype origin v) = Some v"
| "input_view (New_NSECStatusWildcard qname wildcard_name rdtype origin v) = Some v"
| "input_view (New_NSECStatusNoAnswer qname rdtype origin v) = Some v"
| "input_view (New_NSEC3StatusNXDOMAIN qname rdtype origin v) = Some v"
| "input_view (New_NSEC3StatusWildcard qname wildcard_name rdtype origin v) = Some v"
| "input_view (New_NSEC3StatusNoAnswer qname rdtype origin v) = Some v"
| "input_view (New_RRSIGStatus validate_rrsig rrset rrsig dnskey zone_name reference_ts au) = None"
| "input_view (New_DSStatus validate_ds_digest ds ds_meta dnskey dau) = None"
| "input_view (New_CNAMEFromDNAMEStatus synthesized_cname included_cname) = None"

fun retained_view :: "status_obj \<Rightarrow> nsec_set_info option" where
  "retained_view (NSECStatusNXDOMAIN st) = Some (nx_nsec_set_info st)"
| "retained_view (NSECStatusWildcard st) = Some (nx_nsec_set_info st)"
| "retained_view (NSECStatusNoAnswer st) = Some (na_nsec_set_info st)"
| "retained_view (NSEC3StatusNXDOMAIN st) = Some (n3_nsec_set_info st)"
| "retained_view (NSEC3StatusWildcard st) = Some (n3_nsec_set_info st)"
| "retained_view (NSEC3StatusNoAnswer st) = Some (n3a_nsec_set_info st)"
| "retained_view (RRSIGStatus st) = None"
| "retained_view (DSStatus st) = None"
| "retained_view (CNAMEFromDNAMEStatus st) = None"

text \<open>
  The errors that the RRSIG evaluator records without a change of status
  (\<^verbatim>\<open>OriginalTTLExceeded\<close>, \<^verbatim>\<open>TTLBeyondExpiration\<close>).
\<close>

definition ttl_error :: "err \<Rightarrow> bool" where
  "ttl_error e =
     (case e of
        OriginalTTLExceeded ttl original \<Rightarrow> True
      | TTLBeyondExpiration expiration ttl reference_time \<Rightarrow> True
      | _ \<Rightarrow> False)"

text \<open>The view of the call reports an NSEC3 algorithm, supported or not.\<close>

definition reports_algorithm :: "constructor_call \<Rightarrow> bool" where
  "reports_algorithm call =
     (case input_view call of
        None \<Rightarrow> False
      | Some v \<Rightarrow> fst (get_algorithm_support v) \<noteq> [] \<or> snd (get_algorithm_support v) \<noteq> [])"

subsection \<open>Example inputs\<close>

definition example_dnskey :: "16 word \<Rightarrow> nat \<Rightarrow> dnskey_meta" where
  "example_dnskey flags tag =
     \<lparr>dnskey_flags = flags, dnskey_algorithm = 8, dnskey_key = [1, 2, 3],
      dnskey_key_tag = tag, dnskey_key_tag_no_revoke = 12345, dnskey_message_for_ds = [4, 5, 6]\<rparr>"

definition example_ds :: ds_rdata where
  "example_ds = \<lparr>ds_key_tag = 12345, ds_algorithm = 8, ds_digest_type = 2, ds_digest = [7, 8]\<rparr>"

definition example_ds_meta :: ds_meta_info where
  "example_ds_meta =
     \<lparr>ds_meta_name = [''example'', []], ds_meta_rdtype = 43, ds_meta_ttl = 3600,
      ds_meta_servers_clients = []\<rparr>"

definition example_rrsig :: "name \<Rightarrow> int \<Rightarrow> rrsig_rdata" where
  "example_rrsig signer original_ttl =
     \<lparr>rrsig_type_covered = 1, rrsig_algorithm = 8, rrsig_labels = 2,
      rrsig_original_ttl = original_ttl, rrsig_inception = 1000, rrsig_expiration = 90000,
      rrsig_key_tag = 12345, rrsig_signer = signer, rrsig_signature = [9]\<rparr>"

definition example_rrset :: rrset_info where
  "example_rrset =
     \<lparr>rrset_name = [''www'', ''example'', []], rrset_rdtype = 1, rrset_ttl = 3600,
      rrsig_info = (\<lambda>rrsig. Some \<lparr>rrsig_info_ttl = 3600, rrsig_info_servers_clients = []\<rparr>),
      message_for_rrsig = (\<lambda>rrsig. [])\<rparr>"

text \<open>A crypto library that gives the same answer for every signature, resp. digest.\<close>

definition rrsig_answer :: "bool option \<Rightarrow> nat \<Rightarrow> bytes \<Rightarrow> bytes \<Rightarrow> bytes \<Rightarrow> bool option" where
  "rrsig_answer r algorithm signature message key = r"

definition digest_answer :: "bool option \<Rightarrow> nat \<Rightarrow> bytes \<Rightarrow> bytes \<Rightarrow> bool option" where
  "digest_answer r digest_type digest message = r"

text \<open>What a constructor call ends with: the exception, or the status and the errors.\<close>

definition outcome :: "constructor_call \<Rightarrow> exn + (nat \<times> err list)" where
  "outcome call = map_sum id (\<lambda>obj. (validation_status obj, errors obj)) (construct call)"

subsection \<open>Ancestors of a name\<close>

text \<open>
  The proper ancestors of \<open>qname\<close> up to and including \<open>origin\<close>, nearest first:
  \<open>qname\<close> without its first \<open>k\<close> labels, for \<open>k\<close> from 1 to the number of labels
  that \<open>qname\<close> has more than \<open>origin\<close>. The second list leaves the origin out: the
  ancestors strictly between \<open>qname\<close> and \<open>origin\<close>.
\<close>

definition ancestors_upto :: "name \<Rightarrow> name \<Rightarrow> name list" where
  "ancestors_upto qname origin =
     map (\<lambda>k. drop k qname) [1..<Suc (length qname - length origin)]"

definition ancestors_strictly_between :: "name \<Rightarrow> name \<Rightarrow> name list" where
  "ancestors_strictly_between qname origin =
     filter (\<lambda>a. a \<noteq> origin) (ancestors_upto qname origin)"

text \<open>Some NSEC covers the wildcard below one of the names.\<close>

definition wildcard_covered :: "nsec_set_info \<Rightarrow> name list \<Rightarrow> bool" where
  "wildcard_covered v ancestors =
     list_ex (\<lambda>a. nsec_covering_name v (''*'' # a) \<noteq> []) ancestors"

subsection \<open>Example views\<close>

text \<open>
  The zone \<open>example.\<close> with the NSEC chain
  \<open>example. -> bar.example. -> zzz.example. -> example.\<close>: the first record covers
  \<open>*.example.\<close>, the second covers \<open>foo.example.\<close>, and no record covers the origin.
\<close>

definition example_nsec_view :: nsec_set_info where
  "example_nsec_view =
     \<lparr>rrsets =
        [([''example'', []],
          \<lparr>nsec_rrset_name = [''example'', []],
           nsec_rrset = [\<lparr>nsec_next = [''bar'', ''example'', []], nsec_flags = 0\<rparr>]\<rparr>),
         ([''bar'', ''example'', []],
          \<lparr>nsec_rrset_name = [''bar'', ''example'', []],
           nsec_rrset = [\<lparr>nsec_next = [''zzz'', ''example'', []], nsec_flags = 0\<rparr>]\<rparr>),
         ([''zzz'', ''example'', []],
          \<lparr>nsec_rrset_name = [''zzz'', ''example'', []],
           nsec_rrset = [\<lparr>nsec_next = [''example'', []], nsec_flags = 0\<rparr>]\<rparr>)],
      referral = False,
      nsec_servers_clients = [],
      nsec3_params = [],
      nsec_covering_name =
        (\<lambda>n. if n = [''foo'', ''example'', []] then [[''bar'', ''example'', []]]
             else if n = [''*'', ''example'', []] then [[''example'', []]]
             else []),
      rdtype_exists_in_bitmap = (\<lambda>n t. False),
      get_digest_name_for_nsec3 = (\<lambda>n origin salt alg iterations. None),
      nsec3_covering_name = (\<lambda>d salt alg iterations. []),
      get_closest_encloser = (\<lambda>qname origin. []),
      get_algorithm_support = ([], [])\<rparr>"

text \<open>
  The same zone with a chain that wraps across the zone cut: the only cover the view
  reports is the NSEC of \<open>bar.example.\<close> covering the origin.
\<close>

definition example_nsec_view_origin_covered :: nsec_set_info where
  "example_nsec_view_origin_covered =
     example_nsec_view
       \<lparr>nsec_covering_name :=
          (\<lambda>n. if n = [''example'', []] then [[''bar'', ''example'', []]] else [])\<rparr>"

text \<open>A name of 254 octets: three labels of 63 octets, one of 60, and the root label.\<close>

definition example_long_origin :: name where
  "example_long_origin =
     [replicate 63 CHR ''a'', replicate 63 CHR ''a'', replicate 63 CHR ''a'',
      replicate 60 CHR ''a'', []]"

text \<open>
  A view for the empty non-terminal \<open>ent.example.\<close>: the NSEC of \<open>a.example.\<close> has a
  next name below \<open>ent.example.\<close>, and the view reports two NSECs covering
  \<open>ent.example.\<close>, that of \<open>a.example.\<close> and that of \<open>aa.example.\<close>.
\<close>

definition example_nsec_view_nodata :: nsec_set_info where
  "example_nsec_view_nodata =
     \<lparr>rrsets =
        [([''a'', ''example'', []],
          \<lparr>nsec_rrset_name = [''a'', ''example'', []],
           nsec_rrset = [\<lparr>nsec_next = [''x'', ''ent'', ''example'', []], nsec_flags = 0\<rparr>]\<rparr>),
         ([''aa'', ''example'', []],
          \<lparr>nsec_rrset_name = [''aa'', ''example'', []],
           nsec_rrset = [\<lparr>nsec_next = [''b'', ''example'', []], nsec_flags = 0\<rparr>]\<rparr>)],
      referral = False,
      nsec_servers_clients = [],
      nsec3_params = [],
      nsec_covering_name =
        (\<lambda>n. if n = [''ent'', ''example'', []]
             then [[''a'', ''example'', []], [''aa'', ''example'', []]]
             else []),
      rdtype_exists_in_bitmap = (\<lambda>n t. False),
      get_digest_name_for_nsec3 = (\<lambda>n origin salt alg iterations. None),
      nsec3_covering_name = (\<lambda>d salt alg iterations. []),
      get_closest_encloser = (\<lambda>qname origin. []),
      get_algorithm_support = ([], [])\<rparr>"

subsection \<open>The evidence a status object cites\<close>

text \<open>
  The names that a valid denial proof passes to \<^verbatim>\<open>project\<close>, and all the names the
  attributes of the object cite: the values of \<^verbatim>\<open>nsec_names_covering_qname\<close>,
  \<^verbatim>\<open>nsec_names_covering_wildcard\<close> and \<^verbatim>\<open>closest_encloser\<close>, and the names of
  \<^verbatim>\<open>nsec_for_qname\<close> and \<^verbatim>\<open>nsec_for_wildcard_name\<close>.
\<close>

fun covering_names :: "status_obj \<Rightarrow> name option list" where
  "covering_names (NSECStatusNXDOMAIN st) = NSECStatusNXDOMAIN_covering_names st"
| "covering_names (NSECStatusWildcard st) = NSECStatusWildcard_covering_names st"
| "covering_names (NSECStatusNoAnswer st) = NSECStatusNoAnswer_covering_names st"
| "covering_names (NSEC3StatusNXDOMAIN st) = NSEC3StatusNXDOMAIN_covering_names st"
| "covering_names (NSEC3StatusWildcard st) = NSEC3StatusWildcard_covering_names st"
| "covering_names (NSEC3StatusNoAnswer st) = NSEC3StatusNoAnswer_covering_names st"
| "covering_names (RRSIGStatus st) = []"
| "covering_names (DSStatus st) = []"
| "covering_names (CNAMEFromDNAMEStatus st) = []"

fun cited_names :: "status_obj \<Rightarrow> name option list" where
  "cited_names (NSECStatusNXDOMAIN st) =
     map Some (dict_values_union (nx_nsec_names_covering_qname st)
               @ dict_values_union (nx_nsec_names_covering_wildcard st))"
| "cited_names (NSECStatusWildcard st) =
     map Some (dict_values_union (nx_nsec_names_covering_qname st)
               @ dict_values_union (nx_nsec_names_covering_wildcard st))"
| "cited_names (NSECStatusNoAnswer st) =
     map Some
       ((case na_nsec_for_qname st of Some r \<Rightarrow> [nsec_rrset_name r] | None \<Rightarrow> [])
        @ dict_values_union (na_nsec_names_covering_qname st)
        @ (case na_nsec_for_wildcard_name st of Some r \<Rightarrow> [na_wildcard_name st] | None \<Rightarrow> []))"
| "cited_names (NSEC3StatusNXDOMAIN st) =
     dict_values_union (n3_closest_encloser st)
     @ map Some (dict_values_union (n3_nsec_names_covering_qname st)
                 @ dict_values_union (n3_nsec_names_covering_wildcard st))"
| "cited_names (NSEC3StatusWildcard st) =
     dict_values_union (n3_closest_encloser st)
     @ map Some (dict_values_union (n3_nsec_names_covering_qname st)
                 @ dict_values_union (n3_nsec_names_covering_wildcard st))"
| "cited_names (NSEC3StatusNoAnswer st) =
     map Some
       (dict_values_union (n3a_closest_encloser st)
        @ n3a_nsec_for_qname st
        @ dict_values_union (n3a_nsec_names_covering_qname st)
        @ n3a_nsec_for_wildcard_name st)"
| "cited_names (RRSIGStatus st) = []"
| "cited_names (DSStatus st) = []"
| "cited_names (CNAMEFromDNAMEStatus st) = []"

text \<open>
  The owner names a VALID status is kept with, class by class, as a set read off the
  attributes of the object:
  \<^item> NSECStatusNXDOMAIN (lines 415-417): the names covering \<open>qname\<close> and the names covering
    the wildcard;
  \<^item> NSECStatusWildcard (lines 527-529): the names covering \<open>qname\<close>;
  \<^item> NSECStatusNoAnswer (lines 648-655): the owner of \<open>nsec_for_qname\<close> when there is
    one, otherwise the names covering \<open>qname\<close>; and \<open>wildcard_name\<close> when there is an
    NSEC for the wildcard;
  \<^item> NSEC3StatusNXDOMAIN (lines 837-840): the names matching a closest encloser, the names
    covering the next closer name, and the names covering the wildcard;
  \<^item> NSEC3StatusWildcard (lines 980-983): the names matching a closest encloser, without
    \<^verbatim>\<open>None\<close>, and the names covering the next closer name;
  \<^item> NSEC3StatusNoAnswer (lines 1158-1167): the names matching a closest encloser; the
    names matching \<open>qname\<close> when there are any, otherwise the names covering the next
    closer name; and the names matching a wildcard.
\<close>

definition names_of :: "('k \<times> 'a list) list \<Rightarrow> 'a set" where
  "names_of d = (\<Union>(k, names)\<in>set d. set names)"

fun kept_names :: "status_obj \<Rightarrow> name set" where
  "kept_names (NSECStatusNXDOMAIN st) =
     names_of (nx_nsec_names_covering_qname st) \<union> names_of (nx_nsec_names_covering_wildcard st)"
| "kept_names (NSECStatusWildcard st) = names_of (nx_nsec_names_covering_qname st)"
| "kept_names (NSECStatusNoAnswer st) =
     (case na_nsec_for_qname st of
        Some r \<Rightarrow> {nsec_rrset_name r}
      | None \<Rightarrow> names_of (na_nsec_names_covering_qname st))
     \<union> (case na_nsec_for_wildcard_name st of
          Some r \<Rightarrow> {na_wildcard_name st}
        | None \<Rightarrow> {})"
| "kept_names (NSEC3StatusNXDOMAIN st) =
     Option.these (names_of (n3_closest_encloser st))
     \<union> names_of (n3_nsec_names_covering_qname st)
     \<union> names_of (n3_nsec_names_covering_wildcard st)"
| "kept_names (NSEC3StatusWildcard st) =
     Option.these (names_of (n3_closest_encloser st))
     \<union> names_of (n3_nsec_names_covering_qname st)"
| "kept_names (NSEC3StatusNoAnswer st) =
     names_of (n3a_closest_encloser st)
     \<union> (if n3a_nsec_for_qname st \<noteq> [] then set (n3a_nsec_for_qname st)
         else names_of (n3a_nsec_names_covering_qname st))
     \<union> set (n3a_nsec_for_wildcard_name st)"
| "kept_names (RRSIGStatus st) = {}"
| "kept_names (DSStatus st) = {}"
| "kept_names (CNAMEFromDNAMEStatus st) = {}"

text \<open>The view \<open>v\<close> with no RRsets but those of the owners in \<open>names\<close>.\<close>

definition restrict_view :: "nsec_set_info \<Rightarrow> name set \<Rightarrow> nsec_set_info" where
  "restrict_view v names = v\<lparr>rrsets := filter (\<lambda>(n, r). n \<in> names) (rrsets v)\<rparr>"

subsection \<open>Parity of status and errors\<close>

text \<open>A pair of a status and an error list: the status is VALID exactly without errors.\<close>

definition parity :: "nat \<times> err list \<Rightarrow> bool" where
  "parity se = (fst se = STATUS_VALID \<longleftrightarrow> snd se = [])"

subsection \<open>The contract of the view on unsupported algorithms\<close>

text \<open>
  Modelled from the spec: \<^verbatim>\<open>get_digest_name_for_nsec3\<close> is a method of \<^verbatim>\<open>NSECSet\<close> in
  \<^verbatim>\<open>dnsviz/response.py\<close>. The spec:
  "\<^verbatim>\<open>get_digest_name_for_nsec3(name, origin, salt, algorithm, iterations) -> owner | none\<close>
  (none when algorithm unsupported)". It is stated for the parameter groups of the view,
  the supported algorithms among them being the first set that
  \<^verbatim>\<open>get_algorithm_support\<close> returns.
\<close>

definition digests_need_support :: "nsec_set_info \<Rightarrow> bool" where
  "digests_need_support v =
     (\<forall>((salt, alg, iterations), nsec3_names)\<in>set (nsec3_params v).
        alg \<notin> set (fst (get_algorithm_support v))
        \<longrightarrow> (\<forall>n origin. get_digest_name_for_nsec3 v n origin salt alg iterations = None))"

text \<open>
  A view of NSEC3 records under the one parameter group (no salt, algorithm 99, no
  iterations), an algorithm that is not supported: no digest, no closest encloser.
\<close>

definition example_nsec3_view_unsupported :: nsec_set_info where
  "example_nsec3_view_unsupported =
     \<lparr>rrsets =
        [([''h1'', ''example'', []],
          \<lparr>nsec_rrset_name = [''h1'', ''example'', []],
           nsec_rrset = [\<lparr>nsec_next = [''h2'', ''example'', []], nsec_flags = 0\<rparr>]\<rparr>)],
      referral = False,
      nsec_servers_clients = [],
      nsec3_params = [(([], 99, 0), [[''h1'', ''example'', []]])],
      nsec_covering_name = (\<lambda>n. []),
      rdtype_exists_in_bitmap = (\<lambda>n t. False),
      get_digest_name_for_nsec3 = (\<lambda>n origin salt alg iterations. None),
      nsec3_covering_name = (\<lambda>d salt alg iterations. []),
      get_closest_encloser = (\<lambda>qname origin. []),
      get_algorithm_support = ([], [99])\<rparr>"

text \<open>No entry of \<^verbatim>\<open>name_digest_map\<close> under a parameter group holds a digest.\<close>

definition no_digest_cached :: "digest_map \<Rightarrow> bool" where
  "no_digest_cached m =
     (\<forall>n inner p d. map_of m n = Some inner \<longrightarrow> map_of inner (Some p) = Some d \<longrightarrow> d = None)"

subsection \<open>Reading the covering NSEC3 records\<close>

text \<open>
  The record of a covering name can be read (\<^verbatim>\<open>nsec_set_info.rrsets[nsec_name].rrset[0]\<close>
  does not raise), and it has the opt-out bit (\<^verbatim>\<open>flags & 0x01\<close>).
\<close>

definition readable :: "nsec_set_info \<Rightarrow> name \<Rightarrow> bool" where
  "readable v n = (case map_of (rrsets v) n of None \<Rightarrow> False | Some r \<Rightarrow> nsec_rrset r \<noteq> [])"

definition has_opt_out :: "nsec_set_info \<Rightarrow> name \<Rightarrow> bool" where
  "has_opt_out v n =
     (case map_of (rrsets v) n of
        None \<Rightarrow> False
      | Some r \<Rightarrow> (case nsec_rrset r of [] \<Rightarrow> False | rd # _ \<Rightarrow> nsec_flags rd AND 0x01 \<noteq> 0))"

text \<open>The attributes of an NSEC3 NODATA object that the loops of the constructor leave alone.\<close>

definition n3a_inputs ::
  "nsec3_na_fields \<Rightarrow>
   name \<times> nat \<times> name \<times> bool \<times> name option \<times> err list \<times> err list \<times> names_dict \<times> bool \<times> names_dict" where
  "n3a_inputs f =
     (n3a_qname f, n3a_rdtype f, n3a_origin f, n3a_referral f, n3a_wildcard_name f,
      n3a_warnings f, n3a_errors f, n3a_closest_encloser f, n3a_opt_out f,
      n3a_nsec_names_covering_wildcard f)"

text \<open>
  The zone \<open>example.\<close> with NSEC3 records under one parameter group (no salt, algorithm 1,
  no iterations). The closest encloser of \<open>foo.example.\<close> is the origin, with the hash
  \<open>hapex\<close>; the hash of \<open>foo.example.\<close> is \<open>hfoo\<close>, the hash of \<open>*.example.\<close> is \<open>hwild\<close>.
  The first argument lists the owners of the NSEC3 records, the second the names that
  cover \<open>hfoo\<close>, the third the flags of every record.
\<close>

definition example_nsec3_view :: "name list \<Rightarrow> name list \<Rightarrow> 8 word \<Rightarrow> nsec_set_info" where
  "example_nsec3_view nsec3_owners covering flags =
     \<lparr>rrsets =
        map (\<lambda>n. (n, \<lparr>nsec_rrset_name = n,
                       nsec_rrset = [\<lparr>nsec_next = [''hnext'', ''example'', []],
                                      nsec_flags = flags\<rparr>]\<rparr>))
          nsec3_owners,
      referral = False,
      nsec_servers_clients = [],
      nsec3_params = [(([], 1, 0), nsec3_owners)],
      nsec_covering_name = (\<lambda>n. []),
      rdtype_exists_in_bitmap = (\<lambda>n t. False),
      get_digest_name_for_nsec3 =
        (\<lambda>n origin salt alg iterations.
           if n = [''foo'', ''example'', []] then Some [''hfoo'', ''example'', []]
           else if n = [''*'', ''example'', []] then Some [''hwild'', ''example'', []]
           else if n = [''example'', []] then Some [''hapex'', ''example'', []]
           else None),
      nsec3_covering_name =
        (\<lambda>d salt alg iterations. if d = [''hfoo'', ''example'', []] then covering else []),
      get_closest_encloser =
        (\<lambda>qname origin. [([''example'', []], [[''hapex'', ''example'', []]])]),
      get_algorithm_support = ([1], [])\<rparr>"

subsection \<open>Example of a CNAME synthesis\<close>

text \<open>The keys of a serialized status object, in their order.\<close>

definition serialized_keys :: "exn + ordered_dict \<Rightarrow> exn + string list" where
  "serialized_keys r = map_sum id (map fst) r"

text \<open>
  The DNAME \<open>example.\<close> to \<open>example.net.\<close> and the CNAME synthesized for
  \<open>www.example.\<close>; the response includes that CNAME with another TTL.
\<close>

definition example_synthesized_cname :: synthesized_cname_info where
  "example_synthesized_cname =
     \<lparr>cname_name = [''www'', ''example'', []], cname_ttl = 3600,
      cname_targets = [[''www'', ''example'', ''net'', []]],
      dname_info = \<lparr>dname_name = [''example'', []], dname_rdtype = 39,
                    dname_servers_clients = []\<rparr>\<rparr>"

definition example_included_cname :: cname_info where
  "example_included_cname =
     \<lparr>cname_name = [''www'', ''example'', []], cname_ttl = 300,
      cname_targets = [[''www'', ''example'', ''net'', []]]\<rparr>"

definition example_cname_status :: cname_from_dname_status where
  "example_cname_status =
     \<lparr>cd_synthesized_cname = example_synthesized_cname,
      cd_included_cname = Some example_included_cname,
      cd_warnings = [DNAMETTLMismatch], cd_errors = [],
      cd_validation_status = DNAME_STATUS_VALID\<rparr>"

subsection \<open>What the RRSIG evaluator keeps true\<close>

text \<open>
  A VALID status comes with TTL errors only, and a status of EXPIRED, PREMATURE,
  INVALID_SIG or INVALID comes with an error.
\<close>

definition rrsig_parity :: "nat \<times> err list \<Rightarrow> bool" where
  "rrsig_parity se =
     ((fst se = RRSIG_STATUS_VALID \<longrightarrow> list_all ttl_error (snd se))
      \<and> (fst se \<in> {RRSIG_STATUS_EXPIRED, RRSIG_STATUS_PREMATURE, RRSIG_STATUS_INVALID_SIG,
                    RRSIG_STATUS_INVALID} \<longrightarrow> snd se \<noteq> []))"

text \<open>
  The RRSIG status object for a signature that verifies, over an RRset served with a TTL
  above the original TTL of the signature: VALID, with the error OriginalTTLExceeded.
\<close>

definition example_rrsig_status :: rrsig_status where
  "example_rrsig_status =
     \<lparr>rs_rrset = example_rrset, rs_rrsig = example_rrsig [''example'', []] 300,
      rs_dnskey = Some (example_dnskey 0x0100 12345),
      rs_zone_name = Some [''example'', []], rs_reference_ts = 2000,
      rs_algorithm_unknown = False, rs_warnings = [],
      rs_errors = [OriginalTTLExceeded 3600 300],
      rs_signature_valid = Some True, rs_validation_status = RRSIG_STATUS_VALID\<rparr>"

text \<open>\<^verbatim>\<open>name_digest_map[qname]\<close> exists and has the key of the parameter group \<open>p\<close>.\<close>

definition digest_cached :: "digest_map \<Rightarrow> name \<Rightarrow> nsec3param \<Rightarrow> bool" where
  "digest_cached m qname p =
     (case map_of m qname of None \<Rightarrow> False | Some inner \<Rightarrow> map_of inner (Some p) \<noteq> None)"

section \<open>Properties\<close>

lemmas status_defs =
  STATUS_VALID_def STATUS_INDETERMINATE_def STATUS_INVALID_def
  RRSIG_STATUS_VALID_def RRSIG_STATUS_INDETERMINATE_NO_DNSKEY_def
  RRSIG_STATUS_INDETERMINATE_MATCH_PRE_REVOKE_def
  RRSIG_STATUS_INDETERMINATE_UNKNOWN_ALGORITHM_def RRSIG_STATUS_EXPIRED_def
  RRSIG_STATUS_PREMATURE_def RRSIG_STATUS_INVALID_SIG_def RRSIG_STATUS_INVALID_def
  DS_STATUS_VALID_def DS_STATUS_INDETERMINATE_NO_DNSKEY_def
  DS_STATUS_INDETERMINATE_MATCH_PRE_REVOKE_def
  DS_STATUS_INDETERMINATE_UNKNOWN_ALGORITHM_def DS_STATUS_INVALID_DIGEST_def
  DS_STATUS_INVALID_def
  NSEC_STATUS_VALID_def NSEC_STATUS_INDETERMINATE_def NSEC_STATUS_INVALID_def
  DNAME_STATUS_VALID_def DNAME_STATUS_INDETERMINATE_def DNAME_STATUS_INVALID_TARGET_def
  DNAME_STATUS_INVALID_def

lemmas example_defs =
  example_dnskey_def example_ds_def example_ds_meta_def example_rrsig_def example_rrset_def
  rrsig_answer_def digest_answer_def outcome_def

subsection \<open>DSStatus, step by step\<close>

lemma ds_set_if_valid_simps [simp]:
  "ds_dnskey (ds_set_if_valid s st) = ds_dnskey st"
  "ds_digest_valid (ds_set_if_valid s st) = ds_digest_valid st"
  "ds_digest_algorithm_unknown (ds_set_if_valid s st) = ds_digest_algorithm_unknown st"
  "ds_ds (ds_set_if_valid s st) = ds_ds st"
  "ds_errors (ds_set_if_valid s st) = ds_errors st"
  "ds_warnings (ds_set_if_valid s st) = ds_warnings st"
  "ds_validation_status (ds_set_if_valid s st) =
     (if ds_validation_status st = DS_STATUS_VALID then s else ds_validation_status st)"
  by (simp_all add: ds_set_if_valid_def)

lemma ds_check_keying_simps [simp]:
  "ds_dnskey (ds_check_keying st) = ds_dnskey st"
  "ds_digest_valid (ds_check_keying st) = ds_digest_valid st"
  "ds_digest_algorithm_unknown (ds_check_keying st) = ds_digest_algorithm_unknown st"
  "ds_ds (ds_check_keying st) = ds_ds st"
  "ds_errors (ds_check_keying st) = ds_errors st"
  "ds_validation_status (ds_check_keying st) =
     (if ds_validation_status st = DS_STATUS_VALID
         \<and> (ds_digest_valid st = None \<or> ds_digest_algorithm_unknown st)
      then (if ds_dnskey st = None then DS_STATUS_INDETERMINATE_NO_DNSKEY
            else DS_STATUS_INDETERMINATE_UNKNOWN_ALGORITHM)
      else ds_validation_status st)"
  by (simp_all add: ds_check_keying_def split: option.splits)

lemma ds_check_revoke_simps [simp]:
  "ds_dnskey (ds_check_revoke st) = ds_dnskey st"
  "ds_digest_valid (ds_check_revoke st) = ds_digest_valid st"
  "ds_digest_algorithm_unknown (ds_check_revoke st) = ds_digest_algorithm_unknown st"
  "ds_ds (ds_check_revoke st) = ds_ds st"
  "ds_warnings (ds_check_revoke st) = ds_warnings st"
  by (simp_all add: ds_check_revoke_def split: option.splits)

lemma ds_check_revoke_errors:
  "ds_errors (ds_check_revoke st) =
     (case ds_dnskey st of
        None \<Rightarrow> ds_errors st
      | Some k \<Rightarrow>
          if dnskey_flags k AND DNSKEY_FLAGS_revoke \<noteq> 0 \<and> dnskey_key_tag k = ds_key_tag (ds_ds st)
          then ds_errors st @ [DNSKEYRevokedDS] else ds_errors st)"
  by (simp add: ds_check_revoke_def split: option.splits)

lemma ds_check_revoke_status:
  "ds_validation_status (ds_check_revoke st) =
     (case ds_dnskey st of
        None \<Rightarrow> ds_validation_status st
      | Some k \<Rightarrow>
          if dnskey_flags k AND DNSKEY_FLAGS_revoke \<noteq> 0 \<and> ds_validation_status st = DS_STATUS_VALID
          then (if dnskey_key_tag k \<noteq> ds_key_tag (ds_ds st)
                then DS_STATUS_INDETERMINATE_MATCH_PRE_REVOKE else DS_STATUS_INVALID)
          else ds_validation_status st)"
  by (simp add: ds_check_revoke_def split: option.splits)

lemma ds_check_verdict_cases:
  "ds_check_verdict st =
     (if \<not> ds_digest_algorithm_unknown st \<and> ds_digest_valid st = Some False then
        (case ds_dnskey st of
           None \<Rightarrow> Inl AttributeError
         | Some k \<Rightarrow>
             if dnskey_key_tag k = ds_key_tag (ds_ds st)
             then Inr (st\<lparr>ds_validation_status :=
                            (if ds_validation_status st = DS_STATUS_VALID
                             then DS_STATUS_INVALID_DIGEST else ds_validation_status st),
                          ds_errors := ds_errors st @ [DigestInvalid]\<rparr>)
             else Inr st)
      else Inr st)"
  by (simp add: ds_check_verdict_def ds_set_if_valid_def Let_def split: option.splits)

lemmas ds_steps =
  DSStatus_init_def Let_def ds_check_verdict_cases ds_check_revoke_errors ds_check_revoke_status
  ds_digest_verdict_def

text \<open>
  C5, as stated: a DS evaluation with a revoked key ends INDETERMINATE_MATCH_PRE_REVOKE
  (differing key tags) or INVALID (equal key tags). It fails when the digest algorithm
  is unknown: the status is then INDETERMINATE_UNKNOWN_ALGORITHM, set by the first check
  and never overwritten. Here the key has the revoke bit (flags \<open>0x0180\<close>) and the key
  tag 54321, the DS the key tag 12345, and the digest primitive has no verdict.
\<close>

theorem C5_revoked_ds_counterexample:
  "outcome (New_DSStatus (digest_answer None) example_ds example_ds_meta
              (Some (example_dnskey 0x0180 54321)) True)
     = Inr (DS_STATUS_INDETERMINATE_UNKNOWN_ALGORITHM, [])
   \<and> dnskey_flags (example_dnskey 0x0180 54321) AND DNSKEY_FLAGS_revoke \<noteq> 0
   \<and> dnskey_key_tag (example_dnskey 0x0180 54321) \<noteq> ds_key_tag example_ds
   \<and> DS_STATUS_INDETERMINATE_UNKNOWN_ALGORITHM \<noteq> DS_STATUS_INDETERMINATE_MATCH_PRE_REVOKE"
  by (simp add: ds_steps example_defs status_defs DNSKEY_FLAGS_revoke_def)

text \<open>
  C5, amended: for every DS evaluation with a supplied key whose revoke bit is set, the
  constructor returns; with differing key tags the errors are empty, with equal key tags
  they contain DNSKEYRevokedDS; the status is INDETERMINATE_MATCH_PRE_REVOKE, resp.
  INVALID, when the digest algorithm is known (the digest primitive gave a verdict and
  \<open>digest_algorithm_unknown\<close> is false), and INDETERMINATE_UNKNOWN_ALGORITHM otherwise.
\<close>

theorem C5_revoked_ds:
  assumes revoke: "dnskey_flags k AND DNSKEY_FLAGS_revoke \<noteq> 0"
  shows "\<exists>st. DSStatus_init validate_ds_digest ds ds_meta (Some k) digest_algorithm_unknown = Inr st
     \<and> (if dnskey_key_tag k \<noteq> ds_key_tag ds
        then ds_errors st = []
             \<and> ds_validation_status st =
                 (if validate_ds_digest (ds_digest_type ds) (ds_digest ds) (dnskey_message_for_ds k) \<noteq> None
                     \<and> \<not> digest_algorithm_unknown
                  then DS_STATUS_INDETERMINATE_MATCH_PRE_REVOKE
                  else DS_STATUS_INDETERMINATE_UNKNOWN_ALGORITHM)
        else DNSKEYRevokedDS \<in> set (ds_errors st)
             \<and> ds_validation_status st =
                 (if validate_ds_digest (ds_digest_type ds) (ds_digest ds) (dnskey_message_for_ds k) \<noteq> None
                     \<and> \<not> digest_algorithm_unknown
                  then DS_STATUS_INVALID
                  else DS_STATUS_INDETERMINATE_UNKNOWN_ALGORITHM))"
  using revoke by (simp add: ds_steps status_defs)

theorem C5_revoked_ds_witness:
  "dnskey_flags (example_dnskey 0x0180 54321) AND DNSKEY_FLAGS_revoke \<noteq> 0
   \<and> outcome (New_DSStatus (digest_answer (Some True)) example_ds example_ds_meta
                 (Some (example_dnskey 0x0180 54321)) False)
       = Inr (DS_STATUS_INDETERMINATE_MATCH_PRE_REVOKE, [])"
proof -
  have h: "dnskey_flags (example_dnskey 0x0180 54321) AND DNSKEY_FLAGS_revoke \<noteq> 0"
    by (simp add: example_defs DNSKEY_FLAGS_revoke_def)
  show ?thesis
    using h C5_revoked_ds [OF h, of "digest_answer (Some True)" example_ds example_ds_meta False]
    by (auto simp: example_defs)
qed

subsection \<open>RRSIGStatus, step by step\<close>

lemma rrsig_set_if_valid_simps [simp]:
  "rs_dnskey (rrsig_set_if_valid s st) = rs_dnskey st"
  "rs_signature_valid (rrsig_set_if_valid s st) = rs_signature_valid st"
  "rs_algorithm_unknown (rrsig_set_if_valid s st) = rs_algorithm_unknown st"
  "rs_rrsig (rrsig_set_if_valid s st) = rs_rrsig st"
  "rs_rrset (rrsig_set_if_valid s st) = rs_rrset st"
  "rs_zone_name (rrsig_set_if_valid s st) = rs_zone_name st"
  "rs_reference_ts (rrsig_set_if_valid s st) = rs_reference_ts st"
  "rs_errors (rrsig_set_if_valid s st) = rs_errors st"
  "rs_warnings (rrsig_set_if_valid s st) = rs_warnings st"
  "rs_validation_status (rrsig_set_if_valid s st) =
     (if rs_validation_status st = RRSIG_STATUS_VALID then s else rs_validation_status st)"
  by (simp_all add: rrsig_set_if_valid_def)

lemma rrsig_check_keying_simps [simp]:
  "rs_dnskey (rrsig_check_keying st) = rs_dnskey st"
  "rs_signature_valid (rrsig_check_keying st) = rs_signature_valid st"
  "rs_algorithm_unknown (rrsig_check_keying st) = rs_algorithm_unknown st"
  "rs_rrsig (rrsig_check_keying st) = rs_rrsig st"
  "rs_rrset (rrsig_check_keying st) = rs_rrset st"
  "rs_zone_name (rrsig_check_keying st) = rs_zone_name st"
  "rs_reference_ts (rrsig_check_keying st) = rs_reference_ts st"
  "rs_errors (rrsig_check_keying st) = rs_errors st"
  "rs_validation_status (rrsig_check_keying st) =
     (if rs_validation_status st = RRSIG_STATUS_VALID
         \<and> (rs_signature_valid st = None \<or> rs_algorithm_unknown st)
      then (if rs_dnskey st = None then RRSIG_STATUS_INDETERMINATE_NO_DNSKEY
            else RRSIG_STATUS_INDETERMINATE_UNKNOWN_ALGORITHM)
      else rs_validation_status st)"
  by (simp_all add: rrsig_check_keying_def split: option.splits)

lemma rrsig_check_ttl_None:
  "rrsig_info (rs_rrset st) (rs_rrsig st) = None \<Longrightarrow> rrsig_check_ttl st = Inl KeyError"
  by (simp add: rrsig_check_ttl_def)

lemma rrsig_check_ttl_Some:
  assumes "rrsig_info (rs_rrset st) (rs_rrsig st) = Some info"
  shows "\<exists>st' m. rrsig_check_ttl st = Inr (st', m)
        \<and> m = min (rrset_ttl (rs_rrset st)) (min (rrsig_info_ttl info) (rrsig_original_ttl (rs_rrsig st)))
        \<and> rs_dnskey st' = rs_dnskey st \<and> rs_signature_valid st' = rs_signature_valid st
        \<and> rs_algorithm_unknown st' = rs_algorithm_unknown st \<and> rs_rrsig st' = rs_rrsig st
        \<and> rs_rrset st' = rs_rrset st \<and> rs_zone_name st' = rs_zone_name st
        \<and> rs_reference_ts st' = rs_reference_ts st
        \<and> rs_validation_status st' = rs_validation_status st
        \<and> rs_errors st' = rs_errors st @ rrsig_ttl_errors st info"
  using assms by (simp add: rrsig_check_ttl_def Let_def rrsig_ttl_errors_def)

lemma rrsig_check_signer_simps [simp]:
  "rs_dnskey (rrsig_check_signer st) = rs_dnskey st"
  "rs_signature_valid (rrsig_check_signer st) = rs_signature_valid st"
  "rs_algorithm_unknown (rrsig_check_signer st) = rs_algorithm_unknown st"
  "rs_rrsig (rrsig_check_signer st) = rs_rrsig st"
  "rs_rrset (rrsig_check_signer st) = rs_rrset st"
  "rs_zone_name (rrsig_check_signer st) = rs_zone_name st"
  "rs_reference_ts (rrsig_check_signer st) = rs_reference_ts st"
  "rs_errors (rrsig_check_signer st) =
     rs_errors st @
       (if rrsig_signer_mismatch st
        then [SignerNotZone (case rs_zone_name st of None \<Rightarrow> rrsig_signer (rs_rrsig st) | Some z \<Rightarrow> z)
                (rrsig_signer (rs_rrsig st))]
        else [])"
  "rs_validation_status (rrsig_check_signer st) =
     (if rrsig_signer_mismatch st \<and> rs_validation_status st = RRSIG_STATUS_VALID
      then RRSIG_STATUS_INVALID else rs_validation_status st)"
  by (simp_all add: rrsig_check_signer_def Let_def)

lemma rrsig_revoked_frame [simp]:
  "rrsig_revoked (rrsig_check_signer st) k = rrsig_revoked st k"
  "rrsig_revoked (rrsig_check_keying st) k = rrsig_revoked st k"
  by (simp_all add: rrsig_revoked_def)

lemma rrsig_check_revoke_simps [simp]:
  "rs_dnskey (rrsig_check_revoke st) = rs_dnskey st"
  "rs_signature_valid (rrsig_check_revoke st) = rs_signature_valid st"
  "rs_algorithm_unknown (rrsig_check_revoke st) = rs_algorithm_unknown st"
  "rs_rrsig (rrsig_check_revoke st) = rs_rrsig st"
  "rs_rrset (rrsig_check_revoke st) = rs_rrset st"
  "rs_zone_name (rrsig_check_revoke st) = rs_zone_name st"
  "rs_reference_ts (rrsig_check_revoke st) = rs_reference_ts st"
  by (simp_all add: rrsig_check_revoke_def split: option.splits)

lemma rrsig_check_revoke_errors:
  "rs_errors (rrsig_check_revoke st) =
     rs_errors st @
       (case rs_dnskey st of
          None \<Rightarrow> []
        | Some k \<Rightarrow>
            if rrsig_revoked st k \<and> rrsig_key_tag (rs_rrsig st) = dnskey_key_tag k
            then [DNSKEYRevokedRRSIG] else [])"
  by (simp add: rrsig_check_revoke_def split: option.splits)

lemma rrsig_check_revoke_status:
  "rs_validation_status (rrsig_check_revoke st) =
     (case rs_dnskey st of
        None \<Rightarrow> rs_validation_status st
      | Some k \<Rightarrow>
          if rrsig_revoked st k \<and> rs_validation_status st = RRSIG_STATUS_VALID
          then (if rrsig_key_tag (rs_rrsig st) \<noteq> dnskey_key_tag k
                then RRSIG_STATUS_INDETERMINATE_MATCH_PRE_REVOKE else RRSIG_STATUS_INVALID)
          else rs_validation_status st)"
  by (simp add: rrsig_check_revoke_def split: option.splits)

lemma rrsig_check_window_simps [simp]:
  "rs_dnskey (rrsig_check_window m st) = rs_dnskey st"
  "rs_signature_valid (rrsig_check_window m st) = rs_signature_valid st"
  "rs_algorithm_unknown (rrsig_check_window m st) = rs_algorithm_unknown st"
  "rs_rrsig (rrsig_check_window m st) = rs_rrsig st"
  "rs_rrset (rrsig_check_window m st) = rs_rrset st"
  "rs_zone_name (rrsig_check_window m st) = rs_zone_name st"
  "rs_reference_ts (rrsig_check_window m st) = rs_reference_ts st"
  "rs_errors (rrsig_check_window m st) = rs_errors st @ rrsig_window_errors m st"
  "rs_validation_status (rrsig_check_window m st) =
     (if rs_validation_status st = RRSIG_STATUS_VALID
      then (if rs_reference_ts st < rrsig_inception (rs_rrsig st) then RRSIG_STATUS_PREMATURE
            else if rs_reference_ts st \<ge> rrsig_expiration (rs_rrsig st) then RRSIG_STATUS_EXPIRED
            else RRSIG_STATUS_VALID)
      else rs_validation_status st)"
  by (simp_all add: rrsig_check_window_def rrsig_window_errors_def Let_def status_defs)

lemma rrsig_check_verdict_cases:
  "rrsig_check_verdict st =
     (if \<not> rs_algorithm_unknown st \<and> rs_signature_valid st = Some False then
        (case rs_dnskey st of
           None \<Rightarrow> Inl AttributeError
         | Some k \<Rightarrow>
             if dnskey_key_tag k = rrsig_key_tag (rs_rrsig st)
             then Inr (st\<lparr>rs_validation_status :=
                            (if rs_validation_status st = RRSIG_STATUS_VALID
                             then RRSIG_STATUS_INVALID_SIG else rs_validation_status st),
                          rs_errors := rs_errors st @ [SignatureInvalid]\<rparr>)
             else Inr st)
      else Inr st)"
  by (simp add: rrsig_check_verdict_def rrsig_set_if_valid_def Let_def split: option.splits)

text \<open>The state after the first two checks, when the RRSIG is a key of \<open>rrsig_info\<close>.\<close>

lemma rrsig_after_ttl:
  assumes info: "rrsig_info rrset rrsig = Some info"
  shows "\<exists>st2 m.
           RRSIGStatus_init validate_rrsig rrset rrsig dnskey zone_name ts au =
             rrsig_check_verdict (rrsig_check_window m (rrsig_check_revoke (rrsig_check_signer st2)))
         \<and> rs_dnskey st2 = dnskey
         \<and> rs_signature_valid st2 = rrsig_signature_valid validate_rrsig rrset rrsig dnskey
         \<and> rs_algorithm_unknown st2 = au \<and> rs_rrsig st2 = rrsig \<and> rs_rrset st2 = rrset
         \<and> rs_zone_name st2 = zone_name \<and> rs_reference_ts st2 = ts
         \<and> rs_validation_status st2 =
             (if rrsig_signature_valid validate_rrsig rrset rrsig dnskey = None \<or> au
              then (if dnskey = None then RRSIG_STATUS_INDETERMINATE_NO_DNSKEY
                    else RRSIG_STATUS_INDETERMINATE_UNKNOWN_ALGORITHM)
              else RRSIG_STATUS_VALID)
         \<and> rs_errors st2 =
             (if rrsig_info_ttl info > rrsig_original_ttl rrsig
              then [OriginalTTLExceeded (rrset_ttl rrset) (rrsig_original_ttl rrsig)] else [])"
proof -
  let ?sv = "rrsig_signature_valid validate_rrsig rrset rrsig dnskey"
  let ?st0 = "\<lparr>rs_rrset = rrset, rs_rrsig = rrsig, rs_dnskey = dnskey,
                 rs_zone_name = zone_name, rs_reference_ts = ts,
                 rs_algorithm_unknown = au,
                 rs_warnings = [], rs_errors = [],
                 rs_signature_valid = ?sv,
                 rs_validation_status = RRSIG_STATUS_VALID\<rparr>"
  from info have "rrsig_info (rs_rrset (rrsig_check_keying ?st0)) (rs_rrsig (rrsig_check_keying ?st0)) = Some info"
    by simp
  from rrsig_check_ttl_Some [OF this] obtain st' m where
    ttl: "rrsig_check_ttl (rrsig_check_keying ?st0) = Inr (st', m)"
    and f: "rs_dnskey st' = dnskey" "rs_signature_valid st' = ?sv"
      "rs_algorithm_unknown st' = au" "rs_rrsig st' = rrsig" "rs_rrset st' = rrset"
      "rs_zone_name st' = zone_name"
      "rs_reference_ts st' = ts"
      "rs_validation_status st' = rs_validation_status (rrsig_check_keying ?st0)"
      "rs_errors st' = rs_errors (rrsig_check_keying ?st0) @ rrsig_ttl_errors (rrsig_check_keying ?st0) info"
    by auto
  have init: "RRSIGStatus_init validate_rrsig rrset rrsig dnskey zone_name ts au =
      rrsig_check_verdict (rrsig_check_window m (rrsig_check_revoke (rrsig_check_signer st')))"
    using ttl by (simp add: RRSIGStatus_init_def Let_def)
  show ?thesis
    using init f by (intro exI [of _ st'] exI [of _ m]) (simp add: rrsig_ttl_errors_def)
qed

text \<open>
  C2: for every RRSIG evaluation with a supplied dnskey, a known algorithm (the crypto
  library gave a verdict and \<open>algorithm_unknown\<close> is false), the revoke bit clear, a
  signer that differs from the known zone name and a reference time at or after the
  expiration, the constructor returns, the status is INVALID, and the errors contain
  both SignerNotZone and ExpirationInPast.
\<close>

theorem C2_signer_precedes_window:
  assumes info: "rrsig_info rrset rrsig = Some info"
      and known: "validate_rrsig (dnskey_algorithm k) (rrsig_signature rrsig)
                    (message_for_rrsig rrset rrsig) (dnskey_key k) = Some b"
      and revoke: "dnskey_flags k AND DNSKEY_FLAGS_revoke = 0"
      and signer: "rrsig_signer rrsig \<noteq> z"
      and expired: "ts \<ge> rrsig_expiration rrsig"
  shows "\<exists>st. RRSIGStatus_init validate_rrsig rrset rrsig (Some k) (Some z) ts False = Inr st
           \<and> rs_validation_status st = RRSIG_STATUS_INVALID
           \<and> SignerNotZone z (rrsig_signer rrsig) \<in> set (rs_errors st)
           \<and> ExpirationInPast (rrsig_expiration rrsig) ts \<in> set (rs_errors st)"
proof -
  from rrsig_after_ttl [OF info, where dnskey = "Some k" and validate_rrsig = validate_rrsig
                          and zone_name = "Some z" and ts = ts and au = False]
  obtain st2 m where
    init: "RRSIGStatus_init validate_rrsig rrset rrsig (Some k) (Some z) ts False =
             rrsig_check_verdict (rrsig_check_window m (rrsig_check_revoke (rrsig_check_signer st2)))"
    and f: "rs_dnskey st2 = Some k" "rs_signature_valid st2 = Some b"
      "rs_algorithm_unknown st2 = False" "rs_rrsig st2 = rrsig" "rs_zone_name st2 = Some z"
      "rs_reference_ts st2 = ts" "rs_validation_status st2 = RRSIG_STATUS_VALID"
    using known by (auto simp: rrsig_signature_valid_def)
  show ?thesis
    using f revoke signer expired unfolding init
    by (simp add: rrsig_check_verdict_cases rrsig_check_revoke_errors rrsig_check_revoke_status
          rrsig_signer_mismatch_def rrsig_revoked_def rrsig_window_errors_def status_defs)
qed

theorem C2_signer_precedes_window_witness:
  "outcome (New_RRSIGStatus (rrsig_answer (Some True)) example_rrset
              (example_rrsig [''other'', []] 3600) (Some (example_dnskey 0x0100 12345))
              (Some [''example'', []]) 90000 False)
     = Inr (RRSIG_STATUS_INVALID,
            [SignerNotZone [''example'', []] [''other'', []], ExpirationInPast 90000 90000])"
proof -
  let ?rrsig = "example_rrsig [''other'', []] 3600"
  let ?k = "example_dnskey 0x0100 12345"
  have info: "rrsig_info example_rrset ?rrsig =
                Some \<lparr>rrsig_info_ttl = 3600, rrsig_info_servers_clients = []\<rparr>"
    by (simp add: example_defs)
  have known: "rrsig_answer (Some True) (dnskey_algorithm ?k) (rrsig_signature ?rrsig)
                 (message_for_rrsig example_rrset ?rrsig) (dnskey_key ?k) = Some True"
    by (simp add: example_defs)
  have revoke: "dnskey_flags ?k AND DNSKEY_FLAGS_revoke = 0"
    by (simp add: example_defs DNSKEY_FLAGS_revoke_def)
  have signer: "rrsig_signer ?rrsig \<noteq> [''example'', []]"
    by (simp add: example_defs)
  have expired: "(90000::int) \<ge> rrsig_expiration ?rrsig"
    by (simp add: example_defs)
  from C2_signer_precedes_window
         [where validate_rrsig = "rrsig_answer (Some True)" and k = ?k and rrsig = ?rrsig
            and rrset = example_rrset and b = True,
          OF info known revoke signer expired]
  obtain st where
    init: "RRSIGStatus_init (rrsig_answer (Some True)) example_rrset ?rrsig (Some ?k)
             (Some [''example'', []]) 90000 False = Inr st"
    and st: "rs_validation_status st = RRSIG_STATUS_INVALID"
    by blast
  from rrsig_after_ttl [OF info, where dnskey = "Some ?k"
                          and validate_rrsig = "rrsig_answer (Some True)"
                          and zone_name = "Some [''example'', []]" and ts = 90000 and au = False]
  obtain st2 m where
    init2: "RRSIGStatus_init (rrsig_answer (Some True)) example_rrset ?rrsig (Some ?k)
              (Some [''example'', []]) 90000 False =
             rrsig_check_verdict (rrsig_check_window m (rrsig_check_revoke (rrsig_check_signer st2)))"
    and f: "rs_dnskey st2 = Some ?k" "rs_signature_valid st2 = Some True"
      "rs_algorithm_unknown st2 = False" "rs_rrsig st2 = ?rrsig"
      "rs_zone_name st2 = Some [''example'', []]"
      "rs_reference_ts st2 = 90000" "rs_errors st2 = []"
    using known by (auto simp: example_defs rrsig_signature_valid_def)
  have "rs_errors st = [SignerNotZone [''example'', []] [''other'', []], ExpirationInPast 90000 90000]"
    using init f revoke unfolding init2
    by (auto simp: rrsig_check_verdict_cases rrsig_check_revoke_errors
          rrsig_signer_mismatch_def rrsig_revoked_def rrsig_window_errors_def example_defs)
  with init st show ?thesis
    by (simp add: outcome_def)
qed

text \<open>
  C10: with \<open>dnskey = None\<close> the verdict of the crypto library (\<open>signature_valid\<close>, resp.
  \<open>digest_valid\<close>) is \<open>None\<close>, so the last check, which reads \<open>dnskey.key_tag\<close>, is not
  entered: the DS constructor returns, and the RRSIG constructor returns unless the
  RRSIG is no key of \<open>rrsig_info\<close> (\<open>KeyError\<close>); it never ends in \<open>AttributeError\<close>.
\<close>

theorem C10_no_dnskey_no_dereference:
  "((rrsig_info rrset rrsig = None
       \<and> RRSIGStatus_init validate_rrsig rrset rrsig None zone_name ts au = Inl KeyError)
     \<or> (\<exists>st. RRSIGStatus_init validate_rrsig rrset rrsig None zone_name ts au = Inr st
               \<and> rs_signature_valid st = None \<and> rs_dnskey st = None))
   \<and> RRSIGStatus_init validate_rrsig rrset rrsig None zone_name ts au \<noteq> Inl AttributeError
   \<and> (\<exists>st. DSStatus_init validate_ds_digest ds ds_meta None dau = Inr st
             \<and> ds_digest_valid st = None \<and> ds_dnskey st = None)"
proof -
  have ds: "\<exists>st. DSStatus_init validate_ds_digest ds ds_meta None dau = Inr st
             \<and> ds_digest_valid st = None \<and> ds_dnskey st = None"
    by (simp add: ds_steps)
  have rrsig: "(rrsig_info rrset rrsig = None
       \<and> RRSIGStatus_init validate_rrsig rrset rrsig None zone_name ts au = Inl KeyError)
     \<or> (\<exists>st. RRSIGStatus_init validate_rrsig rrset rrsig None zone_name ts au = Inr st
               \<and> rs_signature_valid st = None \<and> rs_dnskey st = None)"
  proof (cases "rrsig_info rrset rrsig")
    case None
    then show ?thesis
      by (simp add: RRSIGStatus_init_def Let_def rrsig_check_ttl_None)
  next
    case (Some info)
    from rrsig_after_ttl [OF Some, where dnskey = None and validate_rrsig = validate_rrsig
                            and zone_name = zone_name and ts = ts and au = au]
    obtain st2 m where
      init: "RRSIGStatus_init validate_rrsig rrset rrsig None zone_name ts au =
               rrsig_check_verdict (rrsig_check_window m (rrsig_check_revoke (rrsig_check_signer st2)))"
      and f: "rs_dnskey st2 = None" "rs_signature_valid st2 = None"
      by (auto simp: rrsig_signature_valid_def)
    show ?thesis
      using f unfolding init by (simp add: rrsig_check_verdict_cases)
  qed
  from rrsig have "RRSIGStatus_init validate_rrsig rrset rrsig None zone_name ts au \<noteq> Inl AttributeError"
    by auto
  with ds rrsig show ?thesis by blast
qed

subsection \<open>Names and their ancestors\<close>

declare nx_wildcard_scan.simps [simp del]
declare na_wildcard_scan.simps [simp del]

lemma is_subdomain_longer:
  assumes "is_subdomain wc origin" "wc \<noteq> origin"
  shows "length origin < length wc"
proof (rule ccontr)
  assume short: "\<not> length origin < length wc"
  from assms(1) have le: "length origin \<le> length wc"
    and dr: "drop (length wc - length origin) wc = origin"
    unfolding is_subdomain_def by blast+
  from short le have "length wc - length origin = 0" by simp
  with dr have "wc = origin" by (metis drop0)
  with assms(2) show False by simp
qed

lemma is_subdomain_parent:
  assumes sub: "is_subdomain wc origin" and ne: "wc \<noteq> origin"
  shows "parent wc = Inr (tl wc)" and "is_subdomain (tl wc) origin"
proof -
  from is_subdomain_longer [OF sub ne] have len: "length origin < length wc" .
  then obtain x t where wc: "wc = x # t" by (cases wc) auto
  from len wc have lt: "length origin \<le> length t" by simp
  from sub have abs: "is_absolute wc = is_absolute origin"
    and dr: "drop (length wc - length origin) wc = origin"
    unfolding is_subdomain_def by blast+
  from lt have "Suc (length t) - length origin = Suc (length t - length origin)" by simp
  with wc have "drop (length wc - length origin) wc = drop (length t - length origin) t"
    by simp
  with dr have dr': "drop (length t - length origin) t = origin" by metis
  have abs': "is_absolute t = is_absolute origin"
  proof (cases "t = []")
    case True
    with lt have "origin = []" by simp
    with True show ?thesis by (simp add: is_absolute_def)
  next
    case False
    with abs wc show ?thesis by (simp add: is_absolute_def)
  qed
  have "wc \<noteq> root"
  proof
    assume "wc = root"
    with wc have "t = []" "is_absolute wc" by (simp_all add: root_def is_absolute_def)
    with lt abs show False by (simp add: is_absolute_def)
  qed
  with wc show "parent wc = Inr (tl wc)" by (simp add: parent_def)
  from abs' dr' lt wc show "is_subdomain (tl wc) origin"
    unfolding is_subdomain_def by (metis list.sel(3))
qed

lemma ancestors_upto_self [simp]: "ancestors_upto origin origin = []"
  by (simp add: ancestors_upto_def)

lemma ancestors_upto_step:
  assumes sub: "is_subdomain wc origin" and ne: "wc \<noteq> origin"
  shows "ancestors_upto wc origin = tl wc # ancestors_upto (tl wc) origin"
proof -
  from is_subdomain_longer [OF sub ne] have len: "length origin < length wc" .
  define n where "n = length wc - length origin - 1"
  from len have n: "length wc - length origin = Suc n" by (simp add: n_def)
  have "[1..<Suc (Suc n)] = 1 # map Suc [1..<Suc n]"
    by (simp add: map_Suc_upt upt_conv_Cons del: upt_Suc)
  then have "ancestors_upto wc origin =
      drop 1 wc # map (\<lambda>k. drop (Suc k) wc) [1..<Suc n]"
    by (simp add: ancestors_upto_def n comp_def del: upt_Suc)
  also have "\<dots> = tl wc # map (\<lambda>k. drop k (tl wc)) [1..<Suc n]"
    by (simp add: drop_Suc)
  finally have "ancestors_upto wc origin = tl wc # map (\<lambda>k. drop k (tl wc)) [1..<Suc n]" .
  moreover have "ancestors_upto (tl wc) origin = map (\<lambda>k. drop k (tl wc)) [1..<Suc n]"
    by (simp add: ancestors_upto_def n_def del: upt_Suc)
  ultimately show ?thesis by simp
qed

text \<open>
  The wildcard of a parent is a name: below the origin every label of a name has an
  octet, so the wildcard label does not make the name longer.
\<close>

lemma name_octets_Nil [simp]: "name_octets [] = 0"
  by (simp add: name_octets_def)

lemma name_octets_Cons [simp]: "name_octets (x # t) = length x + 1 + name_octets t"
  by (simp add: name_octets_def)

lemma from_text_star_fits:
  "name_octets origin \<le> 253 \<Longrightarrow> from_text_star origin = Inr (''*'' # origin)"
  by (simp add: from_text_star_def)

lemma from_text_star_too_long:
  "253 < name_octets origin \<Longrightarrow> from_text_star origin = Inl NameTooLong"
  by (simp add: from_text_star_def)

lemma from_text_star_parent:
  assumes sub: "is_subdomain wc origin" and ne: "wc \<noteq> origin"
      and len: "name_octets wc \<le> 255" and labels: "[] \<notin> set (butlast wc)"
  shows "from_text_star (tl wc) = Inr (''*'' # tl wc)"
    and "name_octets (tl wc) \<le> 255" and "[] \<notin> set (butlast (tl wc))"
proof -
  from is_subdomain_longer [OF sub ne] have lo: "length origin < length wc" .
  then obtain x t where wc: "wc = x # t" by (cases wc) auto
  have x: "x \<noteq> []"
  proof (cases "t = []")
    case True
    with lo wc have "origin = []" by simp
    with sub have "\<not> is_absolute wc" by (simp add: is_subdomain_def is_absolute_def)
    with wc True show ?thesis by (simp add: is_absolute_def)
  next
    case False
    with wc labels show ?thesis by auto
  qed
  then have "1 \<le> length x" by (cases x) simp_all
  with len wc have "name_octets t \<le> 253" by simp
  with wc show "from_text_star (tl wc) = Inr (''*'' # tl wc)"
    by (simp add: from_text_star_fits)
  from len wc show "name_octets (tl wc) \<le> 255" by simp
  from labels wc show "[] \<notin> set (butlast (tl wc))"
    by (cases "t = []") auto
qed

lemma nx_wildcard_scan_result:
  assumes "is_subdomain wc origin" and "name_octets wc \<le> 255" and "[] \<notin> set (butlast wc)"
  shows "\<exists>found. nx_wildcard_scan v origin wc = Inr found
           \<and> (found = None \<longleftrightarrow> \<not> wildcard_covered v (ancestors_upto wc origin))
           \<and> (\<forall>w ns. found = Some (w, ns) \<longrightarrow> ns \<noteq> [] \<and> ns = nsec_covering_name v w)"
  using assms
proof (induction v origin wc rule: nx_wildcard_scan.induct)
  case (1 v origin wc)
  show ?case
  proof (cases "wc = origin")
    case True
    then show ?thesis
      by (simp add: nx_wildcard_scan.simps wildcard_covered_def)
  next
    case False
    note par = is_subdomain_parent [OF "1.prems"(1) False]
    note star = from_text_star_parent [OF "1.prems"(1) False "1.prems"(2,3)]
    note step = ancestors_upto_step [OF "1.prems"(1) False]
    show ?thesis
    proof (cases "nsec_covering_name v (''*'' # tl wc) = []")
      case True
      from "1.IH" [OF False par(1) star(1) refl _ par(2) star(2,3)] True
      obtain found where
        "nx_wildcard_scan v origin (tl wc) = Inr found"
        "found = None \<longleftrightarrow> \<not> wildcard_covered v (ancestors_upto (tl wc) origin)"
        "\<forall>w ns. found = Some (w, ns) \<longrightarrow> ns \<noteq> [] \<and> ns = nsec_covering_name v w"
        by auto
      with False par(1) star(1) True step show ?thesis
        by (subst nx_wildcard_scan.simps) (simp add: wildcard_covered_def)
    next
      case cov: False
      with False par(1) star(1) step show ?thesis
        by (subst nx_wildcard_scan.simps) (simp add: wildcard_covered_def Let_def)
    qed
  qed
qed

subsection \<open>NSECStatusNXDOMAIN and NSECStatusWildcard\<close>

lemmas example_view_defs = example_nsec_view_def example_nsec_view_origin_covered_def

lemmas record_ext_defs =
  nsec_nx_fields.extend_def nsec_nx_status.fields_def
  nsec_na_fields.extend_def nsec_na_status.fields_def
  nsec3_nx_fields.extend_def nsec3_nx_status.fields_def
  nsec3_na_fields.extend_def nsec3_na_status.fields_def

lemma NSECStatusNXDOMAIN_collect_fields:
  assumes "NSECStatusNXDOMAIN_collect qname origin v = Inr f"
  shows "nx_qname f = qname" "nx_origin f = origin" "nx_errors f = []" "nx_warnings f = []"
    "nx_nsec_names_covering_qname f =
       (if nsec_covering_name v qname \<noteq> [] then [(qname, nsec_covering_name v qname)] else [])"
    "nx_nsec_names_covering_origin f =
       (if nsec_covering_name v origin \<noteq> [] then [(origin, nsec_covering_name v origin)] else [])"
  using assms
  by (auto simp: NSECStatusNXDOMAIN_collect_def Let_def split: sum.splits)

lemma NSECStatusNXDOMAIN_collect_result:
  assumes "is_subdomain qname origin" and "is_name qname" and "name_octets origin \<le> 253"
  shows "\<exists>f. NSECStatusNXDOMAIN_collect qname origin v = Inr f
           \<and> (nx_nsec_names_covering_wildcard f = []
                \<longleftrightarrow> \<not> wildcard_covered v (ancestors_upto qname origin))
           \<and> (nx_nsec_names_covering_wildcard f = []
                \<longrightarrow> nx_wildcard_name f = ''*'' # origin)"
proof -
  from assms(2) have "name_octets qname \<le> 255" "[] \<notin> set (butlast qname)"
    by (simp_all add: is_name_def)
  from nx_wildcard_scan_result [OF assms(1) this, of v] obtain found where
    "nx_wildcard_scan v origin qname = Inr found"
    "found = None \<longleftrightarrow> \<not> wildcard_covered v (ancestors_upto qname origin)"
    by blast
  then show ?thesis
    by (cases found)
       (auto simp: NSECStatusNXDOMAIN_collect_def Let_def from_text_star_fits [OF assms(3)])
qed

text \<open>Line 363 raises when the origin leaves no room for the wildcard label.\<close>

lemma NSECStatusNXDOMAIN_init_too_long:
  "253 < name_octets origin \<Longrightarrow> NSECStatusNXDOMAIN_init qname rdtype origin v = Inl NameTooLong"
  by (simp add: NSECStatusNXDOMAIN_init_def NSECStatusNXDOMAIN_collect_def
        from_text_star_too_long)

text \<open>The error for an NSEC that covers the origin, when there is one and it can be read.\<close>

lemma NSECStatusNXDOMAIN_set_validation_status_result:
  assumes "NSECStatusNXDOMAIN_set_validation_status f v = Inr st"
  shows "nx_qname st = nx_qname f" "nx_origin st = nx_origin f"
    "nx_warnings st = nx_warnings f" "nx_wildcard_name st = nx_wildcard_name f"
    "nx_nsec_names_covering_qname st = nx_nsec_names_covering_qname f"
    "nx_nsec_names_covering_wildcard st = nx_nsec_names_covering_wildcard f"
    "nx_nsec_names_covering_origin st = nx_nsec_names_covering_origin f"
    "nx_validation_status st =
       (if nx_nsec_names_covering_qname f = [] \<or> nx_nsec_names_covering_wildcard f = []
           \<or> nx_nsec_names_covering_origin f \<noteq> []
        then NSEC_STATUS_INVALID else NSEC_STATUS_VALID)"
    "\<exists>tail. nx_errors st =
       nx_errors f
       @ (if nx_nsec_names_covering_qname f = [] then [SnameNotCoveredNameError (nx_qname f)] else [])
       @ (if nx_nsec_names_covering_wildcard f = []
          then [WildcardNotCoveredNSEC (nx_wildcard_name f)] else [])
       @ tail
       \<and> (if nx_nsec_names_covering_origin f \<noteq> []
          then \<exists>er. tail = [er]
                 \<and> last_nsec_next_not_zone v (nx_nsec_names_covering_origin f) (nx_origin f) = Inr er
          else tail = [])"
    "nx_nsec_set_info st =
       nsec_retain v (nx_validation_status st) (NSECStatusNXDOMAIN_covering_names st)"
  using assms
  by (auto simp: NSECStatusNXDOMAIN_set_validation_status_def Let_def record_ext_defs
        NSECStatusNXDOMAIN_covering_names_def split: sum.splits if_splits prod.splits)

text \<open>
  C6, as stated: the status is VALID exactly when an NSEC covers \<open>qname\<close>, an NSEC
  covers the wildcard of an ancestor strictly between \<open>qname\<close> and \<open>origin\<close>, and no
  NSEC covers the origin. For \<open>foo.example.\<close> in the zone \<open>example.\<close> no name lies
  strictly between; the proof that covers \<open>*.example.\<close> is VALID all the same. And
  not every evaluation has a status: for a \<open>qname\<close> outside the origin, with no wildcard
  covered on the way, the loop climbs past the root and \<^verbatim>\<open>parent()\<close> raises; for an
  origin of 254 octets, a name, line 363 raises \<^verbatim>\<open>NameTooLong\<close>.
\<close>

theorem C6_nsec_nxdomain_counterexample:
  "outcome (New_NSECStatusNXDOMAIN [''foo'', ''example'', []] 1 [''example'', []] example_nsec_view)
     = Inr (NSEC_STATUS_VALID, [])
   \<and> ancestors_strictly_between [''foo'', ''example'', []] [''example'', []] = []
   \<and> \<not> wildcard_covered example_nsec_view
         (ancestors_strictly_between [''foo'', ''example'', []] [''example'', []])
   \<and> outcome (New_NSECStatusNXDOMAIN [''foo'', ''example'', []] 1 [''other'', []]
                example_nsec_view_origin_covered)
       = Inl NoParent
   \<and> is_name example_long_origin
   \<and> name_octets example_long_origin = 254
   \<and> outcome (New_NSECStatusNXDOMAIN example_long_origin 1 example_long_origin
                example_nsec_view)
       = Inl NameTooLong"
  by (simp add: outcome_def NSECStatusNXDOMAIN_init_def NSECStatusNXDOMAIN_collect_def
        NSECStatusNXDOMAIN_set_validation_status_def nx_wildcard_scan.simps parent_def root_def
        from_text_star_def example_view_defs Let_def record_ext_defs
        NSECStatusNXDOMAIN_covering_names_def ancestors_strictly_between_def ancestors_upto_def
        wildcard_covered_def status_defs example_long_origin_def is_name_def)

text \<open>
  C6, amended: for every NSEC NXDOMAIN evaluation with a name \<open>qname\<close> at or below
  \<open>origin\<close>, an origin of at most 253 octets, so that its wildcard is a name (and, when
  an NSEC covers the origin, a first such NSEC that is an owner of the view with a
  record to read, giving the error \<open>e\<close>), the constructor returns; the status is
  VALID exactly when an NSEC covers \<open>qname\<close>, an NSEC covers the wildcard \<open>*.a\<close> of a
  proper ancestor \<open>a\<close> of \<open>qname\<close> up to and including \<open>origin\<close>, and no NSEC covers the
  origin; and the errors are exactly the errors of the failing conditions, in this
  order: SnameNotCoveredNameError, WildcardNotCoveredNSEC, LastNSECNextNotZone.
\<close>

theorem C6_nsec_nxdomain:
  assumes name: "is_name qname"
      and sub: "is_subdomain qname origin"
      and fits: "name_octets origin \<le> 253"
      and readable: "nsec_covering_name v origin = []
                     \<or> last_nsec_next_not_zone v [(origin, nsec_covering_name v origin)] origin = Inr e"
  shows "\<exists>st. NSECStatusNXDOMAIN_init qname rdtype origin v = Inr st
           \<and> (nx_validation_status st = NSEC_STATUS_VALID
                \<longleftrightarrow> nsec_covering_name v qname \<noteq> []
                    \<and> wildcard_covered v (ancestors_upto qname origin)
                    \<and> nsec_covering_name v origin = [])
           \<and> nx_validation_status st \<in> {NSEC_STATUS_VALID, NSEC_STATUS_INVALID}
           \<and> nx_errors st =
               (if nsec_covering_name v qname = [] then [SnameNotCoveredNameError qname] else [])
               @ (if \<not> wildcard_covered v (ancestors_upto qname origin)
                  then [WildcardNotCoveredNSEC (''*'' # origin)] else [])
               @ (if nsec_covering_name v origin \<noteq> [] then [e] else [])"
proof -
  from NSECStatusNXDOMAIN_collect_result [OF sub name fits, of v] obtain f where
    coll: "NSECStatusNXDOMAIN_collect qname origin v = Inr f"
    and cw: "nx_nsec_names_covering_wildcard f = []
               \<longleftrightarrow> \<not> wildcard_covered v (ancestors_upto qname origin)"
    and wn: "nx_nsec_names_covering_wildcard f = [] \<longrightarrow> nx_wildcard_name f = ''*'' # origin"
    by blast
  note fl = NSECStatusNXDOMAIN_collect_fields [OF coll]
  have "\<exists>st. NSECStatusNXDOMAIN_set_validation_status f v = Inr st"
    using readable
    by (auto simp: NSECStatusNXDOMAIN_set_validation_status_def Let_def fl
          split: sum.splits prod.splits)
  then obtain st where sv: "NSECStatusNXDOMAIN_set_validation_status f v = Inr st" ..
  note res = NSECStatusNXDOMAIN_set_validation_status_result [OF sv]
  have init: "NSECStatusNXDOMAIN_init qname rdtype origin v = Inr st"
    using coll sv by (simp add: NSECStatusNXDOMAIN_init_def)
  have status: "nx_validation_status st = NSEC_STATUS_VALID
                \<longleftrightarrow> nsec_covering_name v qname \<noteq> []
                    \<and> wildcard_covered v (ancestors_upto qname origin)
                    \<and> nsec_covering_name v origin = []"
    using cw by (simp add: res(8) fl status_defs)
  have errs: "nx_errors st =
               (if nsec_covering_name v qname = [] then [SnameNotCoveredNameError qname] else [])
               @ (if \<not> wildcard_covered v (ancestors_upto qname origin)
                  then [WildcardNotCoveredNSEC (''*'' # origin)] else [])
               @ (if nsec_covering_name v origin \<noteq> [] then [e] else [])"
  proof -
    from res(9) obtain tail where
      e0: "nx_errors st =
             nx_errors f
             @ (if nx_nsec_names_covering_qname f = []
                then [SnameNotCoveredNameError (nx_qname f)] else [])
             @ (if nx_nsec_names_covering_wildcard f = []
                then [WildcardNotCoveredNSEC (nx_wildcard_name f)] else [])
             @ tail"
      and t: "if nx_nsec_names_covering_origin f \<noteq> []
              then \<exists>er. tail = [er]
                     \<and> last_nsec_next_not_zone v (nx_nsec_names_covering_origin f) (nx_origin f) = Inr er
              else tail = []"
      by blast
    from t readable have "tail = (if nsec_covering_name v origin \<noteq> [] then [e] else [])"
      by (auto simp: fl split: if_splits)
    with e0 cw wn show ?thesis by (auto simp: fl)
  qed
  have "nx_validation_status st \<in> {NSEC_STATUS_VALID, NSEC_STATUS_INVALID}"
    by (simp add: res(8))
  with init status errs show ?thesis by blast
qed

theorem C6_nsec_nxdomain_witness:
  "is_name [''foo'', ''example'', []]
   \<and> is_subdomain [''foo'', ''example'', []] [''example'', []]
   \<and> name_octets [''example'', []] \<le> 253
   \<and> ancestors_upto [''foo'', ''example'', []] [''example'', []] = [[''example'', []]]
   \<and> outcome (New_NSECStatusNXDOMAIN [''foo'', ''example'', []] 1 [''example'', []] example_nsec_view)
       = Inr (NSEC_STATUS_VALID, [])
   \<and> outcome (New_NSECStatusNXDOMAIN [''foo'', ''example'', []] 1 [''example'', []]
                 example_nsec_view_origin_covered)
       = Inr (NSEC_STATUS_INVALID,
              [SnameNotCoveredNameError [''foo'', ''example'', []],
               WildcardNotCoveredNSEC [''*'', ''example'', []],
               LastNSECNextNotZone [''bar'', ''example'', []] [''zzz'', ''example'', []] [''example'', []]])"
proof -
  let ?e = "LastNSECNextNotZone [''bar'', ''example'', []] [''zzz'', ''example'', []] [''example'', []]"
  have name: "is_name [''foo'', ''example'', []]"
    by (simp add: is_name_def)
  have sub: "is_subdomain [''foo'', ''example'', []] [''example'', []]"
    by (simp add: is_subdomain_def is_absolute_def)
  have fits: "name_octets [''example'', []] \<le> 253"
    by simp
  have anc: "ancestors_upto [''foo'', ''example'', []] [''example'', []] = [[''example'', []]]"
    by (simp add: ancestors_upto_def)
  have readable: "nsec_covering_name example_nsec_view [''example'', []] = []
      \<or> last_nsec_next_not_zone example_nsec_view
           [([''example'', []], nsec_covering_name example_nsec_view [''example'', []])]
           [''example'', []] = Inr ?e"
    by (simp add: example_view_defs)
  have readable': "nsec_covering_name example_nsec_view_origin_covered [''example'', []] = []
      \<or> last_nsec_next_not_zone example_nsec_view_origin_covered
           [([''example'', []], nsec_covering_name example_nsec_view_origin_covered [''example'', []])]
           [''example'', []] = Inr ?e"
    by (simp add: example_view_defs last_nsec_next_not_zone_def)
  have valid: "outcome (New_NSECStatusNXDOMAIN [''foo'', ''example'', []] 1 [''example'', []]
                 example_nsec_view) = Inr (NSEC_STATUS_VALID, [])"
    using C6_nsec_nxdomain [OF name sub fits readable, of 1] anc
    by (auto simp: outcome_def wildcard_covered_def example_view_defs)
  have invalid: "outcome (New_NSECStatusNXDOMAIN [''foo'', ''example'', []] 1 [''example'', []]
                 example_nsec_view_origin_covered)
       = Inr (NSEC_STATUS_INVALID,
              [SnameNotCoveredNameError [''foo'', ''example'', []],
               WildcardNotCoveredNSEC [''*'', ''example'', []], ?e])"
    using C6_nsec_nxdomain [OF name sub fits readable', of 1] anc
    by (auto simp: outcome_def wildcard_covered_def example_view_defs
          status_defs)
  from name sub fits anc valid invalid show ?thesis by blast
qed

lemma parity_invalid_when: "parity se \<Longrightarrow> parity (invalid_when c e se)"
  by (simp add: parity_def invalid_when_def status_defs)

lemma parity_start [simp]: "parity (NSEC_STATUS_VALID, [])"
  by (simp add: parity_def status_defs)

lemma parity_invalid [simp]:
  "parity (NSEC_STATUS_INVALID, es @ [e])" "parity (NSEC_STATUS_INVALID, e # es)"
  by (simp_all add: parity_def status_defs)

lemma NSECStatusNXDOMAIN_init_result:
  assumes "NSECStatusNXDOMAIN_init qname rdtype origin v = Inr st"
  shows "parity (nx_validation_status st, nx_errors st)"
    and "nx_nsec_set_info st =
           nsec_retain v (nx_validation_status st) (NSECStatusNXDOMAIN_covering_names st)"
proof -
  from assms obtain f where
    coll: "NSECStatusNXDOMAIN_collect qname origin v = Inr f"
    and sv: "NSECStatusNXDOMAIN_set_validation_status f v = Inr st"
    by (auto simp: NSECStatusNXDOMAIN_init_def split: sum.splits)
  note fl = NSECStatusNXDOMAIN_collect_fields [OF coll]
  note res = NSECStatusNXDOMAIN_set_validation_status_result [OF sv]
  from res(9) show "parity (nx_validation_status st, nx_errors st)"
    by (auto simp: res(8) fl parity_def status_defs split: if_splits)
  from res(10) show "nx_nsec_set_info st =
           nsec_retain v (nx_validation_status st) (NSECStatusNXDOMAIN_covering_names st)" .
qed

lemma NSECStatusWildcard_set_validation_status2_result:
  assumes "NSECStatusWildcard_set_validation_status2 f v = Inr st" and "nx_errors f = []"
  shows "parity (nx_validation_status st, nx_errors st)"
    and "nx_nsec_set_info st =
           nsec_retain v (nx_validation_status st) (NSECStatusWildcard_covering_names st)"
  using assms
  by (auto simp: NSECStatusWildcard_set_validation_status2_def Let_def record_ext_defs
        NSECStatusWildcard_covering_names_def parity_def status_defs
        split: sum.splits if_splits prod.splits)

lemma NSECStatusWildcard_init_result:
  assumes "NSECStatusWildcard_init qname wildcard_name rdtype origin v = Inr st"
  shows "parity (nx_validation_status st, nx_errors st)"
    and "nx_nsec_set_info st =
           nsec_retain v (nx_validation_status st) (NSECStatusWildcard_covering_names st)"
proof -
  from assms obtain f where
    coll: "NSECStatusNXDOMAIN_collect qname origin v = Inr f"
    and sv: "NSECStatusWildcard_set_validation_status2
               (f\<lparr>nx_wildcard_name := wildcard_name, nx_nsec_names_covering_wildcard := []\<rparr>) v
             = Inr st"
    by (auto simp: NSECStatusWildcard_init_def split: sum.splits)
  from NSECStatusNXDOMAIN_collect_fields(3) [OF coll]
  have e: "nx_errors (f\<lparr>nx_wildcard_name := wildcard_name, nx_nsec_names_covering_wildcard := []\<rparr>) = []"
    by simp
  from NSECStatusWildcard_set_validation_status2_result [OF sv e]
  show "parity (nx_validation_status st, nx_errors st)"
    and "nx_nsec_set_info st =
           nsec_retain v (nx_validation_status st) (NSECStatusWildcard_covering_names st)"
    by blast+
qed

subsection \<open>NSECStatusNoAnswer\<close>

lemma NSECStatusNoAnswer_verdict_parity:
  assumes "NSECStatusNoAnswer_verdict f v = Inr se" and "na_errors f = []"
  shows "parity se"
  using assms
  by (auto simp: NSECStatusNoAnswer_verdict_def Let_def parity_invalid_when
        split: if_splits sum.splits)

lemma NSECStatusNoAnswer_collect_errors:
  assumes "NSECStatusNoAnswer_collect qname rdtype origin v = Inr f"
  shows "na_errors f = []"
  using assms
  by (auto simp: NSECStatusNoAnswer_collect_def Let_def split: sum.splits option.splits prod.splits)

text \<open>Line 550 raises when the origin leaves no room for the wildcard label.\<close>

lemma NSECStatusNoAnswer_init_too_long:
  "253 < name_octets origin \<Longrightarrow> NSECStatusNoAnswer_init qname rdtype origin v = Inl NameTooLong"
  by (simp add: NSECStatusNoAnswer_init_def NSECStatusNoAnswer_collect_def
        from_text_star_too_long)

lemma NSECStatusNoAnswer_init_result:
  assumes "NSECStatusNoAnswer_init qname rdtype origin v = Inr st"
  shows "parity (na_validation_status st, na_errors st)"
    and "na_nsec_set_info st =
           nsec_retain v (na_validation_status st) (NSECStatusNoAnswer_covering_names st)"
proof -
  from assms obtain f s es where
    coll: "NSECStatusNoAnswer_collect qname rdtype origin v = Inr f"
    and vd: "NSECStatusNoAnswer_verdict f v = Inr (s, es)"
    and st: "st = nsec_na_fields.extend (f\<lparr>na_errors := es\<rparr>)
                    (nsec_na_status.fields s
                       (nsec_retain v s (NSECStatusNoAnswer_covering_names f)))"
    by (auto simp: NSECStatusNoAnswer_init_def NSECStatusNoAnswer_set_validation_status_def
          split: sum.splits prod.splits)
  from NSECStatusNoAnswer_verdict_parity [OF vd NSECStatusNoAnswer_collect_errors [OF coll]]
  show "parity (na_validation_status st, na_errors st)"
    by (simp add: st record_ext_defs)
  show "na_nsec_set_info st =
           nsec_retain v (na_validation_status st) (NSECStatusNoAnswer_covering_names st)"
    by (simp add: st record_ext_defs NSECStatusNoAnswer_covering_names_def
          split: option.splits)
qed

subsection \<open>NSEC3StatusNXDOMAIN and NSEC3StatusWildcard\<close>

lemma append_invalid_alg_Nil [simp]:
  "append_invalid_alg invalid_algs es = [] \<longleftrightarrow> es = [] \<and> invalid_algs = []"
  "append_invalid_alg_once invalid_algs es = [] \<longleftrightarrow> es = [] \<and> invalid_algs = []"
  by (auto simp: append_invalid_alg_def append_invalid_alg_once_def split: list.splits)

lemma NSEC3StatusNXDOMAIN_verdict_parity:
  assumes "NSEC3StatusNXDOMAIN_verdict f v = Inr (s, es)" and "n3_errors f = []"
  shows "s = NSEC_STATUS_VALID \<longrightarrow> es = []"
    and "s \<noteq> NSEC_STATUS_VALID
         \<and> (fst (get_algorithm_support v) \<noteq> [] \<or> snd (get_algorithm_support v) \<noteq> [])
         \<longrightarrow> es \<noteq> []"
  using assms
  by (auto simp: NSEC3StatusNXDOMAIN_verdict_def status_defs
        split: prod.splits if_splits sum.splits option.splits)

lemma NSEC3StatusWildcard_verdict_parity:
  assumes "NSEC3StatusWildcard_verdict f v = Inr (s, es)" and "n3_errors f = []"
  shows "s = NSEC_STATUS_VALID \<longrightarrow> es = []"
    and "s \<noteq> NSEC_STATUS_VALID
         \<and> (fst (get_algorithm_support v) \<noteq> [] \<or> snd (get_algorithm_support v) \<noteq> [])
         \<longrightarrow> es \<noteq> []"
  using assms
  by (auto simp: NSEC3StatusWildcard_verdict_def status_defs
        split: prod.splits if_splits sum.splits option.splits)

lemma NSEC3StatusNXDOMAIN_collect_fields [simp]:
  "n3_errors (NSEC3StatusNXDOMAIN_collect qname w origin v ce m0) = []"
  "n3_qname (NSEC3StatusNXDOMAIN_collect qname w origin v ce m0) = qname"
  "n3_closest_encloser (NSEC3StatusNXDOMAIN_collect qname w origin v ce m0) = ce"
  by (simp_all add: NSEC3StatusNXDOMAIN_collect_def split: prod.splits)

lemma NSEC3StatusNXDOMAIN_init_result:
  assumes "NSEC3StatusNXDOMAIN_init qname rdtype origin v = Inr st"
  shows "n3_validation_status st = NSEC_STATUS_VALID \<longrightarrow> n3_errors st = []"
    and "n3_validation_status st \<noteq> NSEC_STATUS_VALID
         \<and> (fst (get_algorithm_support v) \<noteq> [] \<or> snd (get_algorithm_support v) \<noteq> [])
         \<longrightarrow> n3_errors st \<noteq> []"
    and "n3_nsec_set_info st =
           nsec_retain v (n3_validation_status st) (NSEC3StatusNXDOMAIN_covering_names st)"
proof -
  let ?f = "NSEC3StatusNXDOMAIN_collect qname None origin v
              (NSEC3StatusNXDOMAIN_set_closest_encloser v qname origin) []"
  from assms obtain s es where
    vd: "NSEC3StatusNXDOMAIN_verdict ?f v = Inr (s, es)"
    and st: "st = nsec3_nx_fields.extend (?f\<lparr>n3_errors := es\<rparr>)
                    (nsec3_nx_status.fields s
                       (nsec_retain v s (NSEC3StatusNXDOMAIN_covering_names ?f)))"
    by (auto simp: NSEC3StatusNXDOMAIN_init_def NSEC3StatusNXDOMAIN_set_validation_status_def
          split: sum.splits prod.splits)
  have e: "n3_errors ?f = []" by simp
  note par = NSEC3StatusNXDOMAIN_verdict_parity [OF vd e]
  from par(1) show "n3_validation_status st = NSEC_STATUS_VALID \<longrightarrow> n3_errors st = []"
    by (simp add: st record_ext_defs)
  from par(2) show "n3_validation_status st \<noteq> NSEC_STATUS_VALID
         \<and> (fst (get_algorithm_support v) \<noteq> [] \<or> snd (get_algorithm_support v) \<noteq> [])
         \<longrightarrow> n3_errors st \<noteq> []"
    by (simp add: st record_ext_defs)
  show "n3_nsec_set_info st =
           nsec_retain v (n3_validation_status st) (NSEC3StatusNXDOMAIN_covering_names st)"
    by (simp add: st record_ext_defs NSEC3StatusNXDOMAIN_covering_names_def)
qed

lemma NSEC3StatusWildcard_init_result:
  assumes "NSEC3StatusWildcard_init qname wildcard_name rdtype origin v = Inr st"
  shows "n3_validation_status st = NSEC_STATUS_VALID \<longrightarrow> n3_errors st = []"
    and "n3_validation_status st \<noteq> NSEC_STATUS_VALID
         \<and> (fst (get_algorithm_support v) \<noteq> [] \<or> snd (get_algorithm_support v) \<noteq> [])
         \<longrightarrow> n3_errors st \<noteq> []"
    and "n3_nsec_set_info st =
           nsec_retain v (n3_validation_status st) (NSEC3StatusWildcard_covering_names st)"
proof -
  from assms obtain ce m0 s es where
    vd: "NSEC3StatusWildcard_verdict
           (NSEC3StatusNXDOMAIN_collect qname (Some wildcard_name) origin v ce m0) v = Inr (s, es)"
    and st: "st = nsec3_nx_fields.extend
                    ((NSEC3StatusNXDOMAIN_collect qname (Some wildcard_name) origin v ce m0)
                       \<lparr>n3_errors := es\<rparr>)
                    (nsec3_nx_status.fields s
                       (nsec_retain v s
                          (NSEC3StatusWildcard_covering_names
                             (NSEC3StatusNXDOMAIN_collect qname (Some wildcard_name) origin v ce m0))))"
    by (auto simp: NSEC3StatusWildcard_init_def NSEC3StatusWildcard_set_validation_status_def
          split: sum.splits prod.splits)
  have e: "n3_errors (NSEC3StatusNXDOMAIN_collect qname (Some wildcard_name) origin v ce m0) = []"
    by simp
  note par = NSEC3StatusWildcard_verdict_parity [OF vd e]
  from par(1) show "n3_validation_status st = NSEC_STATUS_VALID \<longrightarrow> n3_errors st = []"
    by (simp add: st record_ext_defs)
  from par(2) show "n3_validation_status st \<noteq> NSEC_STATUS_VALID
         \<and> (fst (get_algorithm_support v) \<noteq> [] \<or> snd (get_algorithm_support v) \<noteq> [])
         \<longrightarrow> n3_errors st \<noteq> []"
    by (simp add: st record_ext_defs)
  show "n3_nsec_set_info st =
           nsec_retain v (n3_validation_status st) (NSEC3StatusWildcard_covering_names st)"
    by (simp add: st record_ext_defs NSEC3StatusWildcard_covering_names_def)
qed

text \<open>Without a supported algorithm no digest is computed, and nothing is found covered.\<close>

lemma no_digest_cached_empty [simp]: "no_digest_cached []"
  by (simp add: no_digest_cached_def)

lemma no_digest_cached_dummy [simp]: "no_digest_cached [(w, [(None, Some w')])]"
  by (simp add: no_digest_cached_def)

lemma no_digest_cached_set:
  assumes "no_digest_cached m"
  shows "no_digest_cached (digest_map_set m n (Some p) None)"
  using assms
  by (auto simp: no_digest_cached_def digest_map_set_def update_conv split: if_splits option.splits)

lemma no_digests:
  assumes "digests_need_support v" and "fst (get_algorithm_support v) = []"
      and "p \<in> fst ` set (nsec3_params v)"
  shows "digest_for v n origin p = None"
proof -
  from assms(3) obtain names where "(p, names) \<in> set (nsec3_params v)" by auto
  with assms(1,2) show ?thesis
    unfolding digests_need_support_def digest_for_def
    by (cases p) fastforce
qed

lemma nsec3_qname_digests_no_digest:
  assumes "\<And>p. p \<in> fst ` set params \<Longrightarrow> digest_for v qname origin p = None"
      and "no_digest_cached m"
  shows "no_digest_cached (fold (\<lambda>(p, nsec3_names) m.
            digest_map_set m qname (Some p) (digest_for v qname origin p)) params m)"
  using assms
  by (induction params arbitrary: m) (auto simp: no_digest_cached_set)

lemma nsec3_nx_step_no_digest:
  assumes "\<And>n. digest_for v n origin p = None" and "no_digest_cached m"
  shows "\<exists>m'. nsec3_nx_step v qname origin encloser p (m, cq, cw) = (m', cq, cw)
              \<and> no_digest_cached m'"
proof -
  let ?nce = "nsec3_next_closest_encloser qname encloser"
  have d: "(case map_of m ?nce of
              None \<Rightarrow> digest_for v ?nce origin p
            | Some inner \<Rightarrow>
                (case map_of inner (Some p) of
                   None \<Rightarrow> digest_for v ?nce origin p
                 | Some d \<Rightarrow> d)) = None"
  proof (cases "map_of m ?nce")
    case None
    then show ?thesis by (simp add: assms(1))
  next
    case (Some inner)
    show ?thesis
    proof (cases "map_of inner (Some p)")
      case None
      with Some show ?thesis by (simp add: assms(1))
    next
      case inner_d: (Some d)
      from assms(2) Some inner_d have "d = None"
        unfolding no_digest_cached_def by blast
      with Some inner_d show ?thesis by simp
    qed
  qed
  show ?thesis
    by (simp add: nsec3_nx_step_def Let_def d assms(1) record_covering_def
          no_digest_cached_set [OF no_digest_cached_set [OF assms(2)]])
qed

lemma nsec3_nx_params_no_digest:
  assumes "\<And>n p. p \<in> fst ` set params \<Longrightarrow> digest_for v n origin p = None"
      and "no_digest_cached m"
  shows "\<exists>m'. fold (\<lambda>(p, nsec3_names) st. nsec3_nx_step v qname origin encloser p st) params
                 (m, cq, cw) = (m', cq, cw)
              \<and> no_digest_cached m'"
  using assms
proof (induction params arbitrary: m)
  case Nil
  then show ?case by simp
next
  case (Cons pn params)
  obtain p names where pn: "pn = (p, names)" by (cases pn)
  from Cons.prems(1) pn have here: "\<And>n. digest_for v n origin p = None" by simp
  from nsec3_nx_step_no_digest [OF here Cons.prems(2), of qname encloser cq cw]
  obtain m1 where s: "nsec3_nx_step v qname origin encloser p (m, cq, cw) = (m1, cq, cw)"
    and m1: "no_digest_cached m1" by blast
  from Cons.prems(1)
  have "\<And>n p. p \<in> fst ` set params \<Longrightarrow> digest_for v n origin p = None" by simp
  from Cons.IH [OF this m1] s pn show ?case by simp
qed

lemma nsec3_nx_loops_no_digest:
  assumes "\<And>n p. p \<in> fst ` set (nsec3_params v) \<Longrightarrow> digest_for v n origin p = None"
      and "no_digest_cached m"
  shows "\<exists>m'. nsec3_nx_loops v qname origin ce (m, cq, cw) = (m', cq, cw) \<and> no_digest_cached m'"
  using assms(2) unfolding nsec3_nx_loops_def
proof (induction ce arbitrary: m)
  case Nil
  then show ?case by simp
next
  case (Cons en ce)
  obtain encloser names where en: "en = (encloser, names)" by (cases en)
  from nsec3_nx_params_no_digest
         [where params = "nsec3_params v" and v = v and origin = origin and m = m
            and qname = qname and encloser = encloser and cq = cq and cw = cw,
          OF assms(1) Cons.prems]
  obtain m1 where
    s: "fold (\<lambda>(p, nsec3_names) st. nsec3_nx_step v qname origin encloser p st) (nsec3_params v)
          (m, cq, cw) = (m1, cq, cw)"
    and m1: "no_digest_cached m1" by blast
  from Cons.IH [OF m1] s en show ?case by simp
qed

lemma NSEC3StatusNXDOMAIN_collect_no_digest:
  assumes "\<And>n p. p \<in> fst ` set (nsec3_params v) \<Longrightarrow> digest_for v n origin p = None"
      and "no_digest_cached m0"
  shows "n3_nsec_names_covering_qname (NSEC3StatusNXDOMAIN_collect qname w origin v ce m0) = []"
    and "n3_nsec_names_covering_wildcard (NSEC3StatusNXDOMAIN_collect qname w origin v ce m0) = []"
proof -
  have "no_digest_cached (nsec3_qname_digests v qname origin m0)"
    unfolding nsec3_qname_digests_def
    by (rule nsec3_qname_digests_no_digest [OF assms])
  from nsec3_nx_loops_no_digest [OF assms(1) this, of qname ce "[]" "[]"]
  obtain m' where
    "nsec3_nx_loops v qname origin ce (nsec3_qname_digests v qname origin m0, [], []) = (m', [], [])"
    by blast
  then show
    "n3_nsec_names_covering_qname (NSEC3StatusNXDOMAIN_collect qname w origin v ce m0) = []"
    "n3_nsec_names_covering_wildcard (NSEC3StatusNXDOMAIN_collect qname w origin v ce m0) = []"
    by (simp_all add: NSEC3StatusNXDOMAIN_collect_def)
qed

text \<open>
  C7: for every NSEC3 NXDOMAIN evaluation where the view reports no valid algorithm and
  at least one invalid algorithm (and, as the interface of the view says, computes no
  digest for an algorithm that is not supported), the constructor returns, the status is
  INVALID, and the errors are UnsupportedNSEC3Algorithm, once, and nothing else: no
  NoClosestEncloserNameError, NextClosestEncloserNotCoveredNameError or
  WildcardNotCoveredNSEC3.
\<close>

theorem C7_nsec3_unsupported_algorithm:
  assumes algs: "get_algorithm_support v = ([], a # invalid_algs)"
      and contract: "digests_need_support v"
  shows "\<exists>st. NSEC3StatusNXDOMAIN_init qname rdtype origin v = Inr st
           \<and> n3_validation_status st = NSEC_STATUS_INVALID
           \<and> n3_errors st = [UnsupportedNSEC3Algorithm a]"
proof -
  let ?f = "NSEC3StatusNXDOMAIN_collect qname None origin v
              (NSEC3StatusNXDOMAIN_set_closest_encloser v qname origin) []"
  from algs have "fst (get_algorithm_support v) = []" by simp
  from no_digests [OF contract this]
  have nd: "\<And>n p. p \<in> fst ` set (nsec3_params v) \<Longrightarrow> digest_for v n origin p = None" .
  note cov = NSEC3StatusNXDOMAIN_collect_no_digest [OF nd no_digest_cached_empty]
  have "NSEC3StatusNXDOMAIN_verdict ?f v = Inr (NSEC_STATUS_INVALID, [UnsupportedNSEC3Algorithm a])"
    by (simp add: NSEC3StatusNXDOMAIN_verdict_def algs cov append_invalid_alg_def
          append_invalid_alg_once_def)
  then show ?thesis
    by (simp add: NSEC3StatusNXDOMAIN_init_def NSEC3StatusNXDOMAIN_set_validation_status_def
          record_ext_defs)
qed

theorem C7_nsec3_unsupported_algorithm_witness:
  "get_algorithm_support example_nsec3_view_unsupported = ([], [99])
   \<and> digests_need_support example_nsec3_view_unsupported
   \<and> outcome (New_NSEC3StatusNXDOMAIN [''foo'', ''example'', []] 1 [''example'', []]
                 example_nsec3_view_unsupported)
       = Inr (NSEC_STATUS_INVALID, [UnsupportedNSEC3Algorithm 99])"
proof -
  have algs: "get_algorithm_support example_nsec3_view_unsupported = ([], [99])"
    by (simp add: example_nsec3_view_unsupported_def)
  have contract: "digests_need_support example_nsec3_view_unsupported"
    by (simp add: example_nsec3_view_unsupported_def digests_need_support_def)
  from C7_nsec3_unsupported_algorithm [OF algs contract, of "[''foo'', ''example'', []]" 1 "[''example'', []]"]
    algs contract
  show ?thesis by (auto simp: outcome_def)
qed

subsection \<open>NSEC3StatusNoAnswer\<close>

lemma n3a_inputs_wildcard_step [simp]:
  "n3a_inputs (n3a_wildcard_step v p nsec3_names encloser f) = n3a_inputs f"
  by (simp add: n3a_inputs_def n3a_wildcard_step_def Let_def split: option.splits)

lemma n3a_inputs_match_qname [simp]: "n3a_inputs (n3a_match_qname v dn f) = n3a_inputs f"
  by (simp add: n3a_inputs_def n3a_match_qname_def)

lemma n3a_inputs_cover_step [simp]: "n3a_inputs (n3a_cover_step v p encloser f) = n3a_inputs f"
  by (simp add: n3a_inputs_def n3a_cover_step_def Let_def)

lemma n3a_inputs_fold:
  assumes "\<And>x f. n3a_inputs (g x f) = n3a_inputs f"
  shows "n3a_inputs (fold g xs f) = n3a_inputs f"
  by (induction xs arbitrary: f) (simp_all add: assms)

lemma n3a_inputs_digest_map_update [simp]:
  "n3a_inputs (f\<lparr>n3a_name_digest_map := m\<rparr>) = n3a_inputs f"
  by (simp add: n3a_inputs_def)

lemma n3a_inputs_wildcard_fold [simp]:
  "n3a_inputs (fold (\<lambda>(encloser, ns) f. n3a_wildcard_step v p nsec3_names encloser f) ce f) =
     n3a_inputs f"
  by (rule n3a_inputs_fold) (simp add: split_def)

lemma n3a_inputs_cover_fold [simp]:
  "n3a_inputs (fold (\<lambda>(encloser, ns) f. n3a_cover_step v p encloser f) ce f) = n3a_inputs f"
  by (rule n3a_inputs_fold) (simp add: split_def)

lemma n3a_inputs_loop1 [simp]: "n3a_inputs (n3a_loop1 v f) = n3a_inputs f"
  unfolding n3a_loop1_def
  by (rule n3a_inputs_fold) clarsimp

lemma n3a_inputs_loop2:
  assumes "n3a_loop2 v params f = Inr f'"
  shows "n3a_inputs f' = n3a_inputs f"
  using assms
proof (induction params arbitrary: f)
  case Nil
  then show ?case by simp
next
  case (Cons pn params)
  obtain p names where pn: "pn = (p, names)" by (cases pn)
  from Cons.prems pn obtain f1 where
    "n3a_loop2 v params f1 = Inr f'" and "n3a_inputs f1 = n3a_inputs f"
    by (auto split: option.splits if_splits)
  with Cons.IH show ?case by simp
qed

lemma NSEC3StatusNoAnswer_collect_fields:
  assumes "NSEC3StatusNoAnswer_collect qname rdtype origin v = Inr f"
  shows "n3a_qname f = qname" "n3a_rdtype f = rdtype" "n3a_origin f = origin"
    "n3a_referral f = referral v" "n3a_wildcard_name f = None" "n3a_warnings f = []"
    "n3a_errors f = []" "n3a_closest_encloser f = get_closest_encloser v qname origin"
    "n3a_opt_out f = False"
proof -
  let ?f0 = "\<lparr>n3a_qname = qname, n3a_rdtype = rdtype, n3a_origin = origin,
           n3a_referral = referral v, n3a_wildcard_name = None,
           n3a_warnings = [], n3a_errors = [], n3a_name_digest_map = [],
           n3a_closest_encloser = get_closest_encloser v qname origin,
           n3a_nsec_names_covering_qname = [], n3a_nsec_names_covering_wildcard = [],
           n3a_nsec_for_qname = [], n3a_nsec_for_wildcard_name = [],
           n3a_has_rdtype = False, n3a_has_cname = False, n3a_has_ns = False,
           n3a_has_ds = False, n3a_has_soa = False, n3a_opt_out = False,
           n3a_wildcard_has_rdtype = False, n3a_wildcard_has_cname = False\<rparr>"
  from n3a_inputs_loop2 [OF assms [unfolded NSEC3StatusNoAnswer_collect_def]]
  have "n3a_inputs f = n3a_inputs ?f0" by simp
  then show "n3a_qname f = qname" "n3a_rdtype f = rdtype" "n3a_origin f = origin"
    "n3a_referral f = referral v" "n3a_wildcard_name f = None" "n3a_warnings f = []"
    "n3a_errors f = []" "n3a_closest_encloser f = get_closest_encloser v qname origin"
    "n3a_opt_out f = False"
    by (simp_all add: n3a_inputs_def)
qed

lemma opt_out_scan_result:
  assumes "list_all (readable v) names"
  shows "opt_out_scan v names acc = Inr (acc \<or> list_ex (has_opt_out v) names)"
  using assms
  by (induction names arbitrary: acc)
     (auto simp: readable_def has_opt_out_def split: option.splits list.splits)

lemma NSEC3StatusNoAnswer_verdict_parity:
  assumes "NSEC3StatusNoAnswer_verdict f v = Inr (s, es, oo)" and "n3a_errors f = []"
  shows "s = NSEC_STATUS_VALID \<longrightarrow> es = []"
    and "s \<noteq> NSEC_STATUS_VALID
         \<and> (fst (get_algorithm_support v) \<noteq> [] \<or> snd (get_algorithm_support v) \<noteq> [])
         \<longrightarrow> es \<noteq> []"
  using assms
  by (auto simp: NSEC3StatusNoAnswer_verdict_def Let_def invalid_when_def status_defs
        split: prod.splits if_splits sum.splits option.splits)

lemma NSEC3StatusNoAnswer_init_result:
  assumes "NSEC3StatusNoAnswer_init qname rdtype origin v = Inr st"
  shows "n3a_validation_status st = NSEC_STATUS_VALID \<longrightarrow> n3a_errors st = []"
    and "n3a_validation_status st \<noteq> NSEC_STATUS_VALID
         \<and> (fst (get_algorithm_support v) \<noteq> [] \<or> snd (get_algorithm_support v) \<noteq> [])
         \<longrightarrow> n3a_errors st \<noteq> []"
    and "n3a_nsec_set_info st =
           nsec_retain v (n3a_validation_status st) (NSEC3StatusNoAnswer_covering_names st)"
proof -
  from assms obtain f s es oo where
    coll: "NSEC3StatusNoAnswer_collect qname rdtype origin v = Inr f"
    and vd: "NSEC3StatusNoAnswer_verdict f v = Inr (s, es, oo)"
    and st: "st = nsec3_na_fields.extend (f\<lparr>n3a_errors := es, n3a_opt_out := oo\<rparr>)
                    (nsec3_na_status.fields s
                       (nsec_retain v s (NSEC3StatusNoAnswer_covering_names f)))"
    by (auto simp: NSEC3StatusNoAnswer_init_def NSEC3StatusNoAnswer_set_validation_status_def
          split: sum.splits prod.splits)
  note par = NSEC3StatusNoAnswer_verdict_parity [OF vd NSEC3StatusNoAnswer_collect_fields(7) [OF coll]]
  from par(1) show "n3a_validation_status st = NSEC_STATUS_VALID \<longrightarrow> n3a_errors st = []"
    by (simp add: st record_ext_defs)
  from par(2) show "n3a_validation_status st \<noteq> NSEC_STATUS_VALID
         \<and> (fst (get_algorithm_support v) \<noteq> [] \<or> snd (get_algorithm_support v) \<noteq> [])
         \<longrightarrow> n3a_errors st \<noteq> []"
    by (simp add: st record_ext_defs)
  show "n3a_nsec_set_info st =
           nsec_retain v (n3a_validation_status st) (NSEC3StatusNoAnswer_covering_names st)"
    by (simp add: st record_ext_defs NSEC3StatusNoAnswer_covering_names_def)
qed

text \<open>
  C8: for every NSEC3 NODATA evaluation with \<open>rdtype = DS\<close> where, after the loops of the
  constructor, no NSEC3 matches the hash of \<open>qname\<close> (\<open>nsec_for_qname\<close> is empty), none
  matches a wildcard of the closest encloser (\<open>nsec_for_wildcard_name\<close> is empty), and
  some NSEC3 covering the next-closer hash has the opt-out bit (every covering name being
  an owner of the view with a record to read), the constructor returns, the status is
  VALID, the errors are empty and \<open>opt_out\<close> is true.
\<close>

theorem C8_nsec3_nodata_ds_opt_out:
  assumes coll: "NSEC3StatusNoAnswer_collect qname rdatatype_DS origin v = Inr f"
      and no_match: "n3a_nsec_for_qname f = []"
      and no_wildcard: "n3a_nsec_for_wildcard_name f = []"
      and records: "list_all (readable v) (dict_values_union (n3a_nsec_names_covering_qname f))"
      and opt_out: "list_ex (has_opt_out v) (dict_values_union (n3a_nsec_names_covering_qname f))"
  shows "\<exists>st. NSEC3StatusNoAnswer_init qname rdatatype_DS origin v = Inr st
           \<and> n3a_validation_status st = NSEC_STATUS_VALID
           \<and> n3a_errors st = []
           \<and> n3a_opt_out st"
proof -
  note fl = NSEC3StatusNoAnswer_collect_fields [OF coll]
  from opt_out have ne: "n3a_nsec_names_covering_qname f \<noteq> []"
    by (auto simp: dict_values_union_def)
  have "NSEC3StatusNoAnswer_verdict f v = Inr (NSEC_STATUS_VALID, [], True)"
    using no_match no_wildcard ne opt_out
    by (simp add: NSEC3StatusNoAnswer_verdict_def Let_def fl opt_out_scan_result [OF records]
          split: prod.splits)
  with coll show ?thesis
    by (simp add: NSEC3StatusNoAnswer_init_def NSEC3StatusNoAnswer_set_validation_status_def
          record_ext_defs)
qed

lemmas nsec3_noanswer_eval =
  NSEC3StatusNoAnswer_collect_def n3a_loop1_def n3a_wildcard_step_def n3a_cover_step_def
  n3a_match_qname_def digest_map_set_def digest_for_def covering_for_def record_covering_def
  nsec3_next_closest_encloser_def last_labels_def nsec3_get_wildcard_def set_add_def
  example_nsec3_view_def Let_def

theorem C8_nsec3_nodata_ds_opt_out_witness:
  "\<exists>st. NSEC3StatusNoAnswer_init [''foo'', ''example'', []] rdatatype_DS [''example'', []]
          (example_nsec3_view [[''hapex'', ''example'', []], [''hcover'', ''example'', []]]
             [[''hcover'', ''example'', []]] 1) = Inr st
        \<and> n3a_nsec_for_qname st = []
        \<and> n3a_nsec_for_wildcard_name st = []
        \<and> n3a_nsec_names_covering_qname st =
            [([''hfoo'', ''example'', []], [[''hcover'', ''example'', []]])]
        \<and> n3a_validation_status st = NSEC_STATUS_VALID
        \<and> n3a_errors st = []
        \<and> n3a_opt_out st"
proof -
  let ?v = "example_nsec3_view [[''hapex'', ''example'', []], [''hcover'', ''example'', []]]
              [[''hcover'', ''example'', []]] 1"
  let ?q = "[''foo'', ''example'', []]"
  let ?o = "[''example'', []]"
  have "\<exists>f. NSEC3StatusNoAnswer_collect ?q rdatatype_DS ?o ?v = Inr f
          \<and> n3a_nsec_for_qname f = []
          \<and> n3a_nsec_for_wildcard_name f = []
          \<and> n3a_nsec_names_covering_qname f =
              [([''hfoo'', ''example'', []], [[''hcover'', ''example'', []]])]"
    by (simp add: nsec3_noanswer_eval)
  then obtain f where
    coll: "NSEC3StatusNoAnswer_collect ?q rdatatype_DS ?o ?v = Inr f"
    and nq: "n3a_nsec_for_qname f = []"
    and nw: "n3a_nsec_for_wildcard_name f = []"
    and cq: "n3a_nsec_names_covering_qname f =
              [([''hfoo'', ''example'', []], [[''hcover'', ''example'', []]])]"
    by blast
  have records: "list_all (readable ?v) (dict_values_union (n3a_nsec_names_covering_qname f))"
    by (simp add: cq dict_values_union_def readable_def example_nsec3_view_def)
  have opt_out: "list_ex (has_opt_out ?v) (dict_values_union (n3a_nsec_names_covering_qname f))"
    by (simp add: cq dict_values_union_def has_opt_out_def example_nsec3_view_def)
  from C8_nsec3_nodata_ds_opt_out [OF coll nq nw records opt_out]
  obtain st where
    init: "NSEC3StatusNoAnswer_init ?q rdatatype_DS ?o ?v = Inr st"
    and res: "n3a_validation_status st = NSEC_STATUS_VALID" "n3a_errors st = []" "n3a_opt_out st"
    by blast
  from init coll have "n3a_nsec_for_qname st = n3a_nsec_for_qname f"
    "n3a_nsec_for_wildcard_name st = n3a_nsec_for_wildcard_name f"
    "n3a_nsec_names_covering_qname st = n3a_nsec_names_covering_qname f"
    by (auto simp: NSEC3StatusNoAnswer_init_def NSEC3StatusNoAnswer_set_validation_status_def
          record_ext_defs split: sum.splits prod.splits)
  with init res nq nw cq show ?thesis by simp
qed

text \<open>
  C4: constructing NSEC3StatusNoAnswer never raises; in particular, with a matching
  wildcard NSEC3, no NSEC3 matching or covering \<open>qname\<close> and a valid algorithm, it records
  NextClosestEncloserNotCoveredWildcardNoData. The code does not: line 1127 evaluates the
  name \<open>next_closest_encloser\<close>, which is bound nowhere, and the constructor ends in
  \<open>NameError\<close>. Here the view holds the NSEC3 records of the origin and of \<open>*.example.\<close>
  and nothing covers the next closer name. In the same branch line 1132 calls a method
  of \<open>self.wildcard_name\<close>, which is \<open>None\<close>: with a covered next closer name and the
  queried type in the bitmap of the wildcard, the constructor ends in \<open>AttributeError\<close>.
\<close>

theorem C4_nsec3_nodata_wildcard_raises:
  "outcome (New_NSEC3StatusNoAnswer [''foo'', ''example'', []] 1 [''example'', []]
              (example_nsec3_view [[''hapex'', ''example'', []], [''hwild'', ''example'', []]] [] 0))
     = Inl NameError
   \<and> outcome (New_NSEC3StatusNoAnswer [''foo'', ''example'', []] 1 [''example'', []]
                ((example_nsec3_view [[''hapex'', ''example'', []], [''hwild'', ''example'', []]]
                    [[''hapex'', ''example'', []]] 0)
                   \<lparr>rdtype_exists_in_bitmap := (\<lambda>n t. t = 1)\<rparr>))
     = Inl AttributeError"
  by (simp add: outcome_def NSEC3StatusNoAnswer_init_def nsec3_noanswer_eval
        NSEC3StatusNoAnswer_set_validation_status_def NSEC3StatusNoAnswer_verdict_def
        rdatatype_DS_def rdatatype_CNAME_def rdatatype_NS_def rdatatype_SOA_def)

subsection \<open>CNAMEFromDNAMEStatus and serialization\<close>

lemma CNAMEFromDNAMEStatus_init_result:
  assumes "CNAMEFromDNAMEStatus_init synthesized_cname included_cname = Inr st"
  shows "parity (cd_validation_status st, cd_errors st)"
  using assms
  by (auto simp: CNAMEFromDNAMEStatus_init_def parity_def status_defs
        split: option.splits list.splits if_splits)

lemmas cname_example_defs =
  example_synthesized_cname_def example_included_cname_def example_cname_status_def

lemmas serialize_defs =
  set_key_if_def exn_bind_def set_status_if_def set_warnings_errors_def serialized_keys_def
  logging_DEBUG_def logging_INFO_def logging_WARNING_def logging_ERROR_def

text \<open>
  C9: \<open>serialize\<close> includes the keys \<open>description\<close> and \<open>status\<close> exactly when
  \<open>loglevel <= INFO\<close> or \<open>show_basic\<close> holds. \<open>CNAMEFromDNAMEStatus.serialize\<close> does not:
  line 1318 puts \<open>status\<close> under \<open>loglevel <= INFO\<close> or a status other than VALID. The
  object constructed for a CNAME with the synthesized target and another TTL is VALID
  with the warning DNAMETTLMismatch; at the level WARNING \<open>show_basic\<close> holds, and the
  dictionary has \<open>description\<close>, \<open>servers\<close> and \<open>warnings\<close>, without \<open>status\<close>.
\<close>

theorem C9_cname_serialize_without_status:
  "CNAMEFromDNAMEStatus_init example_synthesized_cname (Some example_included_cname)
     = Inr example_cname_status
   \<and> CNAMEFromDNAMEStatus_show_basic example_cname_status logging_WARNING
   \<and> serialized_keys (CNAMEFromDNAMEStatus_serialize example_cname_status None True logging_WARNING)
       = Inr [''description'', ''servers'', ''warnings'']"
  by (simp add: CNAMEFromDNAMEStatus_init_def cname_example_defs
        CNAMEFromDNAMEStatus_show_basic_def CNAMEFromDNAMEStatus_serialize_def
        CNAMEFromDNAMEStatus_meta_key_def CNAMEFromDNAMEStatus_dname_key_def
        serialize_defs status_defs)

subsection \<open>Status and errors of every evaluator\<close>

lemma DSStatus_init_result:
  assumes "DSStatus_init validate_ds_digest ds ds_meta dnskey dau = Inr st"
  shows "ds_validation_status st = DS_STATUS_VALID \<longrightarrow> ds_errors st = []"
    and "ds_validation_status st \<in> {DS_STATUS_INVALID_DIGEST, DS_STATUS_INVALID}
         \<longrightarrow> ds_errors st \<noteq> []"
  using assms
  by (cases dnskey; auto simp: ds_steps status_defs split: if_splits)+

lemma rrsig_parity_signer:
  "rrsig_parity (rs_validation_status st, rs_errors st)
   \<Longrightarrow> rrsig_parity (rs_validation_status (rrsig_check_signer st), rs_errors (rrsig_check_signer st))"
  by (auto simp: rrsig_parity_def status_defs ttl_error_def)

lemma rrsig_parity_revoke:
  "rrsig_parity (rs_validation_status st, rs_errors st)
   \<Longrightarrow> rrsig_parity (rs_validation_status (rrsig_check_revoke st), rs_errors (rrsig_check_revoke st))"
  by (auto simp: rrsig_parity_def status_defs ttl_error_def rrsig_check_revoke_errors
        rrsig_check_revoke_status split: option.splits if_splits)

lemma rrsig_parity_window:
  "rrsig_parity (rs_validation_status st, rs_errors st)
   \<Longrightarrow> rrsig_parity (rs_validation_status (rrsig_check_window m st),
                       rs_errors (rrsig_check_window m st))"
  by (auto simp: rrsig_parity_def status_defs ttl_error_def rrsig_window_errors_def
        split: if_splits)

lemma rrsig_parity_verdict:
  assumes "rrsig_check_verdict st = Inr st'"
      and "rrsig_parity (rs_validation_status st, rs_errors st)"
  shows "rrsig_parity (rs_validation_status st', rs_errors st')"
  using assms
  by (auto simp: rrsig_parity_def status_defs ttl_error_def rrsig_check_verdict_cases
        split: option.splits if_splits)

lemma RRSIGStatus_init_result:
  assumes "RRSIGStatus_init validate_rrsig rrset rrsig dnskey zone_name ts au = Inr st"
  shows "rrsig_parity (rs_validation_status st, rs_errors st)"
proof (cases "rrsig_info rrset rrsig")
  case None
  with assms show ?thesis
    by (simp add: RRSIGStatus_init_def Let_def rrsig_check_ttl_None)
next
  case (Some info)
  from rrsig_after_ttl [OF Some, where dnskey = dnskey and validate_rrsig = validate_rrsig
                          and zone_name = zone_name and ts = ts and au = au]
  obtain st2 m where
    init: "RRSIGStatus_init validate_rrsig rrset rrsig dnskey zone_name ts au =
             rrsig_check_verdict (rrsig_check_window m (rrsig_check_revoke (rrsig_check_signer st2)))"
    and s2: "rs_validation_status st2 =
             (if rrsig_signature_valid validate_rrsig rrset rrsig dnskey = None \<or> au
              then (if dnskey = None then RRSIG_STATUS_INDETERMINATE_NO_DNSKEY
                    else RRSIG_STATUS_INDETERMINATE_UNKNOWN_ALGORITHM)
              else RRSIG_STATUS_VALID)"
    and e2: "rs_errors st2 =
             (if rrsig_info_ttl info > rrsig_original_ttl rrsig
              then [OriginalTTLExceeded (rrset_ttl rrset) (rrsig_original_ttl rrsig)] else [])"
    by blast
  have "rrsig_parity (rs_validation_status st2, rs_errors st2)"
    by (simp add: s2 e2 rrsig_parity_def status_defs ttl_error_def)
  from rrsig_parity_window [OF rrsig_parity_revoke [OF rrsig_parity_signer [OF this]], of m]
    assms [unfolded init]
  show ?thesis by (rule rrsig_parity_verdict [rotated])
qed

lemma construct_cases:
  assumes "construct call = Inr obj"
  obtains
    (RRSIG) validate_rrsig rrset rrsig dnskey zone_name ts au st where
      "call = New_RRSIGStatus validate_rrsig rrset rrsig dnskey zone_name ts au"
      "RRSIGStatus_init validate_rrsig rrset rrsig dnskey zone_name ts au = Inr st"
      "obj = RRSIGStatus st"
  | (DS) validate_ds_digest ds ds_meta dnskey dau st where
      "call = New_DSStatus validate_ds_digest ds ds_meta dnskey dau"
      "DSStatus_init validate_ds_digest ds ds_meta dnskey dau = Inr st"
      "obj = DSStatus st"
  | (NSEC_NXDOMAIN) qname rdtype origin v st where
      "call = New_NSECStatusNXDOMAIN qname rdtype origin v"
      "NSECStatusNXDOMAIN_init qname rdtype origin v = Inr st"
      "obj = NSECStatusNXDOMAIN st"
  | (NSEC_Wildcard) qname wildcard_name rdtype origin v st where
      "call = New_NSECStatusWildcard qname wildcard_name rdtype origin v"
      "NSECStatusWildcard_init qname wildcard_name rdtype origin v = Inr st"
      "obj = NSECStatusWildcard st"
  | (NSEC_NoAnswer) qname rdtype origin v st where
      "call = New_NSECStatusNoAnswer qname rdtype origin v"
      "NSECStatusNoAnswer_init qname rdtype origin v = Inr st"
      "obj = NSECStatusNoAnswer st"
  | (NSEC3_NXDOMAIN) qname rdtype origin v st where
      "call = New_NSEC3StatusNXDOMAIN qname rdtype origin v"
      "NSEC3StatusNXDOMAIN_init qname rdtype origin v = Inr st"
      "obj = NSEC3StatusNXDOMAIN st"
  | (NSEC3_Wildcard) qname wildcard_name rdtype origin v st where
      "call = New_NSEC3StatusWildcard qname wildcard_name rdtype origin v"
      "NSEC3StatusWildcard_init qname wildcard_name rdtype origin v = Inr st"
      "obj = NSEC3StatusWildcard st"
  | (NSEC3_NoAnswer) qname rdtype origin v st where
      "call = New_NSEC3StatusNoAnswer qname rdtype origin v"
      "NSEC3StatusNoAnswer_init qname rdtype origin v = Inr st"
      "obj = NSEC3StatusNoAnswer st"
  | (CNAME) synthesized_cname included_cname st where
      "call = New_CNAMEFromDNAMEStatus synthesized_cname included_cname"
      "CNAMEFromDNAMEStatus_init synthesized_cname included_cname = Inr st"
      "obj = CNAMEFromDNAMEStatus st"
  using assms
  by (cases call) (auto simp: map_sum_def split: sum.splits)
text \<open>
  C1, as stated: for every evaluator, a status other than VALID comes with errors, and
  VALID comes without. Three evaluations say otherwise: a DS without a key is
  INDETERMINATE_NO_DNSKEY without an error; a valid RRSIG whose TTL (3600) exceeds its
  original TTL (300) is VALID with the error OriginalTTLExceeded; an NSEC3 NXDOMAIN
  proof over a view that reports no algorithm at all is INVALID without an error.
\<close>

theorem C1_error_parity_counterexample:
  "outcome (New_DSStatus (digest_answer None) example_ds example_ds_meta None False)
     = Inr (DS_STATUS_INDETERMINATE_NO_DNSKEY, [])
   \<and> DS_STATUS_INDETERMINATE_NO_DNSKEY \<noteq> STATUS_VALID
   \<and> outcome (New_RRSIGStatus (rrsig_answer (Some True)) example_rrset
                (example_rrsig [''example'', []] 300) (Some (example_dnskey 0x0100 12345))
                (Some [''example'', []]) 2000 False)
       = Inr (STATUS_VALID, [OriginalTTLExceeded 3600 300])
   \<and> outcome (New_NSEC3StatusNXDOMAIN [''foo'', ''example'', []] 1 [''example'', []]
                example_nsec_view)
       = Inr (NSEC_STATUS_INVALID, [])
   \<and> NSEC_STATUS_INVALID \<noteq> STATUS_VALID"
proof -
  have ds: "outcome (New_DSStatus (digest_answer None) example_ds example_ds_meta None False)
     = Inr (DS_STATUS_INDETERMINATE_NO_DNSKEY, [])"
    by (simp add: ds_steps example_defs status_defs)
  have rrsig: "outcome (New_RRSIGStatus (rrsig_answer (Some True)) example_rrset
                (example_rrsig [''example'', []] 300) (Some (example_dnskey 0x0100 12345))
                (Some [''example'', []]) 2000 False)
       = Inr (STATUS_VALID, [OriginalTTLExceeded 3600 300])"
    by (simp add: outcome_def RRSIGStatus_init_def rrsig_check_ttl_def Let_def
          rrsig_check_verdict_cases rrsig_check_revoke_errors rrsig_check_revoke_status
          rrsig_signer_mismatch_def rrsig_revoked_def rrsig_window_errors_def
          rrsig_signature_valid_def rrsig_answer_def example_dnskey_def example_rrsig_def
          example_rrset_def status_defs DNSKEY_FLAGS_revoke_def)
  have nsec3: "outcome (New_NSEC3StatusNXDOMAIN [''foo'', ''example'', []] 1 [''example'', []]
                example_nsec_view)
       = Inr (NSEC_STATUS_INVALID, [])"
    by (simp add: outcome_def NSEC3StatusNXDOMAIN_init_def
          NSEC3StatusNXDOMAIN_set_validation_status_def NSEC3StatusNXDOMAIN_verdict_def
          NSEC3StatusNXDOMAIN_set_closest_encloser_def example_nsec_view_def
          append_invalid_alg_def record_ext_defs)
  from ds rrsig nsec3 show ?thesis by (simp add: status_defs)
qed

text \<open>
  C1, amended: for every status object that a constructor returns,
  \<^item> of the NSEC evaluators and of CNAMEFromDNAMEStatus: the status is VALID exactly when
    the errors are empty;
  \<^item> of DSStatus and of the NSEC3 evaluators: VALID comes without errors; a DS status of
    INVALID_DIGEST or INVALID comes with an error; a non-VALID NSEC3 status comes with an
    error when the view reports an algorithm, supported or not;
  \<^item> of RRSIGStatus: a status of EXPIRED, PREMATURE, INVALID_SIG or INVALID comes with an
    error, and VALID comes with no errors but OriginalTTLExceeded and TTLBeyondExpiration.
  Warnings are not constrained.
\<close>

theorem C1_error_parity:
  assumes "construct call = Inr obj"
  shows "(evaluator_of obj \<in> {NSEC_evaluator, DNAME_evaluator}
            \<longrightarrow> (validation_status obj = STATUS_VALID \<longleftrightarrow> errors obj = []))
       \<and> (evaluator_of obj \<in> {DS_evaluator, NSEC3_evaluator}
            \<longrightarrow> (validation_status obj = STATUS_VALID \<longrightarrow> errors obj = []))
       \<and> (evaluator_of obj = DS_evaluator
            \<and> validation_status obj \<in> {DS_STATUS_INVALID_DIGEST, DS_STATUS_INVALID}
            \<longrightarrow> errors obj \<noteq> [])
       \<and> (evaluator_of obj = NSEC3_evaluator \<and> validation_status obj \<noteq> STATUS_VALID
            \<and> reports_algorithm call
            \<longrightarrow> errors obj \<noteq> [])
       \<and> (evaluator_of obj = RRSIG_evaluator
            \<longrightarrow> rrsig_parity (validation_status obj, errors obj))"
  using assms
proof (cases rule: construct_cases)
  case (RRSIG validate_rrsig rrset rrsig dnskey zone_name ts au st)
  from RRSIGStatus_init_result [OF RRSIG(2)] RRSIG(3) show ?thesis by simp
next
  case (DS validate_ds_digest ds ds_meta dnskey dau st)
  from DSStatus_init_result [OF DS(2)] DS(3) show ?thesis by (simp add: status_defs)
next
  case (NSEC_NXDOMAIN qname rdtype origin v st)
  from NSECStatusNXDOMAIN_init_result(1) [OF NSEC_NXDOMAIN(2)] NSEC_NXDOMAIN(3)
  show ?thesis by (simp add: parity_def)
next
  case (NSEC_Wildcard qname wildcard_name rdtype origin v st)
  from NSECStatusWildcard_init_result(1) [OF NSEC_Wildcard(2)] NSEC_Wildcard(3)
  show ?thesis by (simp add: parity_def)
next
  case (NSEC_NoAnswer qname rdtype origin v st)
  from NSECStatusNoAnswer_init_result(1) [OF NSEC_NoAnswer(2)] NSEC_NoAnswer(3)
  show ?thesis by (simp add: parity_def)
next
  case (NSEC3_NXDOMAIN qname rdtype origin v st)
  from NSEC3StatusNXDOMAIN_init_result(1,2) [OF NSEC3_NXDOMAIN(2)] NSEC3_NXDOMAIN(1,3)
  show ?thesis by (simp add: status_defs reports_algorithm_def)
next
  case (NSEC3_Wildcard qname wildcard_name rdtype origin v st)
  from NSEC3StatusWildcard_init_result(1,2) [OF NSEC3_Wildcard(2)] NSEC3_Wildcard(1,3)
  show ?thesis by (simp add: status_defs reports_algorithm_def)
next
  case (NSEC3_NoAnswer qname rdtype origin v st)
  from NSEC3StatusNoAnswer_init_result(1,2) [OF NSEC3_NoAnswer(2)] NSEC3_NoAnswer(1,3)
  show ?thesis by (simp add: status_defs reports_algorithm_def)
next
  case (CNAME synthesized_cname included_cname st)
  from CNAMEFromDNAMEStatus_init_result [OF CNAME(2)] CNAME(3)
  show ?thesis by (simp add: parity_def)
qed

theorem C1_error_parity_witness:
  "construct (New_CNAMEFromDNAMEStatus example_synthesized_cname (Some example_included_cname))
     = Inr (CNAMEFromDNAMEStatus example_cname_status)
   \<and> evaluator_of (CNAMEFromDNAMEStatus example_cname_status) = DNAME_evaluator
   \<and> validation_status (CNAMEFromDNAMEStatus example_cname_status) = STATUS_VALID
   \<and> errors (CNAMEFromDNAMEStatus example_cname_status) = []
   \<and> warnings (CNAMEFromDNAMEStatus example_cname_status) = [DNAMETTLMismatch]
   \<and> (\<exists>obj. construct (New_DSStatus (digest_answer (Some True)) example_ds example_ds_meta
                          (Some (example_dnskey 0x0180 12345)) False) = Inr obj
            \<and> evaluator_of obj = DS_evaluator
            \<and> validation_status obj = DS_STATUS_INVALID
            \<and> errors obj \<noteq> [])
   \<and> (\<exists>obj. construct (New_NSEC3StatusNXDOMAIN [''foo'', ''example'', []] 1 [''example'', []]
                          example_nsec3_view_unsupported) = Inr obj
            \<and> evaluator_of obj = NSEC3_evaluator
            \<and> validation_status obj = NSEC_STATUS_INVALID
            \<and> errors obj \<noteq> [])
   \<and> reports_algorithm (New_NSEC3StatusNXDOMAIN [''foo'', ''example'', []] 1 [''example'', []]
                           example_nsec3_view_unsupported)
   \<and> (\<exists>obj. construct (New_RRSIGStatus (rrsig_answer (Some True)) example_rrset
                          (example_rrsig [''other'', []] 3600) (Some (example_dnskey 0x0100 12345))
                          (Some [''example'', []]) 90000 False) = Inr obj
            \<and> evaluator_of obj = RRSIG_evaluator
            \<and> validation_status obj = RRSIG_STATUS_INVALID
            \<and> errors obj \<noteq> [])"
proof -
  let ?ds = "New_DSStatus (digest_answer (Some True)) example_ds example_ds_meta
               (Some (example_dnskey 0x0180 12345)) False"
  let ?n3 = "New_NSEC3StatusNXDOMAIN [''foo'', ''example'', []] 1 [''example'', []]
               example_nsec3_view_unsupported"
  let ?rr = "New_RRSIGStatus (rrsig_answer (Some True)) example_rrset
               (example_rrsig [''other'', []] 3600) (Some (example_dnskey 0x0100 12345))
               (Some [''example'', []]) 90000 False"
  have c: "construct (New_CNAMEFromDNAMEStatus example_synthesized_cname (Some example_included_cname))
     = Inr (CNAMEFromDNAMEStatus example_cname_status)"
    by (simp add: CNAMEFromDNAMEStatus_init_def cname_example_defs status_defs)
  have v: "validation_status (CNAMEFromDNAMEStatus example_cname_status) = STATUS_VALID"
    by (simp add: cname_example_defs status_defs)
  from C1_error_parity [OF c] v
  have e: "errors (CNAMEFromDNAMEStatus example_cname_status) = []" by simp
  have "\<exists>obj. construct ?ds = Inr obj \<and> evaluator_of obj = DS_evaluator
          \<and> validation_status obj = DS_STATUS_INVALID"
    by (simp add: ds_steps example_defs status_defs DNSKEY_FLAGS_revoke_def)
  then obtain ds where ds: "construct ?ds = Inr ds" "evaluator_of ds = DS_evaluator"
    "validation_status ds = DS_STATUS_INVALID"
    by blast
  from C1_error_parity [OF ds(1)] ds(2,3) have dse: "errors ds \<noteq> []" by simp
  have ra: "reports_algorithm ?n3"
    by (simp add: reports_algorithm_def example_nsec3_view_unsupported_def)
  have "\<exists>obj. construct ?n3 = Inr obj \<and> evaluator_of obj = NSEC3_evaluator
          \<and> validation_status obj = NSEC_STATUS_INVALID"
    by (simp add: NSEC3StatusNXDOMAIN_init_def
          NSEC3StatusNXDOMAIN_set_validation_status_def NSEC3StatusNXDOMAIN_verdict_def
          NSEC3StatusNXDOMAIN_set_closest_encloser_def example_nsec3_view_unsupported_def
          append_invalid_alg_def record_ext_defs)
  then obtain n3 where n3: "construct ?n3 = Inr n3" "evaluator_of n3 = NSEC3_evaluator"
    "validation_status n3 = NSEC_STATUS_INVALID"
    by blast
  from C1_error_parity [OF n3(1)] n3(2,3) ra have n3e: "errors n3 \<noteq> []"
    by (simp add: status_defs)
  have "\<exists>obj. construct ?rr = Inr obj \<and> evaluator_of obj = RRSIG_evaluator
          \<and> validation_status obj = RRSIG_STATUS_INVALID"
    by (simp add: RRSIGStatus_init_def rrsig_check_ttl_def Let_def
          rrsig_check_verdict_cases rrsig_check_revoke_errors rrsig_check_revoke_status
          rrsig_signer_mismatch_def rrsig_revoked_def rrsig_window_errors_def
          rrsig_signature_valid_def rrsig_answer_def example_dnskey_def example_rrsig_def
          example_rrset_def status_defs DNSKEY_FLAGS_revoke_def)
  then obtain rr where rr: "construct ?rr = Inr rr" "evaluator_of rr = RRSIG_evaluator"
    "validation_status rr = RRSIG_STATUS_INVALID"
    by blast
  from C1_error_parity [OF rr(1)] rr(2,3) have rre: "errors rr \<noteq> []"
    by (simp add: rrsig_parity_def)
  from c v e ds dse ra n3 n3e rr rre show ?thesis
    by (auto simp: example_cname_status_def)
qed

subsection \<open>The view a denial proof keeps\<close>

lemma retained_view_result:
  assumes "construct call = Inr obj" and "input_view call = Some v"
  shows "retained_view obj = Some (nsec_retain v (validation_status obj) (covering_names obj))"
  using assms(1)
proof (cases rule: construct_cases)
  case (NSEC_NXDOMAIN qname rdtype origin v' st)
  from NSECStatusNXDOMAIN_init_result(2) [OF NSEC_NXDOMAIN(2)] NSEC_NXDOMAIN(1,3) assms(2)
  show ?thesis by simp
next
  case (NSEC_Wildcard qname wildcard_name rdtype origin v' st)
  from NSECStatusWildcard_init_result(2) [OF NSEC_Wildcard(2)] NSEC_Wildcard(1,3) assms(2)
  show ?thesis by simp
next
  case (NSEC_NoAnswer qname rdtype origin v' st)
  from NSECStatusNoAnswer_init_result(2) [OF NSEC_NoAnswer(2)] NSEC_NoAnswer(1,3) assms(2)
  show ?thesis by simp
next
  case (NSEC3_NXDOMAIN qname rdtype origin v' st)
  from NSEC3StatusNXDOMAIN_init_result(3) [OF NSEC3_NXDOMAIN(2)] NSEC3_NXDOMAIN(1,3) assms(2)
  show ?thesis by simp
next
  case (NSEC3_Wildcard qname wildcard_name rdtype origin v' st)
  from NSEC3StatusWildcard_init_result(3) [OF NSEC3_Wildcard(2)] NSEC3_Wildcard(1,3) assms(2)
  show ?thesis by simp
next
  case (NSEC3_NoAnswer qname rdtype origin v' st)
  from NSEC3StatusNoAnswer_init_result(3) [OF NSEC3_NoAnswer(2)] NSEC3_NoAnswer(1,3) assms(2)
  show ?thesis by simp
qed (use assms(2) in simp_all)

lemma names_of_union: "names_of d = set (dict_values_union d)"
  by (induction d) (auto simp: names_of_def dict_values_union_def)

lemma in_names_of: "n \<in> names_of d \<longleftrightarrow> n \<in> set (dict_values_union d)"
  by (simp add: names_of_union)

lemma covering_names_kept: "{n. Some n \<in> set (covering_names obj)} = kept_names obj"
  by (cases obj)
     (auto simp: NSECStatusNXDOMAIN_covering_names_def NSECStatusWildcard_covering_names_def
        NSECStatusNoAnswer_covering_names_def NSEC3StatusNXDOMAIN_covering_names_def
        NSEC3StatusWildcard_covering_names_def NSEC3StatusNoAnswer_covering_names_def
        in_names_of in_these_eq split: option.splits if_splits)

lemma kept_names_cited: "Some ` kept_names obj \<subseteq> set (cited_names obj)"
  by (cases obj) (auto simp: in_names_of in_these_eq split: option.splits if_splits)

lemma project_restrict_view: "project v names = restrict_view v {n. Some n \<in> set names}"
  by (simp add: project_def restrict_view_def)

lemma project_all: "project v (map Some (map fst (rrsets v))) = v"
proof -
  have "filter (\<lambda>(n, r). Some n \<in> set (map Some (map fst (rrsets v)))) (rrsets v) = rrsets v"
    by (rule filter_True) force
  then show ?thesis by (simp add: project_def)
qed

lemma owners_restrict_view: "owners (restrict_view v names) = owners v \<inter> names"
  by (auto simp: owners_def restrict_view_def image_iff)

lemma nsec_retain_kept:
  "nsec_retain v (validation_status obj) (covering_names obj) =
     (if validation_status obj = STATUS_VALID then restrict_view v (kept_names obj) else v)"
proof -
  have "nsec_retain v (validation_status obj) (covering_names obj) =
          (if validation_status obj = STATUS_VALID then project v (covering_names obj) else v)"
    by (simp only: nsec_retain_def project_all status_defs)
  then show ?thesis
    by (simp only: project_restrict_view covering_names_kept)
qed

text \<open>
  C3, as stated: when the status is VALID, the kept view is the projection of the input
  view onto exactly the owner names the proof cites, its covering, matching and
  closest-encloser names. For the empty non-terminal \<open>ent.example.\<close> NSECStatusNoAnswer
  finds the NSEC of \<open>a.example.\<close> (its next name lies below \<open>ent.example.\<close>) and records
  two names covering \<open>ent.example.\<close>, \<open>a.example.\<close> and \<open>aa.example.\<close>; the status is VALID
  and the kept view has the RRset of \<open>a.example.\<close> alone, without that of the covering
  name \<open>aa.example.\<close>, an owner of the input view.
\<close>

theorem C3_retained_view_counterexample:
  "\<exists>obj r. construct (New_NSECStatusNoAnswer [''ent'', ''example'', []] 1 [''example'', []]
                       example_nsec_view_nodata) = Inr obj
           \<and> validation_status obj = STATUS_VALID
           \<and> retained_view obj = Some r
           \<and> owners r = {[''a'', ''example'', []]}
           \<and> Some [''aa'', ''example'', []] \<in> set (cited_names obj)
           \<and> [''aa'', ''example'', []] \<in> owners example_nsec_view_nodata
           \<and> owners r \<noteq> owners example_nsec_view_nodata \<inter> {n. Some n \<in> set (cited_names obj)}"
  by (simp add: NSECStatusNoAnswer_init_def NSECStatusNoAnswer_collect_def
        NSECStatusNoAnswer_set_validation_status_def NSECStatusNoAnswer_verdict_def
        NSECStatusNoAnswer_covering_names_def na_wildcard_scan.simps parent_def root_def
        from_text_star_def is_subdomain_def is_absolute_def invalid_when_def
        example_nsec_view_nodata_def Let_def record_ext_defs nsec_retain_def project_def
        owners_def dict_values_union_def rdatatype_DS_def status_defs)

text \<open>
  C3, amended: for every NSEC and NSEC3 denial evaluator and every input for which the
  constructor returns: when the status is VALID, the view the object keeps is the input
  view restricted to the owner names the evaluator selects (\<open>kept_names\<close>, class by
  class), all of them names the attributes of the object cite, so its owners are the
  owners of the input view among these names, a subset of the input owners; when the
  status is not VALID, the kept view has every RRset and every owner of the input view.
\<close>

theorem C3_retained_view:
  assumes "construct call = Inr obj" and "input_view call = Some v"
  shows "\<exists>r. retained_view obj = Some r
           \<and> (validation_status obj = STATUS_VALID
                \<longrightarrow> r = restrict_view v (kept_names obj)
                    \<and> owners r = owners v \<inter> kept_names obj
                    \<and> owners r \<subseteq> owners v
                    \<and> Some ` kept_names obj \<subseteq> set (cited_names obj))
           \<and> (validation_status obj \<noteq> STATUS_VALID
                \<longrightarrow> rrsets r = rrsets v \<and> owners r = owners v)"
proof -
  let ?r = "nsec_retain v (validation_status obj) (covering_names obj)"
  from retained_view_result [OF assms] have r: "retained_view obj = Some ?r" .
  show ?thesis
  proof (cases "validation_status obj = STATUS_VALID")
    case True
    with nsec_retain_kept [of v obj] have "?r = restrict_view v (kept_names obj)"
      by simp
    with r True kept_names_cited [of obj] show ?thesis
      by (auto simp: owners_restrict_view)
  next
    case False
    with nsec_retain_kept [of v obj] have "?r = v"
      by simp
    with r False show ?thesis by simp
  qed
qed

theorem C3_retained_view_witness:
  "(\<exists>obj r. construct (New_NSECStatusNXDOMAIN [''foo'', ''example'', []] 1 [''example'', []]
                        example_nsec_view) = Inr obj
            \<and> validation_status obj = STATUS_VALID
            \<and> retained_view obj = Some r
            \<and> owners r = {[''bar'', ''example'', []], [''example'', []]})
   \<and> owners example_nsec_view
       = {[''example'', []], [''bar'', ''example'', []], [''zzz'', ''example'', []]}
   \<and> (\<exists>obj r. construct (New_NSECStatusNXDOMAIN [''foo'', ''example'', []] 1 [''example'', []]
                          example_nsec_view_origin_covered) = Inr obj
              \<and> validation_status obj = STATUS_INVALID
              \<and> retained_view obj = Some r
              \<and> owners r = {[''example'', []], [''bar'', ''example'', []], [''zzz'', ''example'', []]})
   \<and> (\<exists>obj r. construct (New_NSECStatusWildcard [''foo'', ''example'', []]
                          [''*'', ''example'', []] 1 [''example'', []] example_nsec_view) = Inr obj
              \<and> validation_status obj = STATUS_VALID
              \<and> retained_view obj = Some r
              \<and> owners r = {[''bar'', ''example'', []]})
   \<and> (\<exists>obj r. construct (New_NSECStatusNoAnswer [''ent'', ''example'', []] 1 [''example'', []]
                          example_nsec_view_nodata) = Inr obj
              \<and> validation_status obj = STATUS_VALID
              \<and> retained_view obj = Some r
              \<and> owners r = {[''a'', ''example'', []]})
   \<and> (\<exists>obj r. construct (New_NSEC3StatusNXDOMAIN [''foo'', ''example'', []] 1 [''example'', []]
                          example_nsec3_view_unsupported) = Inr obj
              \<and> validation_status obj = STATUS_INVALID
              \<and> retained_view obj = Some r
              \<and> owners r = {[''h1'', ''example'', []]})
   \<and> (\<exists>obj r. construct (New_NSEC3StatusWildcard [''foo'', ''example'', []]
                          [''*'', ''example'', []] 1 [''example'', []]
                          (example_nsec3_view
                             [[''hapex'', ''example'', []], [''hcover'', ''example'', []],
                              [''hother'', ''example'', []]]
                             [[''hcover'', ''example'', []]] 0)) = Inr obj
              \<and> validation_status obj = STATUS_VALID
              \<and> retained_view obj = Some r
              \<and> owners r = {[''hapex'', ''example'', []], [''hcover'', ''example'', []]})
   \<and> (\<exists>obj r. construct (New_NSEC3StatusNoAnswer [''foo'', ''example'', []] rdatatype_DS
                          [''example'', []]
                          (example_nsec3_view
                             [[''hapex'', ''example'', []], [''hcover'', ''example'', []],
                              [''hother'', ''example'', []]]
                             [[''hcover'', ''example'', []]] 1)) = Inr obj
              \<and> validation_status obj = STATUS_VALID
              \<and> retained_view obj = Some r
              \<and> owners r = {[''hapex'', ''example'', []], [''hcover'', ''example'', []]})"
proof -
  let ?q = "[''foo'', ''example'', []]"
  let ?o = "[''example'', []]"
  let ?w = "[''*'', ''example'', []]"
  let ?v3 = "\<lambda>flags. example_nsec3_view
                [[''hapex'', ''example'', []], [''hcover'', ''example'', []],
                 [''hother'', ''example'', []]]
                [[''hcover'', ''example'', []]] flags"
  let ?nx = "New_NSECStatusNXDOMAIN ?q 1 ?o example_nsec_view"
  let ?nx' = "New_NSECStatusNXDOMAIN ?q 1 ?o example_nsec_view_origin_covered"
  let ?wc = "New_NSECStatusWildcard ?q ?w 1 ?o example_nsec_view"
  let ?na = "New_NSECStatusNoAnswer [''ent'', ''example'', []] 1 ?o example_nsec_view_nodata"
  let ?n3 = "New_NSEC3StatusNXDOMAIN ?q 1 ?o example_nsec3_view_unsupported"
  let ?w3 = "New_NSEC3StatusWildcard ?q ?w 1 ?o (?v3 0)"
  let ?a3 = "New_NSEC3StatusNoAnswer ?q rdatatype_DS ?o (?v3 1)"
  have ow: "owners example_nsec_view
       = {[''example'', []], [''bar'', ''example'', []], [''zzz'', ''example'', []]}"
    by (simp add: owners_def example_nsec_view_def)
  have ow': "owners example_nsec_view_origin_covered = owners example_nsec_view"
    by (simp add: owners_def example_view_defs)
  have own: "owners example_nsec_view_nodata = {[''a'', ''example'', []], [''aa'', ''example'', []]}"
    by (simp add: owners_def example_nsec_view_nodata_def)
  have ow3: "\<And>flags. owners (?v3 flags)
       = {[''hapex'', ''example'', []], [''hcover'', ''example'', []], [''hother'', ''example'', []]}"
    by (simp add: owners_def example_nsec3_view_def)
  have owu: "owners example_nsec3_view_unsupported = {[''h1'', ''example'', []]}"
    by (simp add: owners_def example_nsec3_view_unsupported_def)

  have "\<exists>obj. construct ?nx = Inr obj \<and> validation_status obj = STATUS_VALID
          \<and> kept_names obj = {[''bar'', ''example'', []], [''example'', []]}"
    by (auto simp: NSECStatusNXDOMAIN_init_def NSECStatusNXDOMAIN_collect_def
          NSECStatusNXDOMAIN_set_validation_status_def nx_wildcard_scan.simps parent_def root_def
          from_text_star_def example_view_defs Let_def record_ext_defs
          names_of_def status_defs)
  then obtain obj1 where c1: "construct ?nx = Inr obj1"
    and s1: "validation_status obj1 = STATUS_VALID"
    and k1: "kept_names obj1 = {[''bar'', ''example'', []], [''example'', []]}"
    by blast
  have "input_view ?nx = Some example_nsec_view" by simp
  from C3_retained_view [OF c1 this] s1 obtain r1 where
    r1: "retained_view obj1 = Some r1"
    and o1: "owners r1 = owners example_nsec_view \<inter> kept_names obj1"
    by blast
  from o1 have "owners r1 = {[''bar'', ''example'', []], [''example'', []]}"
    unfolding k1 ow by auto
  with c1 s1 r1 have first: "\<exists>obj r. construct ?nx = Inr obj
            \<and> validation_status obj = STATUS_VALID
            \<and> retained_view obj = Some r
            \<and> owners r = {[''bar'', ''example'', []], [''example'', []]}"
    by blast

  have "\<exists>obj. construct ?nx' = Inr obj \<and> validation_status obj = STATUS_INVALID"
    by (simp add: NSECStatusNXDOMAIN_init_def NSECStatusNXDOMAIN_collect_def
          NSECStatusNXDOMAIN_set_validation_status_def nx_wildcard_scan.simps parent_def root_def
          from_text_star_def example_view_defs Let_def record_ext_defs
          last_nsec_next_not_zone_def status_defs)
  then obtain obj2 where c2: "construct ?nx' = Inr obj2"
    and s2: "validation_status obj2 = STATUS_INVALID"
    by blast
  have iv2: "input_view ?nx' = Some example_nsec_view_origin_covered" by simp
  from s2 have "validation_status obj2 \<noteq> STATUS_VALID" by (simp add: status_defs)
  with C3_retained_view [OF c2 iv2] obtain r2 where
    "retained_view obj2 = Some r2" "owners r2 = owners example_nsec_view_origin_covered"
    by blast
  with c2 s2 ow ow' have second: "\<exists>obj r. construct ?nx' = Inr obj
              \<and> validation_status obj = STATUS_INVALID
              \<and> retained_view obj = Some r
              \<and> owners r = {[''example'', []], [''bar'', ''example'', []], [''zzz'', ''example'', []]}"
    by auto

  have "\<exists>obj. construct ?wc = Inr obj \<and> validation_status obj = STATUS_VALID
          \<and> kept_names obj = {[''bar'', ''example'', []]}"
    by (simp add: NSECStatusWildcard_init_def NSECStatusNXDOMAIN_collect_def
          NSECStatusWildcard_set_validation_status2_def nsec_next_closest_encloser_def
          last_labels_def nx_wildcard_scan.simps parent_def root_def
          from_text_star_def example_view_defs Let_def record_ext_defs
          names_of_def status_defs)
  then obtain obj3 where c3: "construct ?wc = Inr obj3"
    and s3: "validation_status obj3 = STATUS_VALID"
    and k3: "kept_names obj3 = {[''bar'', ''example'', []]}"
    by blast
  have "input_view ?wc = Some example_nsec_view" by simp
  from C3_retained_view [OF c3 this] s3 obtain r3 where
    r3: "retained_view obj3 = Some r3"
    and o3: "owners r3 = owners example_nsec_view \<inter> kept_names obj3"
    by blast
  from o3 have "owners r3 = {[''bar'', ''example'', []]}"
    unfolding k3 ow by auto
  with c3 s3 r3 have third: "\<exists>obj r. construct ?wc = Inr obj
            \<and> validation_status obj = STATUS_VALID
            \<and> retained_view obj = Some r
            \<and> owners r = {[''bar'', ''example'', []]}"
    by blast

  have "\<exists>obj. construct ?na = Inr obj \<and> validation_status obj = STATUS_VALID
          \<and> kept_names obj = {[''a'', ''example'', []]}"
    by (simp add: NSECStatusNoAnswer_init_def NSECStatusNoAnswer_collect_def
          NSECStatusNoAnswer_set_validation_status_def NSECStatusNoAnswer_verdict_def
          na_wildcard_scan.simps parent_def root_def
          from_text_star_def is_subdomain_def is_absolute_def invalid_when_def
          example_nsec_view_nodata_def Let_def record_ext_defs
          names_of_def rdatatype_DS_def status_defs)
  then obtain obj4 where c4: "construct ?na = Inr obj4"
    and s4: "validation_status obj4 = STATUS_VALID"
    and k4: "kept_names obj4 = {[''a'', ''example'', []]}"
    by blast
  have "input_view ?na = Some example_nsec_view_nodata" by simp
  from C3_retained_view [OF c4 this] s4 obtain r4 where
    r4: "retained_view obj4 = Some r4"
    and o4: "owners r4 = owners example_nsec_view_nodata \<inter> kept_names obj4"
    by blast
  from o4 have "owners r4 = {[''a'', ''example'', []]}"
    unfolding k4 own by auto
  with c4 s4 r4 have fourth: "\<exists>obj r. construct ?na = Inr obj
            \<and> validation_status obj = STATUS_VALID
            \<and> retained_view obj = Some r
            \<and> owners r = {[''a'', ''example'', []]}"
    by blast

  have "\<exists>obj. construct ?n3 = Inr obj \<and> validation_status obj = STATUS_INVALID"
    by (simp add: NSEC3StatusNXDOMAIN_init_def
          NSEC3StatusNXDOMAIN_set_validation_status_def NSEC3StatusNXDOMAIN_verdict_def
          NSEC3StatusNXDOMAIN_set_closest_encloser_def example_nsec3_view_unsupported_def
          append_invalid_alg_def record_ext_defs status_defs)
  then obtain obj5 where c5: "construct ?n3 = Inr obj5"
    and s5: "validation_status obj5 = STATUS_INVALID"
    by blast
  have iv5: "input_view ?n3 = Some example_nsec3_view_unsupported" by simp
  from s5 have "validation_status obj5 \<noteq> STATUS_VALID" by (simp add: status_defs)
  with C3_retained_view [OF c5 iv5] obtain r5 where
    "retained_view obj5 = Some r5" "owners r5 = owners example_nsec3_view_unsupported"
    by blast
  with c5 s5 owu have fifth: "\<exists>obj r. construct ?n3 = Inr obj
              \<and> validation_status obj = STATUS_INVALID
              \<and> retained_view obj = Some r
              \<and> owners r = {[''h1'', ''example'', []]}"
    by auto

  have "\<exists>obj. construct ?w3 = Inr obj \<and> validation_status obj = STATUS_VALID
          \<and> kept_names obj = {[''hapex'', ''example'', []], [''hcover'', ''example'', []]}"
    by (auto simp: NSEC3StatusWildcard_init_def NSEC3StatusWildcard_set_closest_encloser_def
          NSEC3StatusNXDOMAIN_set_closest_encloser_def NSEC3StatusNXDOMAIN_collect_def
          nsec3_nx_loops_def nsec3_nx_step_def nsec3_qname_digests_def
          NSEC3StatusWildcard_set_validation_status_def NSEC3StatusWildcard_verdict_def
          digest_map_set_def digest_for_def covering_for_def record_covering_def
          nsec3_next_closest_encloser_def last_labels_def nsec3_get_wildcard_def
          example_nsec3_view_def Let_def record_ext_defs names_of_def status_defs)
  then obtain obj6 where c6: "construct ?w3 = Inr obj6"
    and s6: "validation_status obj6 = STATUS_VALID"
    and k6: "kept_names obj6 = {[''hapex'', ''example'', []], [''hcover'', ''example'', []]}"
    by blast
  have "input_view ?w3 = Some (?v3 0)" by simp
  from C3_retained_view [OF c6 this] s6 obtain r6 where
    r6: "retained_view obj6 = Some r6"
    and o6: "owners r6 = owners (?v3 0) \<inter> kept_names obj6"
    by blast
  from o6 have "owners r6 = {[''hapex'', ''example'', []], [''hcover'', ''example'', []]}"
    unfolding k6 ow3 by auto
  with c6 s6 r6 have sixth: "\<exists>obj r. construct ?w3 = Inr obj
            \<and> validation_status obj = STATUS_VALID
            \<and> retained_view obj = Some r
            \<and> owners r = {[''hapex'', ''example'', []], [''hcover'', ''example'', []]}"
    by blast

  have "\<exists>obj. construct ?a3 = Inr obj \<and> validation_status obj = STATUS_VALID
          \<and> kept_names obj = {[''hapex'', ''example'', []], [''hcover'', ''example'', []]}"
    by (auto simp: NSEC3StatusNoAnswer_init_def nsec3_noanswer_eval
          NSEC3StatusNoAnswer_set_validation_status_def NSEC3StatusNoAnswer_verdict_def
          dict_values_union_def record_ext_defs names_of_def
          rdatatype_DS_def rdatatype_CNAME_def rdatatype_NS_def rdatatype_SOA_def status_defs)
  then obtain obj7 where c7: "construct ?a3 = Inr obj7"
    and s7: "validation_status obj7 = STATUS_VALID"
    and k7: "kept_names obj7 = {[''hapex'', ''example'', []], [''hcover'', ''example'', []]}"
    by blast
  have "input_view ?a3 = Some (?v3 1)" by simp
  from C3_retained_view [OF c7 this] s7 obtain r7 where
    r7: "retained_view obj7 = Some r7"
    and o7: "owners r7 = owners (?v3 1) \<inter> kept_names obj7"
    by blast
  from o7 have "owners r7 = {[''hapex'', ''example'', []], [''hcover'', ''example'', []]}"
    unfolding k7 ow3 by auto
  with c7 s7 r7 have seventh: "\<exists>obj r. construct ?a3 = Inr obj
            \<and> validation_status obj = STATUS_VALID
            \<and> retained_view obj = Some r
            \<and> owners r = {[''hapex'', ''example'', []], [''hcover'', ''example'', []]}"
    by blast

  from first ow second third fourth fifth sixth seventh show ?thesis by blast
qed

subsection \<open>The keys of a serialized status\<close>

lemma set_key_if_dom:
  "fst ` set (set_key_if c k x d) = (if c then insert k (fst ` set d) else fst ` set d)"
  by (simp add: set_key_if_def dom_update)

lemma set_status_if_dom:
  "set_status_if c mapping s d = Inr d'
   \<Longrightarrow> fst ` set d' = (if c then insert ''status'' (fst ` set d) else fst ` set d)"
  by (clarsimp simp: set_status_if_def dom_update split: if_splits option.splits)

lemma set_warnings_errors_dom:
  "fst ` set (set_warnings_errors ws es cc loglevel d) =
     (if es \<noteq> [] \<and> loglevel \<le> logging_ERROR then {''errors''} else {})
     \<union> (if ws \<noteq> [] \<and> loglevel \<le> logging_WARNING then {''warnings''} else {})
     \<union> fst ` set d"
  by (auto simp: set_warnings_errors_def set_key_if_dom)

lemma RRSIGStatus_debug_keys_dom:
  "RRSIGStatus_debug_keys st loglevel d = Inr d'
   \<Longrightarrow> fst ` set d' =
         (if loglevel \<le> logging_DEBUG then {''rdata'', ''meta''} else {}) \<union> fst ` set d"
  by (clarsimp simp: RRSIGStatus_debug_keys_def Let_def dom_update
        split: if_splits option.splits)

lemma RRSIGStatus_servers_dom:
  "RRSIGStatus_servers st cc c d = Inr d'
   \<Longrightarrow> fst ` set d' = (if c then insert ''servers'' (fst ` set d) else fst ` set d)"
  by (clarsimp simp: RRSIGStatus_servers_def dom_update split: if_splits option.splits)

lemma CNAMEFromDNAMEStatus_dname_key_dom:
  "fst ` set (CNAMEFromDNAMEStatus_dname_key st ser cc loglevel d) \<subseteq> insert ''dname'' (fst ` set d)"
  "fst ` set d \<subseteq> fst ` set (CNAMEFromDNAMEStatus_dname_key st ser cc loglevel d)"
  by (auto simp: CNAMEFromDNAMEStatus_dname_key_def Let_def set_key_if_dom
        split: option.splits if_splits)

lemma CNAMEFromDNAMEStatus_meta_key_dom:
  "CNAMEFromDNAMEStatus_meta_key st loglevel d = Inr d'
   \<Longrightarrow> fst ` set d' = (if loglevel \<le> logging_DEBUG then insert ''meta'' (fst ` set d)
                       else fst ` set d)"
  by (clarsimp simp: CNAMEFromDNAMEStatus_meta_key_def dom_update
        split: if_splits option.splits list.splits)

text \<open>
  \<^verbatim>\<open>RRSIGStatus.serialize\<close>, when it returns, has the keys \<open>description\<close> and \<open>status\<close>
  exactly when \<open>loglevel <= INFO\<close> or \<open>show_basic\<close> holds, \<open>servers\<close> exactly when
  \<open>loglevel <= DEBUG\<close> or \<open>show_basic\<close> holds, \<open>warnings\<close> exactly when there are warnings and
  \<open>loglevel <= WARNING\<close>, and \<open>errors\<close> exactly when there are errors and
  \<open>loglevel <= ERROR\<close>.
\<close>

theorem RRSIGStatus_serialize_keys:
  assumes "RRSIGStatus_serialize st consolidate_clients loglevel = Inr d"
  shows "(''description'' \<in> fst ` set d
            \<longleftrightarrow> loglevel \<le> logging_INFO \<or> RRSIGStatus_show_basic st loglevel)
       \<and> (''status'' \<in> fst ` set d
            \<longleftrightarrow> loglevel \<le> logging_INFO \<or> RRSIGStatus_show_basic st loglevel)
       \<and> (''servers'' \<in> fst ` set d
            \<longleftrightarrow> loglevel \<le> logging_DEBUG \<or> RRSIGStatus_show_basic st loglevel)
       \<and> (''warnings'' \<in> fst ` set d \<longleftrightarrow> rs_warnings st \<noteq> [] \<and> loglevel \<le> logging_WARNING)
       \<and> (''errors'' \<in> fst ` set d \<longleftrightarrow> rs_errors st \<noteq> [] \<and> loglevel \<le> logging_ERROR)"
proof -
  let ?c = "loglevel \<le> logging_INFO \<or> RRSIGStatus_show_basic st loglevel"
  from assms obtain d1 d2 d3 where
    d1: "RRSIGStatus_debug_keys st loglevel
           (set_key_if ?c ''description'' (RRSIGStatus_unicode st) []) = Inr d1"
    and d2: "set_status_if ?c rrsig_status_mapping (rs_validation_status st) d1 = Inr d2"
    and d3: "RRSIGStatus_servers st consolidate_clients
               (loglevel \<le> logging_DEBUG \<or> RRSIGStatus_show_basic st loglevel) d2 = Inr d3"
    and d: "d = set_warnings_errors (rs_warnings st) (rs_errors st) consolidate_clients loglevel d3"
    by (auto simp: RRSIGStatus_serialize_def Let_def exn_bind_def split: sum.splits)
  have "fst ` set d =
          (if rs_errors st \<noteq> [] \<and> loglevel \<le> logging_ERROR then {''errors''} else {})
          \<union> (if rs_warnings st \<noteq> [] \<and> loglevel \<le> logging_WARNING then {''warnings''} else {})
          \<union> (if loglevel \<le> logging_DEBUG \<or> RRSIGStatus_show_basic st loglevel
              then {''servers''} else {})
          \<union> (if ?c then {''status''} else {})
          \<union> (if loglevel \<le> logging_DEBUG then {''rdata'', ''meta''} else {})
          \<union> (if ?c then {''description''} else {})"
    unfolding d set_warnings_errors_dom RRSIGStatus_servers_dom [OF d3]
      set_status_if_dom [OF d2] RRSIGStatus_debug_keys_dom [OF d1] set_key_if_dom
    by auto
  then show ?thesis by (auto split: if_splits)
qed

theorem RRSIGStatus_serialize_keys_witness:
  "RRSIGStatus_init (rrsig_answer (Some True)) example_rrset (example_rrsig [''example'', []] 300)
     (Some (example_dnskey 0x0100 12345)) (Some [''example'', []]) 2000 False
     = Inr example_rrsig_status
   \<and> RRSIGStatus_show_basic example_rrsig_status logging_ERROR
   \<and> (\<exists>d. RRSIGStatus_serialize example_rrsig_status True logging_ERROR = Inr d
          \<and> ''description'' \<in> fst ` set d \<and> ''status'' \<in> fst ` set d
          \<and> ''servers'' \<in> fst ` set d \<and> ''errors'' \<in> fst ` set d
          \<and> ''warnings'' \<notin> fst ` set d)
   \<and> serialized_keys (RRSIGStatus_serialize example_rrsig_status True logging_ERROR)
       = Inr [''description'', ''status'', ''servers'', ''errors'']"
proof -
  have i: "RRSIGStatus_init (rrsig_answer (Some True)) example_rrset
             (example_rrsig [''example'', []] 300)
             (Some (example_dnskey 0x0100 12345)) (Some [''example'', []]) 2000 False
           = Inr example_rrsig_status"
    by (simp add: RRSIGStatus_init_def rrsig_signature_valid_def rrsig_answer_def
          rrsig_check_keying_def rrsig_check_ttl_def rrsig_check_signer_def
          rrsig_signer_mismatch_def rrsig_check_revoke_def rrsig_revoked_def
          rrsig_check_window_def rrsig_check_verdict_def rrsig_set_if_valid_def
          example_rrsig_status_def example_rrset_def example_rrsig_def example_dnskey_def
          status_defs Let_def DNSKEY_FLAGS_revoke_def)
  have b: "RRSIGStatus_show_basic example_rrsig_status logging_ERROR"
    by (simp add: RRSIGStatus_show_basic_def example_rrsig_status_def)
  have k: "serialized_keys (RRSIGStatus_serialize example_rrsig_status True logging_ERROR)
             = Inr [''description'', ''status'', ''servers'', ''errors'']"
    by (simp add: RRSIGStatus_serialize_def RRSIGStatus_show_basic_def
          RRSIGStatus_debug_keys_def RRSIGStatus_servers_def RRSIGStatus_unicode_def
          rrsig_status_mapping_def example_rrsig_status_def example_defs
          serialize_defs status_defs)
  then obtain d where
    d: "RRSIGStatus_serialize example_rrsig_status True logging_ERROR = Inr d"
    by (cases "RRSIGStatus_serialize example_rrsig_status True logging_ERROR")
       (simp_all add: serialized_keys_def)
  from RRSIGStatus_serialize_keys [OF d] b
  have "''description'' \<in> fst ` set d \<and> ''status'' \<in> fst ` set d
        \<and> ''servers'' \<in> fst ` set d \<and> ''errors'' \<in> fst ` set d
        \<and> ''warnings'' \<notin> fst ` set d"
    by (simp add: example_rrsig_status_def)
  with i b k d show ?thesis by simp
qed

text \<open>
  \<^verbatim>\<open>CNAMEFromDNAMEStatus.serialize\<close>, when it returns, has the key \<open>description\<close> exactly
  when \<open>loglevel <= INFO\<close> or \<open>show_basic\<close> holds, and the key \<open>status\<close> exactly when
  \<open>loglevel <= INFO\<close> or the status is not VALID: a VALID object with a warning or an
  error to show is serialized with a description and without its status.
\<close>

theorem CNAMEFromDNAMEStatus_serialize_keys:
  assumes "CNAMEFromDNAMEStatus_serialize st rrset_info_serializer consolidate_clients loglevel
             = Inr d"
  shows "(''description'' \<in> fst ` set d
            \<longleftrightarrow> loglevel \<le> logging_INFO \<or> CNAMEFromDNAMEStatus_show_basic st loglevel)
       \<and> (''status'' \<in> fst ` set d
            \<longleftrightarrow> loglevel \<le> logging_INFO \<or> cd_validation_status st \<noteq> STATUS_VALID)"
proof -
  let ?c = "loglevel \<le> logging_INFO \<or> CNAMEFromDNAMEStatus_show_basic st loglevel"
  let ?s = "loglevel \<le> logging_INFO \<or> cd_validation_status st \<noteq> STATUS_VALID"
  let ?d0 = "set_key_if ?c ''description'' (CNAMEFromDNAMEStatus_unicode st) []"
  let ?d1 = "CNAMEFromDNAMEStatus_dname_key st rrset_info_serializer consolidate_clients
               loglevel ?d0"
  from assms obtain d2 d3 where
    d2: "CNAMEFromDNAMEStatus_meta_key st loglevel ?d1 = Inr d2"
    and d3: "set_status_if ?s dname_status_mapping (cd_validation_status st) d2 = Inr d3"
    and d: "d = set_warnings_errors (cd_warnings st) (cd_errors st) consolidate_clients loglevel
                  (set_key_if (loglevel \<le> logging_DEBUG \<or> CNAMEFromDNAMEStatus_show_basic st loglevel)
                     ''servers''
                     (JServers (dname_servers_clients (dname_info (cd_synthesized_cname st)))
                        consolidate_clients) d3)"
    by (auto simp: CNAMEFromDNAMEStatus_serialize_def Let_def exn_bind_def split: sum.splits)
  have d0: "fst ` set ?d0 = (if ?c then {''description''} else {})"
    by (simp add: set_key_if_dom)
  from CNAMEFromDNAMEStatus_dname_key_dom
         [where st = st and ser = rrset_info_serializer and cc = consolidate_clients
            and loglevel = loglevel and d = ?d0]
  have d1: "''description'' \<in> fst ` set ?d1 \<longleftrightarrow> ?c" "''status'' \<notin> fst ` set ?d1"
    unfolding d0 by (auto split: if_splits)
  from CNAMEFromDNAMEStatus_meta_key_dom [OF d2] d1
  have m: "''description'' \<in> fst ` set d2 \<longleftrightarrow> ?c" "''status'' \<notin> fst ` set d2"
    by (auto split: if_splits)
  from set_status_if_dom [OF d3] m
  have s: "''description'' \<in> fst ` set d3 \<longleftrightarrow> ?c" "''status'' \<in> fst ` set d3 \<longleftrightarrow> ?s"
    by (auto split: if_splits)
  have "fst ` set d =
          (if cd_errors st \<noteq> [] \<and> loglevel \<le> logging_ERROR then {''errors''} else {})
          \<union> (if cd_warnings st \<noteq> [] \<and> loglevel \<le> logging_WARNING then {''warnings''} else {})
          \<union> (if loglevel \<le> logging_DEBUG \<or> CNAMEFromDNAMEStatus_show_basic st loglevel
              then insert ''servers'' (fst ` set d3) else fst ` set d3)"
    unfolding d set_warnings_errors_dom set_key_if_dom by simp
  with s show ?thesis by (auto split: if_splits)
qed

theorem CNAMEFromDNAMEStatus_serialize_keys_witness:
  "CNAMEFromDNAMEStatus_show_basic example_cname_status logging_WARNING
   \<and> cd_validation_status example_cname_status = STATUS_VALID
   \<and> (\<exists>d. CNAMEFromDNAMEStatus_serialize example_cname_status None True logging_WARNING = Inr d
          \<and> ''description'' \<in> fst ` set d \<and> ''status'' \<notin> fst ` set d)"
proof -
  have b: "CNAMEFromDNAMEStatus_show_basic example_cname_status logging_WARNING"
    by (simp add: CNAMEFromDNAMEStatus_show_basic_def cname_example_defs)
  have v: "cd_validation_status example_cname_status = STATUS_VALID"
    by (simp add: cname_example_defs status_defs)
  have "\<exists>d. CNAMEFromDNAMEStatus_serialize example_cname_status None True logging_WARNING = Inr d"
    by (simp add: CNAMEFromDNAMEStatus_serialize_def CNAMEFromDNAMEStatus_show_basic_def
          CNAMEFromDNAMEStatus_meta_key_def CNAMEFromDNAMEStatus_dname_key_def
          dname_status_mapping_def cname_example_defs serialize_defs status_defs)
  then obtain d where
    d: "CNAMEFromDNAMEStatus_serialize example_cname_status None True logging_WARNING = Inr d" ..
  from CNAMEFromDNAMEStatus_serialize_keys [OF d] b v
  have "''description'' \<in> fst ` set d \<and> ''status'' \<notin> fst ` set d"
    by (simp add: serialize_defs)
  with b v d show ?thesis by blast
qed

subsection \<open>The loops of NSEC3StatusNoAnswer do not raise\<close>

lemma digest_cached_set:
  "digest_cached m q p \<Longrightarrow> digest_cached (digest_map_set m n k d) q p"
  by (auto simp: digest_cached_def digest_map_set_def update_conv' split: option.splits)

lemma digest_cached_set_same: "digest_cached (digest_map_set m q (Some p) d) q p"
  by (simp add: digest_cached_def digest_map_set_def update_conv')

lemma digest_cached_wildcard_step:
  "digest_cached (n3a_name_digest_map f) q p'
   \<Longrightarrow> digest_cached (n3a_name_digest_map (n3a_wildcard_step v p names encloser f)) q p'"
  by (simp add: n3a_wildcard_step_def Let_def digest_cached_set split: option.splits)

lemma digest_cached_cover_step:
  "digest_cached (n3a_name_digest_map f) q p'
   \<Longrightarrow> digest_cached (n3a_name_digest_map (n3a_cover_step v p encloser f)) q p'"
  by (simp add: n3a_cover_step_def Let_def digest_cached_set)

lemma digest_cached_wildcard_fold:
  "digest_cached (n3a_name_digest_map f) q p'
   \<Longrightarrow> digest_cached
         (n3a_name_digest_map
            (fold (\<lambda>(encloser, ns) f. n3a_wildcard_step v p names encloser f) ce f)) q p'"
  by (induction ce arbitrary: f) (auto simp: digest_cached_wildcard_step)

lemma digest_cached_cover_fold:
  "digest_cached (n3a_name_digest_map f) q p'
   \<Longrightarrow> digest_cached
         (n3a_name_digest_map (fold (\<lambda>(encloser, ns) f. n3a_cover_step v p encloser f) ce f))
         q p'"
  by (induction ce arbitrary: f) (auto simp: digest_cached_cover_step)

lemma n3a_qname_of_inputs: "n3a_inputs f' = n3a_inputs f \<Longrightarrow> n3a_qname f' = n3a_qname f"
  by (simp add: n3a_inputs_def)

lemma digest_cached_loop1_fold:
  assumes "\<forall>p\<in>S. digest_cached (n3a_name_digest_map f) (n3a_qname f) p"
  shows "\<forall>p\<in>S \<union> fst ` set params.
           digest_cached
             (n3a_name_digest_map
                (fold (\<lambda>(p, nsec3_names) f.
                         fold (\<lambda>(encloser, names) f. n3a_wildcard_step v p nsec3_names encloser f)
                           (n3a_closest_encloser f)
                           (f\<lparr>n3a_name_digest_map :=
                                digest_map_set (n3a_name_digest_map f) (n3a_qname f) (Some p)
                                  (digest_for v (n3a_qname f) (n3a_origin f) p)\<rparr>))
                   params f))
             (n3a_qname f) p"
  using assms
proof (induction params arbitrary: f S)
  case Nil
  then show ?case by simp
next
  case (Cons pn params)
  obtain p names where pn: "pn = (p, names)" by (cases pn)
  let ?f1 = "fold (\<lambda>(encloser, ns) f. n3a_wildcard_step v p names encloser f)
               (n3a_closest_encloser f)
               (f\<lparr>n3a_name_digest_map :=
                    digest_map_set (n3a_name_digest_map f) (n3a_qname f) (Some p)
                      (digest_for v (n3a_qname f) (n3a_origin f) p)\<rparr>)"
  have q: "n3a_qname ?f1 = n3a_qname f"
    by (rule n3a_qname_of_inputs) simp
  have "\<forall>p'\<in>insert p S. digest_cached (n3a_name_digest_map ?f1) (n3a_qname f) p'"
    using Cons.prems
    by (auto intro!: digest_cached_wildcard_fold simp: digest_cached_set digest_cached_set_same)
  then have "\<forall>p'\<in>insert p S. digest_cached (n3a_name_digest_map ?f1) (n3a_qname ?f1) p'"
    by (simp only: q)
  from Cons.IH [OF this] show ?case
    by (simp add: pn q)
qed

lemma digest_cached_loop1:
  "\<forall>p\<in>fst ` set (nsec3_params v).
     digest_cached (n3a_name_digest_map (n3a_loop1 v f)) (n3a_qname f) p"
  using digest_cached_loop1_fold [of "{}" f "nsec3_params v" v]
  by (simp add: n3a_loop1_def)

lemma n3a_loop2_returns:
  assumes "\<forall>p\<in>fst ` set params. digest_cached (n3a_name_digest_map f) (n3a_qname f) p"
  shows "\<exists>f'. n3a_loop2 v params f = Inr f'"
  using assms
proof (induction params arbitrary: f)
  case Nil
  then show ?case by simp
next
  case (Cons pn params)
  obtain p names where pn: "pn = (p, names)" by (cases pn)
  from Cons.prems pn obtain inner digest_name where
    l: "map_of (n3a_name_digest_map f) (n3a_qname f) = Some inner"
       "map_of inner (Some p) = Some digest_name"
    by (auto simp: digest_cached_def split: option.splits)
  define f1 where
    "f1 = (if (case digest_name of None \<Rightarrow> False | Some dn \<Rightarrow> dn \<in> set names)
           then (case digest_name of None \<Rightarrow> f | Some dn \<Rightarrow> n3a_match_qname v dn f)
           else fold (\<lambda>(encloser, ns) f. n3a_cover_step v p encloser f)
                  (n3a_closest_encloser f) f)"
  have step: "n3a_loop2 v (pn # params) f = n3a_loop2 v params f1"
    by (simp add: pn l f1_def)
  have keep: "n3a_qname f1 = n3a_qname f
              \<and> (\<forall>p'. digest_cached (n3a_name_digest_map f) (n3a_qname f) p'
                        \<longrightarrow> digest_cached (n3a_name_digest_map f1) (n3a_qname f) p')"
  proof (cases "case digest_name of None \<Rightarrow> False | Some dn \<Rightarrow> dn \<in> set names")
    case True
    then obtain dn where "digest_name = Some dn" by (cases digest_name) simp_all
    with True have "f1 = n3a_match_qname v dn f" by (simp add: f1_def)
    then show ?thesis by (simp add: n3a_match_qname_def)
  next
    case False
    then have f1: "f1 = fold (\<lambda>(encloser, ns) f. n3a_cover_step v p encloser f)
                          (n3a_closest_encloser f) f"
      by (simp add: f1_def)
    have "n3a_inputs f1 = n3a_inputs f" unfolding f1 by simp
    then have "n3a_qname f1 = n3a_qname f" by (rule n3a_qname_of_inputs)
    moreover have "\<forall>p'. digest_cached (n3a_name_digest_map f) (n3a_qname f) p'
                        \<longrightarrow> digest_cached (n3a_name_digest_map f1) (n3a_qname f) p'"
      unfolding f1 using digest_cached_cover_fold by blast
    ultimately show ?thesis by simp
  qed
  with Cons.prems have "\<forall>p'\<in>fst ` set params.
                          digest_cached (n3a_name_digest_map f1) (n3a_qname f1) p'"
    by (auto simp del: split_paired_All)
  from Cons.IH [OF this] step show ?case by simp
qed

text \<open>
  The two loops of \<^verbatim>\<open>NSEC3StatusNoAnswer.__init__\<close> return for every input: the key that
  line 1050 reads was written by line 1035. An exception of the constructor comes from
  \<^verbatim>\<open>_set_validation_status\<close>.
\<close>

theorem NSEC3StatusNoAnswer_collect_returns:
  "\<exists>f. NSEC3StatusNoAnswer_collect qname rdtype origin v = Inr f"
proof -
  let ?f0 = "\<lparr>n3a_qname = qname, n3a_rdtype = rdtype, n3a_origin = origin,
           n3a_referral = referral v, n3a_wildcard_name = None,
           n3a_warnings = [], n3a_errors = [], n3a_name_digest_map = [],
           n3a_closest_encloser = get_closest_encloser v qname origin,
           n3a_nsec_names_covering_qname = [], n3a_nsec_names_covering_wildcard = [],
           n3a_nsec_for_qname = [], n3a_nsec_for_wildcard_name = [],
           n3a_has_rdtype = False, n3a_has_cname = False, n3a_has_ns = False,
           n3a_has_ds = False, n3a_has_soa = False, n3a_opt_out = False,
           n3a_wildcard_has_rdtype = False, n3a_wildcard_has_cname = False\<rparr>"
  have "n3a_qname (n3a_loop1 v ?f0) = n3a_qname ?f0"
    by (rule n3a_qname_of_inputs) (rule n3a_inputs_loop1)
  with digest_cached_loop1 [of v ?f0]
  have "\<forall>p\<in>fst ` set (nsec3_params v).
          digest_cached (n3a_name_digest_map (n3a_loop1 v ?f0)) (n3a_qname (n3a_loop1 v ?f0)) p"
    by (simp only:)
  from n3a_loop2_returns [OF this] show ?thesis
    unfolding NSEC3StatusNoAnswer_collect_def .
qed

text \<open>
  Whenever the loops leave no NSEC3 matching \<open>qname\<close>, an NSEC3 matching a wildcard, and
  no NSEC3 covering the next closer name, and the view reports a valid algorithm,
  \<^verbatim>\<open>_set_validation_status\<close> reaches line 1127 and the constructor ends in \<open>NameError\<close>.
\<close>

theorem NSEC3StatusNoAnswer_wildcard_branch_raises:
  assumes "NSEC3StatusNoAnswer_collect qname rdtype origin v = Inr f"
      and "n3a_nsec_for_qname f = []"
      and "n3a_nsec_for_wildcard_name f \<noteq> []"
      and "n3a_nsec_names_covering_qname f = []"
      and "fst (get_algorithm_support v) \<noteq> []"
  shows "NSEC3StatusNoAnswer_init qname rdtype origin v = Inl NameError"
  using assms
  by (cases "get_algorithm_support v")
     (simp add: NSEC3StatusNoAnswer_init_def NSEC3StatusNoAnswer_set_validation_status_def
        NSEC3StatusNoAnswer_verdict_def Let_def)

theorem NSEC3StatusNoAnswer_wildcard_branch_raises_witness:
  "(\<exists>f. NSEC3StatusNoAnswer_collect [''foo'', ''example'', []] 1 [''example'', []]
           (example_nsec3_view [[''hapex'', ''example'', []], [''hwild'', ''example'', []]] [] 0)
         = Inr f
        \<and> n3a_nsec_for_qname f = []
        \<and> n3a_nsec_for_wildcard_name f = [[''hwild'', ''example'', []]]
        \<and> n3a_nsec_names_covering_qname f = [])
   \<and> fst (get_algorithm_support
             (example_nsec3_view [[''hapex'', ''example'', []], [''hwild'', ''example'', []]] [] 0))
       = [1]
   \<and> NSEC3StatusNoAnswer_init [''foo'', ''example'', []] 1 [''example'', []]
        (example_nsec3_view [[''hapex'', ''example'', []], [''hwild'', ''example'', []]] [] 0)
       = Inl NameError"
proof -
  let ?v = "example_nsec3_view [[''hapex'', ''example'', []], [''hwild'', ''example'', []]] [] 0"
  let ?q = "[''foo'', ''example'', []]"
  let ?o = "[''example'', []]"
  have "\<exists>f. NSEC3StatusNoAnswer_collect ?q 1 ?o ?v = Inr f
          \<and> n3a_nsec_for_qname f = []
          \<and> n3a_nsec_for_wildcard_name f = [[''hwild'', ''example'', []]]
          \<and> n3a_nsec_names_covering_qname f = []"
    by (simp add: nsec3_noanswer_eval)
  then obtain f where
    coll: "NSEC3StatusNoAnswer_collect ?q 1 ?o ?v = Inr f"
    and nq: "n3a_nsec_for_qname f = []"
    and nw: "n3a_nsec_for_wildcard_name f = [[''hwild'', ''example'', []]]"
    and cq: "n3a_nsec_names_covering_qname f = []"
    by blast
  have algs: "fst (get_algorithm_support ?v) = [1]"
    by (simp add: example_nsec3_view_def)
  from nw have nw': "n3a_nsec_for_wildcard_name f \<noteq> []" by simp
  from algs have algs': "fst (get_algorithm_support ?v) \<noteq> []" by simp
  from NSEC3StatusNoAnswer_wildcard_branch_raises [OF coll nq nw' cq algs']
  have "NSEC3StatusNoAnswer_init ?q 1 ?o ?v = Inl NameError" .
  with coll nq nw cq algs show ?thesis by blast
qed

end
